theory Spec2Isabelle
  imports Main "HOL-Library.Multiset"
begin

section \<open>JavaScript values, rows and thrown values\<close>

text \<open>
  A row is a plain JavaScript object whose own properties are the column names and
  whose values are what the two drivers hand over: strings, numbers, booleans, dates,
  \<open>null\<close>, and \<open>BigInt\<close> (the MariaDB driver returns a \<open>BIGINT\<close> column as a
  \<open>BigInt\<close>). Numbers are restricted to integers and NaN; a \<open>Date\<close> is its number of
  milliseconds since the epoch. \<open>JInherited name\<close> is the member \<open>name\<close> that a plain
  object inherits from \<open>Object.prototype\<close>: a function, or the prototype itself for
  \<open>__proto__\<close>.
\<close>

datatype jsval =
    JUndefined
  | JNull
  | JBool bool
  | JNum int
  | JNaN
  | JStr string
  | JDate int
  | JBigInt int
  | JInherited string

text \<open>
  The truthiness test that \<open>!keyValue\<close> and \<open>a || b\<close> apply; \<open>0n\<close> is falsy, an
  object is truthy.
\<close>

fun truthy :: "jsval \<Rightarrow> bool" where
  "truthy JUndefined = False"
| "truthy JNull = False"
| "truthy (JBool b) = b"
| "truthy (JNum n) = (n \<noteq> 0)"
| "truthy JNaN = False"
| "truthy (JStr s) = (s \<noteq> [])"
| "truthy (JDate t) = True"
| "truthy (JBigInt n) = (n \<noteq> 0)"
| "truthy (JInherited m) = True"

text \<open>The own properties of a row, in order; the first pair for a name is the property.\<close>

type_synonym row = "(string \<times> jsval) list"

text \<open>The names of the properties of \<open>Object.prototype\<close>.\<close>

definition objectPrototypeMembers :: "string list" where
  "objectPrototypeMembers =
     [''constructor'', ''__defineGetter__'', ''__defineSetter__'', ''hasOwnProperty'',
      ''__lookupGetter__'', ''__lookupSetter__'', ''isPrototypeOf'', ''propertyIsEnumerable'',
      ''toString'', ''valueOf'', ''__proto__'', ''toLocaleString'']"

text \<open>
  \<open>record[column]\<close>: the own property when the row has one; otherwise the read goes up
  the prototype chain and finds the member of \<open>Object.prototype\<close> of that name, or
  nothing, which reads as \<open>undefined\<close>.
\<close>

definition getProp :: "row \<Rightarrow> string \<Rightarrow> jsval" where
  "getProp record column =
     (case map_of record column of
        Some v \<Rightarrow> v
      | None \<Rightarrow> if column \<in> set objectPrototypeMembers then JInherited column else JUndefined)"

text \<open>
  JavaScript throws any value. \<open>JsError msg\<close> is an object whose \<open>message\<close> property is
  the string \<open>msg\<close>, as the \<open>Error\<close> objects are that the adapters of this repository
  throw and rethrow; \<open>Thrown v\<close> is any other thrown value, \<open>throw null\<close> for one.
\<close>

datatype thrown = JsError string | Thrown jsval

text \<open>
  \<open>error.message\<close>: reading a property of \<open>null\<close> or \<open>undefined\<close> throws a
  \<open>TypeError\<close>, whose message is the one Node gives; any other value that is not such
  an object has no \<open>message\<close>, and the read gives \<open>undefined\<close>.
\<close>

fun errorMessage :: "thrown \<Rightarrow> thrown + jsval" where
  "errorMessage (JsError msg) = Inr (JStr msg)"
| "errorMessage (Thrown JUndefined) =
     Inl (JsError ''Cannot read properties of undefined (reading 'message')'')"
| "errorMessage (Thrown JNull) =
     Inl (JsError ''Cannot read properties of null (reading 'message')'')"
| "errorMessage (Thrown v) = Inr JUndefined"

text \<open>
  \<open>JSON.stringify(record)\<close> walks the own properties of the row and throws a
  \<open>TypeError\<close> at a \<open>BigInt\<close>; every other value of a row has a JSON text. The text
  itself only feeds the log and is left out: \<open>Inr ()\<close> is a call that returned.
\<close>

fun isBigInt :: "jsval \<Rightarrow> bool" where
  "isBigInt (JBigInt n) = True"
| "isBigInt _ = False"

definition bigIntTypeError :: thrown where
  "bigIntTypeError = JsError ''Do not know how to serialize a BigInt''"

definition JSON_stringify :: "row \<Rightarrow> thrown + unit" where
  "JSON_stringify record =
     (if list_ex (\<lambda>(column, v). map_of record column = Some v \<and> isBigInt v) record
      then Inl bigIntTypeError else Inr ())"

section \<open>The adapter interface and the record of calls\<close>

text \<open>
  The databases, the drivers and the wall clock form the world \<open>'w\<close>. Every adapter
  method takes the world and returns either a thrown value (\<open>Inl\<close>) or its result
  (\<open>Inr\<close>), with the world it leaves behind. These are the methods of
  \<open>BaseAdapter\<close> that \<open>SyncJob\<close> calls.
\<close>

record 'w adapter =
  getSyncStatus :: "string \<Rightarrow> 'w \<Rightarrow> (thrown + jsval) \<times> 'w"
  getUpdatedRecords :: "string \<Rightarrow> string \<Rightarrow> jsval \<Rightarrow> 'w \<Rightarrow> (thrown + row list) \<times> 'w"
  exists :: "string \<Rightarrow> string \<Rightarrow> jsval \<Rightarrow> 'w \<Rightarrow> (thrown + bool) \<times> 'w"
  batchInsert :: "string \<Rightarrow> row list \<Rightarrow> 'w \<Rightarrow> (thrown + unit) \<times> 'w"
  batchUpdate :: "string \<Rightarrow> row list \<Rightarrow> string \<Rightarrow> 'w \<Rightarrow> (thrown + unit) \<times> 'w"
  updateSyncStatus :: "string \<Rightarrow> int \<Rightarrow> 'w \<Rightarrow> (thrown + unit) \<times> 'w"

text \<open>
  To state which adapter methods a job invokes, with which arguments and in which
  order, the state carries next to the world the list of the calls made so far, each
  with the reply it got. The list is only ever appended to and never read by the job.
\<close>

datatype call =
    GetSyncStatus string
  | GetUpdatedRecords string string jsval
  | Exists string string jsval
  | BatchInsert string "row list"
  | BatchUpdate string "row list" string
  | UpdateSyncStatus string int

datatype reply =
    Threw thrown
  | RetUnit
  | RetBool bool
  | RetRows "row list"
  | RetVal jsval

record 'w run =
  world :: 'w
  calls :: "(call \<times> reply) list"

definition invoke ::
  "call \<Rightarrow> ('a \<Rightarrow> reply) \<Rightarrow> ('w \<Rightarrow> (thrown + 'a) \<times> 'w) \<Rightarrow> 'w run \<Rightarrow> (thrown + 'a) \<times> 'w run" where
  "invoke c rep f st =
     (case f (world st) of
        (res, w') \<Rightarrow>
          (res, \<lparr>world = w',
                 calls = calls st @ [(c, case res of Inl e \<Rightarrow> Threw e | Inr v \<Rightarrow> rep v)]\<rparr>))"

section \<open>SyncJob\<close>

text \<open>The fields the constructor of \<open>SyncJob\<close> sets and the methods below read.\<close>

record 'w sync_job =
  sourceAdapter :: "'w adapter"
  targetAdapter :: "'w adapter"
  tableName :: string
  targetTableName :: string
  updateColumn :: string
  keyColumn :: string
  batchSize :: int
  maxRetryAttempts :: int

subsection \<open>processBatch: the existence checks\<close>

text \<open>
  The first loop of \<open>processBatch\<close>. Every record is a row, an object as the drivers
  return it, so the read \<open>record[this.keyColumn]\<close> gives a value. A record whose key
  value is falsy is logged and skipped (\<open>continue\<close>); the log line holds
  \<open>JSON.stringify(record)\<close> and stands outside every \<open>try\<close>, so an error of that call
  ends the loop and leaves \<open>processBatch\<close>. Otherwise the target is asked whether the key
  exists and the record is pushed to \<open>toUpdate\<close> or to \<open>toInsert\<close>; a check that throws
  skips the record.
\<close>

fun partitionBatch ::
  "'w sync_job \<Rightarrow> row list \<Rightarrow> row list \<Rightarrow> row list \<Rightarrow> 'w run \<Rightarrow>
   (thrown + row list \<times> row list) \<times> 'w run" where
  "partitionBatch job [] toInsert toUpdate st = (Inr (toInsert, toUpdate), st)"
| "partitionBatch job (record # rest) toInsert toUpdate st =
     (let keyValue = getProp record (keyColumn job) in
      if \<not> truthy keyValue then
        (case JSON_stringify record of
           Inl err \<Rightarrow> (Inl err, st)
         | Inr _ \<Rightarrow> partitionBatch job rest toInsert toUpdate st)
      else
        (case invoke (Exists (targetTableName job) (keyColumn job) keyValue) RetBool
                (exists (targetAdapter job) (targetTableName job) (keyColumn job) keyValue) st of
           (Inr ex, st') \<Rightarrow>
             if ex then partitionBatch job rest toInsert (toUpdate @ [record]) st'
             else partitionBatch job rest (toInsert @ [record]) toUpdate st'
         | (Inl err, st') \<Rightarrow> partitionBatch job rest toInsert toUpdate st'))"

subsection \<open>insertOneByOne and updateOneByOne\<close>

fun insertOneByOne :: "'w sync_job \<Rightarrow> row list \<Rightarrow> nat \<Rightarrow> 'w run \<Rightarrow> nat \<times> 'w run" where
  "insertOneByOne job [] successful st = (successful, st)"
| "insertOneByOne job (record # rest) successful st =
     (case invoke (BatchInsert (targetTableName job) [record]) (\<lambda>_. RetUnit)
             (batchInsert (targetAdapter job) (targetTableName job) [record]) st of
        (Inr _, st') \<Rightarrow> insertOneByOne job rest (successful + 1) st'
      | (Inl err, st') \<Rightarrow> insertOneByOne job rest successful st')"

fun updateOneByOne :: "'w sync_job \<Rightarrow> row list \<Rightarrow> nat \<Rightarrow> 'w run \<Rightarrow> nat \<times> 'w run" where
  "updateOneByOne job [] successful st = (successful, st)"
| "updateOneByOne job (record # rest) successful st =
     (case invoke (BatchUpdate (targetTableName job) [record] (keyColumn job)) (\<lambda>_. RetUnit)
             (batchUpdate (targetAdapter job) (targetTableName job) [record] (keyColumn job)) st of
        (Inr _, st') \<Rightarrow> updateOneByOne job rest (successful + 1) st'
      | (Inl err, st') \<Rightarrow> updateOneByOne job rest successful st')"

subsection \<open>processBatch: applying the two partitions\<close>

record batch_result =
  processed :: nat
  inserted :: nat
  updated :: nat

text \<open>
  The two guarded blocks of \<open>processBatch\<close> that follow the loop, one per partition: a
  single batch call when the partition is not empty, and the one-by-one fallback when
  that call throws.
\<close>

definition applyInserts :: "'w sync_job \<Rightarrow> row list \<Rightarrow> 'w run \<Rightarrow> nat \<times> 'w run" where
  "applyInserts job toInsert st =
     (if length toInsert > 0 then
        (case invoke (BatchInsert (targetTableName job) toInsert) (\<lambda>_. RetUnit)
                (batchInsert (targetAdapter job) (targetTableName job) toInsert) st of
           (Inr _, st') \<Rightarrow> (length toInsert, st')
         | (Inl err, st') \<Rightarrow> insertOneByOne job toInsert 0 st')
      else (0, st))"

definition applyUpdates :: "'w sync_job \<Rightarrow> row list \<Rightarrow> 'w run \<Rightarrow> nat \<times> 'w run" where
  "applyUpdates job toUpdate st =
     (if length toUpdate > 0 then
        (case invoke (BatchUpdate (targetTableName job) toUpdate (keyColumn job)) (\<lambda>_. RetUnit)
                (batchUpdate (targetAdapter job) (targetTableName job) toUpdate (keyColumn job)) st of
           (Inr _, st') \<Rightarrow> (length toUpdate, st')
         | (Inl err, st') \<Rightarrow> updateOneByOne job toUpdate 0 st')
      else (0, st))"

text \<open>
  \<open>processBatch\<close>: \<open>Inl\<close> is the error of a skip log, thrown out of the first loop
  before any row of the batch is inserted or updated.
\<close>

definition processBatch ::
  "'w sync_job \<Rightarrow> row list \<Rightarrow> 'w run \<Rightarrow> (thrown + batch_result) \<times> 'w run" where
  "processBatch job batch st =
     (case partitionBatch job batch [] [] st of
        (Inl err, st1) \<Rightarrow> (Inl err, st1)
      | (Inr (toInsert, toUpdate), st1) \<Rightarrow>
          (case applyInserts job toInsert st1 of
             (ins, st2) \<Rightarrow>
               (case applyUpdates job toUpdate st2 of
                  (upd, st3) \<Rightarrow>
                    (Inr \<lparr>processed = ins + upd, inserted = ins, updated = upd\<rparr>, st3))))"

subsection \<open>processBatches\<close>

text \<open>
  \<open>Array.prototype.slice(start, end)\<close>: a negative index counts from the end, and both
  are clamped to the array.
\<close>

definition js_slice :: "'a list \<Rightarrow> int \<Rightarrow> int \<Rightarrow> 'a list" where
  "js_slice xs start end' =
     (let n = int (length xs);
          k = (if start < 0 then max (n + start) 0 else min start n);
          final = (if end' < 0 then max (n + end') 0 else min end' n)
      in take (nat (final - k)) (drop (nat k) xs))"

record batches_result =
  totalProcessed :: nat
  totalInserted :: nat
  totalUpdated :: nat

text \<open>
  The loop \<open>for (let i = 0; i < records.length; i += this.batchSize)\<close>. With a batch
  size that is not positive the index never reaches the length and the loop does not
  end: the loop is a partial function, and \<open>None\<close> is the run that never returns. An
  error thrown by \<open>processBatch\<close> leaves the loop and \<open>processBatches\<close>. The fields
  \<open>totalInserted\<close> and \<open>totalUpdated\<close> are \<open>results.inserted\<close> and \<open>results.updated\<close>
  of the source.
\<close>

partial_function (option) processBatchesLoop ::
  "'w sync_job \<Rightarrow> row list \<Rightarrow> int \<Rightarrow> batches_result \<Rightarrow> 'w run \<Rightarrow>
   ((thrown + batches_result) \<times> 'w run) option" where
  "processBatchesLoop job records i results st =
     (if i < int (length records) then
        (case processBatch job (js_slice records i (i + batchSize job)) st of
           (Inl err, st') \<Rightarrow> Some (Inl err, st')
         | (Inr batchResults, st') \<Rightarrow>
             processBatchesLoop job records (i + batchSize job)
               \<lparr>totalProcessed = totalProcessed results + processed batchResults,
                totalInserted = totalInserted results + inserted batchResults,
                totalUpdated = totalUpdated results + updated batchResults\<rparr> st')
      else Some (Inr results, st))"

definition processBatches ::
  "'w sync_job \<Rightarrow> row list \<Rightarrow> 'w run \<Rightarrow> ((thrown + batches_result) \<times> 'w run) option" where
  "processBatches job records st =
     processBatchesLoop job records 0
       \<lparr>totalProcessed = 0, totalInserted = 0, totalUpdated = 0\<rparr> st"

subsection \<open>execute\<close>

text \<open>
  The three literal values of the \<open>message\<close> property of a result: no new records,
  synchronisation succeeded, synchronisation failed. The \<open>error\<close> property is absent
  from a result that reports success; in one that reports failure it holds what
  \<open>error.message\<close> gave, which is \<open>undefined\<close> for a thrown value without a message.
\<close>

datatype result_message = NoNewRecords | SyncSucceeded | SyncFailed

record sync_result =
  success :: bool
  recordsProcessed :: nat
  recordsInserted :: "nat option"
  recordsUpdated :: "nat option"
  duration :: "int option"
  error :: "jsval option"
  resultMessage :: result_message

text \<open>
  \<open>lastSyncTime.toISOString()\<close> inside the \<open>try\<close> block: a value that is not a
  \<open>Date\<close> has no such method and the call throws a \<open>TypeError\<close>, whose message is
  the one Node gives. Every \<open>JDate\<close> is a valid date.
\<close>

definition toISOString :: "jsval \<Rightarrow> thrown + int" where
  "toISOString v =
     (case v of
        JDate t \<Rightarrow> Inr t
      | JUndefined \<Rightarrow>
          Inl (JsError ''Cannot read properties of undefined (reading 'toISOString')'')
      | JNull \<Rightarrow> Inl (JsError ''Cannot read properties of null (reading 'toISOString')'')
      | _ \<Rightarrow> Inl (JsError ''lastSyncTime.toISOString is not a function''))"

text \<open>
  The \<open>try\<close> block of \<open>execute\<close>. \<open>clock\<close> reads \<open>new Date()\<close> off the world;
  \<open>Inl\<close> is a thrown value that leaves the block.
\<close>

definition execute_try ::
  "('w \<Rightarrow> int) \<Rightarrow> 'w sync_job \<Rightarrow> int \<Rightarrow> 'w run \<Rightarrow> ((thrown + sync_result) \<times> 'w run) option" where
  "execute_try clock job startTime st =
     (let syncStatusKey = tableName job @ ''_to_'' @ targetTableName job in
      case invoke (GetSyncStatus syncStatusKey) RetVal
             (getSyncStatus (targetAdapter job) syncStatusKey) st of
        (Inl e, st1) \<Rightarrow> Some (Inl e, st1)
      | (Inr lastSyncTime, st1) \<Rightarrow>
          (case toISOString lastSyncTime of
             Inl e \<Rightarrow> Some (Inl e, st1)
           | Inr _ \<Rightarrow>
               (case invoke (GetUpdatedRecords (tableName job) (updateColumn job) lastSyncTime) RetRows
                       (getUpdatedRecords (sourceAdapter job) (tableName job) (updateColumn job)
                          lastSyncTime) st1 of
                  (Inl e, st2) \<Rightarrow> Some (Inl e, st2)
                | (Inr updatedRecords, st2) \<Rightarrow>
                    if length updatedRecords = 0 then
                      Some (Inr \<lparr>success = True, recordsProcessed = 0, recordsInserted = None,
                                 recordsUpdated = None, duration = None, error = None,
                                 resultMessage = NoNewRecords\<rparr>, st2)
                    else
                      (case processBatches job updatedRecords st2 of
                         None \<Rightarrow> None
                       | Some (Inl e, st3) \<Rightarrow> Some (Inl e, st3)
                       | Some (Inr results, st3) \<Rightarrow>
                           (let currentTime = clock (world st3) in
                            case invoke (UpdateSyncStatus syncStatusKey currentTime) (\<lambda>_. RetUnit)
                                   (updateSyncStatus (targetAdapter job) syncStatusKey currentTime)
                                   st3 of
                              (Inl e, st4) \<Rightarrow> Some (Inl e, st4)
                            | (Inr _, st4) \<Rightarrow>
                                Some (Inr \<lparr>success = True,
                                           recordsProcessed = totalProcessed results,
                                           recordsInserted = Some (totalInserted results),
                                           recordsUpdated = Some (totalUpdated results),
                                           duration = Some (clock (world st4) - startTime),
                                           error = None,
                                           resultMessage = SyncSucceeded\<rparr>, st4))))))"

text \<open>
  The \<open>catch\<close> block of \<open>execute\<close> builds the result object from \<open>error.message\<close>.
  When that read throws, the error leaves \<open>execute\<close>.
\<close>

definition execute_catch :: "thrown \<Rightarrow> thrown + sync_result" where
  "execute_catch err =
     (case errorMessage err of
        Inl e \<Rightarrow> Inl e
      | Inr msg \<Rightarrow>
          Inr \<lparr>success = False, recordsProcessed = 0, recordsInserted = None,
               recordsUpdated = None, duration = None, error = Some msg,
               resultMessage = SyncFailed\<rparr>)"

text \<open>
  \<open>execute\<close>: the \<open>try\<close> block with its \<open>catch\<close>. The sum is the promise
  \<open>execute\<close> returns: \<open>Inr\<close> a result, \<open>Inl\<close> a rejection, that is, an error
  thrown out of \<open>execute\<close>.
\<close>

definition execute ::
  "('w \<Rightarrow> int) \<Rightarrow> 'w sync_job \<Rightarrow> 'w run \<Rightarrow> ((thrown + sync_result) \<times> 'w run) option" where
  "execute clock job st =
     (let startTime = clock (world st) in
      case execute_try clock job startTime st of
        None \<Rightarrow> None
      | Some (Inr result, st') \<Rightarrow> Some (Inr result, st')
      | Some (Inl err, st') \<Rightarrow> Some (execute_catch err, st'))"

section \<open>The watermark read of the two adapters\<close>

text \<open>
  \<open>MariaDBAdapter.query\<close> throws when the adapter has no pool and otherwise runs the
  statement on a connection of the pool; the pool's own behaviour is a parameter. The
  message of the error is the UTF-8 text of the source's literal.
\<close>

type_synonym 'w maria_pool = "string \<Rightarrow> jsval list \<Rightarrow> 'w \<Rightarrow> (thrown + row list) \<times> 'w"

definition notConnectedMessage :: string where
  "notConnectedMessage =
     map char_of [232, 179, 135, 230, 150, 153, 229, 186, 171, 230, 156, 170, 233, 128, 163,
                  230, 142, 165 :: nat]"

definition mariadb_query ::
  "'w maria_pool option \<Rightarrow> string \<Rightarrow> jsval list \<Rightarrow> 'w \<Rightarrow> (thrown + row list) \<times> 'w" where
  "mariadb_query pool queryString params w =
     (case pool of
        None \<Rightarrow> (Inl (JsError notConnectedMessage), w)
      | Some run_query \<Rightarrow> run_query queryString params w)"

text \<open>\<open>result[0]?.last_sync_time || new Date(0)\<close>\<close>

definition firstSyncTimeOrEpoch :: "row list \<Rightarrow> jsval" where
  "firstSyncTimeOrEpoch result =
     (let v = (case result of [] \<Rightarrow> JUndefined | r # _ \<Rightarrow> getProp r ''last_sync_time'')
      in if truthy v then v else JDate 0)"

definition mariadb_getSyncStatus ::
  "'w maria_pool option \<Rightarrow> string \<Rightarrow> 'w \<Rightarrow> (thrown + jsval) \<times> 'w" where
  "mariadb_getSyncStatus pool table w =
     (case mariadb_query pool ''SELECT last_sync_time FROM sync_status WHERE table_name = ?''
             [JStr table] w of
        (Inr result, w') \<Rightarrow> (Inr (firstSyncTimeOrEpoch result), w')
      | (Inl err, w') \<Rightarrow> (Inr (JDate 0), w'))"

text \<open>
  \<open>MSSQLAdapter.getSyncStatus\<close> builds a request on the pool, binds the named input
  and runs the statement. \<open>this.pool.request()\<close> on an adapter without a pool throws a
  \<open>TypeError\<close> inside the \<open>try\<close> block.
\<close>

type_synonym 'w mssql_pool = "string \<Rightarrow> (string \<times> jsval) list \<Rightarrow> 'w \<Rightarrow> (thrown + row list) \<times> 'w"

definition mssql_getSyncStatus ::
  "'w mssql_pool option \<Rightarrow> string \<Rightarrow> 'w \<Rightarrow> (thrown + jsval) \<times> 'w" where
  "mssql_getSyncStatus pool table w =
     (case (case pool of
              None \<Rightarrow> (Inl (JsError ''Cannot read properties of null (reading 'request')''), w)
            | Some request_query \<Rightarrow>
                request_query
                  ''SELECT last_sync_time FROM sync_status WHERE table_name = @tableName''
                  [(''tableName'', JStr table)] w) of
        (Inr recordset, w') \<Rightarrow> (Inr (firstSyncTimeOrEpoch recordset), w')
      | (Inl err, w') \<Rightarrow> (Inr (JDate 0), w'))"

text \<open>
  The MariaDB adapter while it has no pool (before \<open>connect\<close>, after \<open>disconnect\<close>).
  \<open>exists\<close>, \<open>getUpdatedRecords\<close> and \<open>updateSyncStatus\<close> go through \<open>query\<close> and
  rethrow its error; \<open>batchInsert\<close> and \<open>batchUpdate\<close> return at once on an empty array and
  otherwise throw the \<open>TypeError\<close> of \<open>this.pool.getConnection()\<close>; only
  \<open>getSyncStatus\<close> swallows the error.
\<close>

definition mariadbWithoutPool :: "'w adapter" where
  "mariadbWithoutPool =
     \<lparr>getSyncStatus = mariadb_getSyncStatus None,
      getUpdatedRecords = (\<lambda>t c since w. (Inl (JsError notConnectedMessage), w)),
      exists = (\<lambda>t c k w. (Inl (JsError notConnectedMessage), w)),
      batchInsert = (\<lambda>t rs w.
        if length rs = 0 then (Inr (), w)
        else (Inl (JsError ''Cannot read properties of null (reading 'getConnection')''), w)),
      batchUpdate = (\<lambda>t rs c w.
        if length rs = 0 then (Inr (), w)
        else (Inl (JsError ''Cannot read properties of null (reading 'getConnection')''), w)),
      updateSyncStatus = (\<lambda>k t w. (Inl (JsError notConnectedMessage), w))\<rparr>"

section \<open>The scheduler: DatabaseSyncer\<close>

record table_pair =
  listenTable :: string
  syncTable :: string

text \<open>The part of \<open>syncConfig\<close> that the scheduler and the job constructor read.\<close>

record sync_config =
  cfgUpdateColumn :: string
  cfgBatchSize :: int
  cfgMaxRetryAttempts :: int
  clientToServer :: table_pair
  serverToClient :: table_pair

text \<open>What the table analysis stored for a table; a field is \<open>None\<close> when it is null.\<close>

record table_schema =
  primaryKey :: "string option"
  schemaUpdateColumn :: "string option"

record sync_job_options =
  optTargetTableName :: "string option"
  optUpdateColumn :: "string option"
  optKeyColumn :: "string option"
  optBatchSize :: "int option"
  optMaxRetryAttempts :: "int option"

text \<open>\<open>a || b\<close> on an optional string and on an optional number.\<close>

definition strOr :: "string option \<Rightarrow> string \<Rightarrow> string" where
  "strOr a b = (case a of None \<Rightarrow> b | Some s \<Rightarrow> if s \<noteq> [] then s else b)"

definition numOr :: "int option \<Rightarrow> int \<Rightarrow> int" where
  "numOr a b = (case a of None \<Rightarrow> b | Some n \<Rightarrow> if n \<noteq> 0 then n else b)"

text \<open>The constructor of \<open>SyncJob\<close>.\<close>

definition newSyncJob ::
  "sync_config \<Rightarrow> 'w adapter \<Rightarrow> 'w adapter \<Rightarrow> string \<Rightarrow> sync_job_options \<Rightarrow> 'w sync_job" where
  "newSyncJob cfg source target table options =
     \<lparr>sourceAdapter = source,
      targetAdapter = target,
      tableName = table,
      targetTableName = strOr (optTargetTableName options) table,
      updateColumn = strOr (optUpdateColumn options) (cfgUpdateColumn cfg),
      keyColumn = strOr (optKeyColumn options) ''id'',
      batchSize = numOr (optBatchSize options) (cfgBatchSize cfg),
      maxRetryAttempts = numOr (optMaxRetryAttempts options) (cfgMaxRetryAttempts cfg)\<rparr>"

text \<open>\<open>String.prototype.trim\<close> on the ASCII white space.\<close>

definition isSpace :: "char \<Rightarrow> bool" where
  "isSpace c = (c = CHR '' '' \<or> c = CHR 0x09 \<or> c = CHR 0x0A \<or> c = CHR 0x0B
                \<or> c = CHR 0x0C \<or> c = CHR 0x0D)"

definition js_trim :: "string \<Rightarrow> string" where
  "js_trim s = rev (dropWhile isSpace (rev (dropWhile isSpace s)))"

record 'w syncer =
  clientAdapter :: "'w adapter option"
  serverAdapter :: "'w adapter option"
  tableSchemas :: "(string \<times> table_schema) list"
  isRunning :: bool

record tick_results =
  totalTables :: nat
  successTables :: nat
  failedTables :: nat
  totalRecords :: nat

text \<open>
  The options \<open>syncTablePair\<close> builds for the job: the configured defaults, overridden
  by the analysed schema of the listened table when there is one.
\<close>

definition syncJobOptions :: "sync_config \<Rightarrow> table_schema option \<Rightarrow> string \<Rightarrow> sync_job_options" where
  "syncJobOptions cfg listenTableSchema syncTable' =
     (case listenTableSchema of
        None \<Rightarrow>
          \<lparr>optTargetTableName = Some syncTable',
           optUpdateColumn = Some (cfgUpdateColumn cfg),
           optKeyColumn = None,
           optBatchSize = Some (cfgBatchSize cfg),
           optMaxRetryAttempts = Some (cfgMaxRetryAttempts cfg)\<rparr>
      | Some schema \<Rightarrow>
          \<lparr>optTargetTableName = Some syncTable',
           optUpdateColumn = Some (strOr (schemaUpdateColumn schema) (cfgUpdateColumn cfg)),
           optKeyColumn = Some (strOr (primaryKey schema) ''id''),
           optBatchSize = Some (cfgBatchSize cfg),
           optMaxRetryAttempts = Some (cfgMaxRetryAttempts cfg)\<rparr>)"

text \<open>
  The job \<open>syncTablePair\<close> constructs: it looks the schema of the listened table up
  under \<open>schemaPrefix.listenTable\<close> and listens on the trimmed table name.
\<close>

definition pairSyncJob ::
  "sync_config \<Rightarrow> 'w syncer \<Rightarrow> 'w adapter \<Rightarrow> 'w adapter \<Rightarrow> string \<Rightarrow> string \<Rightarrow> string \<Rightarrow>
   'w sync_job" where
  "pairSyncJob cfg syncer source target listenTable' syncTable' schemaPrefix =
     (let listenTableSchema = map_of (tableSchemas syncer) (schemaPrefix @ ''.'' @ listenTable')
      in newSyncJob cfg source target (js_trim listenTable')
           (syncJobOptions cfg listenTableSchema syncTable'))"

text \<open>
  \<open>syncLogger.syncError(tableName, error)\<close> builds its log entry from
  \<open>error.message\<close> and \<open>error.stack\<close>; the first read throws when the error is
  \<open>null\<close> or \<open>undefined\<close>.
\<close>

definition syncError :: "thrown \<Rightarrow> thrown + unit" where
  "syncError err = (case errorMessage err of Inl e \<Rightarrow> Inl e | Inr _ \<Rightarrow> Inr ())"

text \<open>
  \<open>syncTablePair\<close>; its \<open>direction\<close> argument only feeds the log and is left out. A
  result that reports success counts one successful table and its records, one that
  reports failure counts one failed table; an error thrown out of \<open>execute\<close> is caught,
  counted as one failed table and logged through \<open>syncError\<close>. \<open>Inl\<close> is an error
  thrown out of \<open>syncTablePair\<close>, which only its \<open>catch\<close> block can throw.
\<close>

definition syncTablePair ::
  "('w \<Rightarrow> int) \<Rightarrow> sync_config \<Rightarrow> 'w syncer \<Rightarrow> 'w adapter \<Rightarrow> 'w adapter \<Rightarrow> string \<Rightarrow> string \<Rightarrow>
   string \<Rightarrow> 'w run \<Rightarrow> ((thrown + tick_results) \<times> 'w run) option" where
  "syncTablePair clock cfg syncer source target listenTable' syncTable' schemaPrefix st =
     (let results = \<lparr>totalTables = 1, successTables = 0, failedTables = 0, totalRecords = 0\<rparr> in
      if \<not> isRunning syncer then Some (Inr results, st)
      else
        (let syncJob = pairSyncJob cfg syncer source target listenTable' syncTable' schemaPrefix
         in case execute clock syncJob st of
              None \<Rightarrow> None
            | Some (Inr result, st') \<Rightarrow>
                if success result then
                  Some (Inr (results\<lparr>successTables := successTables results + 1,
                                     totalRecords := totalRecords results + recordsProcessed result\<rparr>),
                        st')
                else Some (Inr (results\<lparr>failedTables := failedTables results + 1\<rparr>), st')
            | Some (Inl err, st') \<Rightarrow>
                (case syncError err of
                   Inl e \<Rightarrow> Some (Inl e, st')
                 | Inr _ \<Rightarrow> Some (Inr (results\<lparr>failedTables := failedTables results + 1\<rparr>), st'))))"

definition mergeResults :: "tick_results \<Rightarrow> tick_results \<Rightarrow> tick_results" where
  "mergeResults target source =
     \<lparr>totalTables = totalTables target + totalTables source,
      successTables = successTables target + successTables source,
      failedTables = failedTables target + failedTables source,
      totalRecords = totalRecords target + totalRecords source\<rparr>"

text \<open>
  The \<open>try\<close> block of \<open>runSync\<close>: the two directed pairs in turn, each when both
  adapters and both table names are there. Its value is the aggregate the tick hands to
  the log; \<open>Inl\<close> is an error thrown out of \<open>syncTablePair\<close>, which ends the block.
\<close>

definition runSync_try ::
  "('w \<Rightarrow> int) \<Rightarrow> sync_config \<Rightarrow> 'w syncer \<Rightarrow> 'w run \<Rightarrow> ((thrown + tick_results) \<times> 'w run) option" where
  "runSync_try clock cfg syncer st =
     (let results = \<lparr>totalTables = 0, successTables = 0, failedTables = 0, totalRecords = 0\<rparr> in
      case (case (clientAdapter syncer, serverAdapter syncer) of
              (Some client, Some server) \<Rightarrow>
                if listenTable (clientToServer cfg) \<noteq> [] \<and> syncTable (clientToServer cfg) \<noteq> []
                then
                  (case syncTablePair clock cfg syncer client server
                          (listenTable (clientToServer cfg)) (syncTable (clientToServer cfg))
                          ''client'' st of
                     None \<Rightarrow> None
                   | Some (Inl err, st1) \<Rightarrow> Some (Inl err, st1)
                   | Some (Inr clientToServerResults, st1) \<Rightarrow>
                       Some (Inr (mergeResults results clientToServerResults), st1))
                else Some (Inr results, st)
            | _ \<Rightarrow> Some (Inr results, st)) of
        None \<Rightarrow> None
      | Some (Inl err, st1) \<Rightarrow> Some (Inl err, st1)
      | Some (Inr results1, st1) \<Rightarrow>
          (case (serverAdapter syncer, clientAdapter syncer) of
             (Some server, Some client) \<Rightarrow>
               if listenTable (serverToClient cfg) \<noteq> [] \<and> syncTable (serverToClient cfg) \<noteq> []
               then
                 (case syncTablePair clock cfg syncer server client
                         (listenTable (serverToClient cfg)) (syncTable (serverToClient cfg))
                         ''server'' st1 of
                    None \<Rightarrow> None
                  | Some (Inl err, st2) \<Rightarrow> Some (Inl err, st2)
                  | Some (Inr serverToClientResults, st2) \<Rightarrow>
                      Some (Inr (mergeResults results1 serverToClientResults), st2))
               else Some (Inr results1, st1)
           | _ \<Rightarrow> Some (Inr results1, st1)))"

text \<open>
  \<open>runSync\<close>, one tick: nothing when the syncer is stopped; otherwise the \<open>try\<close>
  block, whose \<open>catch\<close> logs the error and ends the tick without an aggregate.
\<close>

datatype tick_outcome = NotRunning | TickCompleted tick_results | TickFailed thrown

definition runSync ::
  "('w \<Rightarrow> int) \<Rightarrow> sync_config \<Rightarrow> 'w syncer \<Rightarrow> 'w run \<Rightarrow> (tick_outcome \<times> 'w run) option" where
  "runSync clock cfg syncer st =
     (if \<not> isRunning syncer then Some (NotRunning, st)
      else
        (case runSync_try clock cfg syncer st of
           None \<Rightarrow> None
         | Some (Inr results, st') \<Rightarrow> Some (TickCompleted results, st')
         | Some (Inl err, st') \<Rightarrow> Some (TickFailed err, st')))"

section \<open>An in-memory adapter\<close>

text \<open>
  A small database held in memory, on which the theorems below are exercised: the rows
  of the listened table, the keys present in the target table, the stored watermarks
  and the wall clock. A batch insert fails as a whole when one of its rows has a null
  \<open>name\<close> or a key that is already present; a batch update fails when one of its rows
  has a null \<open>name\<close>; an existence check on the key \<open>locked\<close> fails; reading the table
  \<open>missing\<close> fails with an \<open>Error\<close>, and reading the table \<open>void\<close> fails with a
  thrown \<open>null\<close>.
\<close>

record mem_db =
  sourceRows :: "row list"
  targetKeys :: "jsval list"
  watermarks :: "(string \<times> int) list"
  wallClock :: int

fun laterThan :: "jsval \<Rightarrow> jsval \<Rightarrow> bool" where
  "laterThan (JDate a) (JDate b) = (b < a)"
| "laterThan _ _ = False"

definition memAdapter :: "mem_db adapter" where
  "memAdapter =
     \<lparr>getSyncStatus = (\<lambda>k w.
        (Inr (case map_of (watermarks w) k of None \<Rightarrow> JDate 0 | Some t \<Rightarrow> JDate t), w)),
      getUpdatedRecords = (\<lambda>t c since w.
        if t = ''missing'' then (Inl (JsError ''no such table''), w)
        else if t = ''void'' then (Inl (Thrown JNull), w)
        else (Inr (filter (\<lambda>r. laterThan (getProp r c) since) (sourceRows w)), w)),
      exists = (\<lambda>t c k w.
        if k = JStr ''locked'' then (Inl (JsError ''lock wait timeout''), w)
        else (Inr (k \<in> set (targetKeys w)), w)),
      batchInsert = (\<lambda>t rs w.
        if list_ex (\<lambda>r. getProp r ''name'' = JNull \<or> getProp r ''id'' \<in> set (targetKeys w)) rs
        then (Inl (JsError ''constraint violation''), w)
        else (Inr (), w\<lparr>targetKeys := targetKeys w @ map (\<lambda>r. getProp r ''id'') rs\<rparr>)),
      batchUpdate = (\<lambda>t rs c w.
        if list_ex (\<lambda>r. getProp r ''name'' = JNull) rs
        then (Inl (JsError ''constraint violation''), w)
        else (Inr (), w)),
      updateSyncStatus = (\<lambda>k t w.
        if k = ''archive_to_readonly'' then (Inl (JsError ''read-only database''), w)
        else (Inr (), w\<lparr>watermarks := (k, t) # watermarks w\<rparr>))\<rparr>"

definition memJob :: "string \<Rightarrow> string \<Rightarrow> int \<Rightarrow> mem_db sync_job" where
  "memJob source_table target_table n =
     \<lparr>sourceAdapter = memAdapter, targetAdapter = memAdapter,
      tableName = source_table, targetTableName = target_table,
      updateColumn = ''updated_at'', keyColumn = ''id'',
      batchSize = n, maxRetryAttempts = 3\<rparr>"

definition memRow :: "jsval \<Rightarrow> jsval \<Rightarrow> int \<Rightarrow> row" where
  "memRow key name' t = [(''id'', key), (''name'', name'), (''updated_at'', JDate t)]"

text \<open>A row of a table that has a \<open>BIGINT\<close> column, \<open>quantity\<close>.\<close>

definition memBigRow :: "jsval \<Rightarrow> int \<Rightarrow> int \<Rightarrow> row" where
  "memBigRow key quantity t = [(''id'', key), (''quantity'', JBigInt quantity), (''updated_at'', JDate t)]"

text \<open>
  Two configurations with two directed pairs over the in-memory database. In both the
  server side listens on \<open>orders\<close>; the client side listens on a table whose read
  throws an \<open>Error\<close> in the first and a \<open>null\<close> in the second.
\<close>

definition memConfig :: sync_config where
  "memConfig =
     \<lparr>cfgUpdateColumn = ''updated_at'', cfgBatchSize = 10, cfgMaxRetryAttempts = 3,
      clientToServer = \<lparr>listenTable = ''missing'', syncTable = ''lost''\<rparr>,
      serverToClient = \<lparr>listenTable = ''orders'', syncTable = ''orders_copy''\<rparr>\<rparr>"

definition memConfigVoid :: sync_config where
  "memConfigVoid =
     \<lparr>cfgUpdateColumn = ''updated_at'', cfgBatchSize = 10, cfgMaxRetryAttempts = 3,
      clientToServer = \<lparr>listenTable = ''void'', syncTable = ''lost''\<rparr>,
      serverToClient = \<lparr>listenTable = ''orders'', syncTable = ''orders_copy''\<rparr>\<rparr>"

definition memSyncer :: "mem_db syncer" where
  "memSyncer =
     \<lparr>clientAdapter = Some memAdapter, serverAdapter = Some memAdapter,
      tableSchemas = [], isRunning = True\<rparr>"

definition memStart :: "row list \<Rightarrow> jsval list \<Rightarrow> mem_db run" where
  "memStart rows keys =
     \<lparr>world = \<lparr>sourceRows = rows, targetKeys = keys, watermarks = [], wallClock = 1000\<rparr>,
      calls = []\<rparr>"

section \<open>Reading the record of calls\<close>

text \<open>The calls a step added: those of the state after it that the state before lacks.\<close>

definition newCalls :: "'w run \<Rightarrow> 'w run \<Rightarrow> (call \<times> reply) list" where
  "newCalls st st' = drop (length (calls st)) (calls st')"

fun isInsertCall :: "call \<times> reply \<Rightarrow> bool" where
  "isInsertCall (BatchInsert t rows, rp) = True"
| "isInsertCall _ = False"

fun isUpdateCall :: "call \<times> reply \<Rightarrow> bool" where
  "isUpdateCall (BatchUpdate t rows c, rp) = True"
| "isUpdateCall _ = False"

fun isExistsCall :: "call \<times> reply \<Rightarrow> bool" where
  "isExistsCall (Exists t c k, rp) = True"
| "isExistsCall _ = False"

fun isWatermarkWrite :: "call \<times> reply \<Rightarrow> bool" where
  "isWatermarkWrite (UpdateSyncStatus k t, rp) = True"
| "isWatermarkWrite _ = False"

fun isExtractionCall :: "call \<times> reply \<Rightarrow> bool" where
  "isExtractionCall (GetSyncStatus k, rp) = True"
| "isExtractionCall (GetUpdatedRecords t c since, rp) = True"
| "isExtractionCall _ = False"

fun succeeded :: "call \<times> reply \<Rightarrow> bool" where
  "succeeded (c, Threw e) = False"
| "succeeded _ = True"

text \<open>The rows a call hands to the target, and the key an existence check asks for.\<close>

fun rowsOf :: "call \<Rightarrow> row list" where
  "rowsOf (BatchInsert t rows) = rows"
| "rowsOf (BatchUpdate t rows c) = rows"
| "rowsOf _ = []"

fun checkedKey :: "call \<Rightarrow> jsval option" where
  "checkedKey (Exists t c k) = Some k"
| "checkedKey _ = None"

definition keyOf :: "'w sync_job \<Rightarrow> row \<Rightarrow> jsval" where
  "keyOf job r = getProp r (keyColumn job)"

definition existsCall :: "'w sync_job \<Rightarrow> row \<Rightarrow> call" where
  "existsCall job r = Exists (targetTableName job) (keyColumn job) (keyOf job r)"

definition hasKey :: "'w sync_job \<Rightarrow> row \<Rightarrow> bool" where
  "hasKey job r = truthy (keyOf job r)"

text \<open>A row that \<open>JSON.stringify\<close> turns into text: none of its values is a \<open>BigInt\<close>.\<close>

definition serializable :: "row \<Rightarrow> bool" where
  "serializable r = (JSON_stringify r = Inr ())"

text \<open>
  The three shapes the calls of one apply block can take for a partition \<open>rows\<close>,
  with the count \<open>n\<close> the block reports: no call for an empty partition; one batch
  call that returned; or a batch call that threw, followed by one call per row.
\<close>

definition applyShape :: "(row list \<Rightarrow> call) \<Rightarrow> row list \<Rightarrow> (call \<times> reply) list \<Rightarrow> nat \<Rightarrow> bool" where
  "applyShape mk rows tr n =
     (case tr of
        [] \<Rightarrow> rows = [] \<and> n = 0
      | x # rest \<Rightarrow>
          rows \<noteq> [] \<and> fst x = mk rows \<and>
          (if succeeded x then snd x = RetUnit \<and> rest = [] \<and> n = length rows
           else map fst rest = map (\<lambda>r. mk [r]) rows \<and> n = length (filter succeeded rest)))"

text \<open>
  A call that reconciling the rows \<open>rows\<close> may make: an existence check, an insert or
  an update; a checked key is truthy, and the rows handed over are rows of \<open>rows\<close>
  that have a key.
\<close>

definition reconcileCall :: "'w sync_job \<Rightarrow> row list \<Rightarrow> call \<times> reply \<Rightarrow> bool" where
  "reconcileCall job rows x =
     ((isExistsCall x \<or> isInsertCall x \<or> isUpdateCall x)
      \<and> (\<forall>k. checkedKey (fst x) = Some k \<longrightarrow> truthy k)
      \<and> (\<forall>r \<in> set (rowsOf (fst x)). hasKey job r \<and> r \<in> set rows))"

definition syncStatusKey :: "'w sync_job \<Rightarrow> string" where
  "syncStatusKey job = tableName job @ ''_to_'' @ targetTableName job"

text \<open>
  The two results \<open>execute\<close> returns without having reconciled anything, the second
  with the value \<open>error.message\<close> gave.
\<close>

definition noNewRecordsResult :: sync_result where
  "noNewRecordsResult =
     \<lparr>success = True, recordsProcessed = 0, recordsInserted = None, recordsUpdated = None,
      duration = None, error = None, resultMessage = NoNewRecords\<rparr>"

definition failedResult :: "jsval \<Rightarrow> sync_result" where
  "failedResult msg =
     \<lparr>success = False, recordsProcessed = 0, recordsInserted = None, recordsUpdated = None,
      duration = None, error = Some msg, resultMessage = SyncFailed\<rparr>"

text \<open>
  An observation \<open>obs\<close> of the world (the stored watermark of a pair key, for one)
  that the two reads of a job leave as it is, and one that the three methods of the
  reconciliation leave as it is.
\<close>

definition readsPreserve :: "('w \<Rightarrow> 'a) \<Rightarrow> 'w sync_job \<Rightarrow> bool" where
  "readsPreserve obs job =
     ((\<forall>k w. obs (snd (getSyncStatus (targetAdapter job) k w)) = obs w)
      \<and> (\<forall>t c s w. obs (snd (getUpdatedRecords (sourceAdapter job) t c s w)) = obs w))"

definition reconciliationPreserves :: "('w \<Rightarrow> 'a) \<Rightarrow> 'w sync_job \<Rightarrow> bool" where
  "reconciliationPreserves obs job =
     ((\<forall>t c k w. obs (snd (exists (targetAdapter job) t c k w)) = obs w)
      \<and> (\<forall>t rs w. obs (snd (batchInsert (targetAdapter job) t rs w)) = obs w)
      \<and> (\<forall>t rs c w. obs (snd (batchUpdate (targetAdapter job) t rs c w)) = obs w))"

text \<open>The thrown values whose \<open>message\<close> cannot be read.\<close>

definition unreadable :: "thrown \<Rightarrow> bool" where
  "unreadable e = (e = Thrown JNull \<or> e = Thrown JUndefined)"

text \<open>What the scheduler counts for one table whose job failed or threw.\<close>

definition oneFailedTable :: tick_results where
  "oneFailedTable = \<lparr>totalTables = 1, successTables = 0, failedTables = 1, totalRecords = 0\<rparr>"

definition oneSuccessTable :: "nat \<Rightarrow> tick_results" where
  "oneSuccessTable n = \<lparr>totalTables = 1, successTables = 1, failedTables = 0, totalRecords = n\<rparr>"

section \<open>Chunking, as a specification\<close>

text \<open>
  Cutting a list into consecutive groups of \<open>n\<close> elements, the last one possibly
  shorter, and running \<open>processBatch\<close> over a list of groups while summing the counts,
  up to the first group whose \<open>processBatch\<close> throws. These two functions are not in
  the source: they describe what the loop of \<open>processBatches\<close> computes, and the loop is
  proved equal to them below.
\<close>

function chunks :: "nat \<Rightarrow> 'a list \<Rightarrow> 'a list list" where
  "chunks n xs = (if n = 0 \<or> xs = [] then [] else take n xs # chunks n (drop n xs))"
  by pat_completeness auto
termination
  by (relation "measure (\<lambda>(n, xs). length xs)") auto

declare chunks.simps [simp del]

fun processChunks ::
  "'w sync_job \<Rightarrow> row list list \<Rightarrow> batches_result \<Rightarrow> 'w run \<Rightarrow>
   (thrown + batches_result) \<times> 'w run" where
  "processChunks job [] results st = (Inr results, st)"
| "processChunks job (batch # rest) results st =
     (case processBatch job batch st of
        (Inl err, st') \<Rightarrow> (Inl err, st')
      | (Inr batchResults, st') \<Rightarrow>
          processChunks job rest
            \<lparr>totalProcessed = totalProcessed results + processed batchResults,
             totalInserted = totalInserted results + inserted batchResults,
             totalUpdated = totalUpdated results + updated batchResults\<rparr> st')"

section \<open>Basic facts about the record of calls\<close>

lemma invoke_calls:
  "invoke c rep f st = (res, st') \<Longrightarrow>
     calls st' = calls st @ [(c, case res of Inl e \<Rightarrow> Threw e | Inr v \<Rightarrow> rep v)]"
  by (auto simp: invoke_def split: prod.splits)

lemma invoke_world:
  "invoke c rep f st = (res, st') \<Longrightarrow> f (world st) = (res, world st')"
  by (auto simp: invoke_def split: prod.splits)

lemma invoke_frame:
  "invoke c rep f st = (res, st') \<Longrightarrow> (\<And>w. obs (snd (f w)) = obs w) \<Longrightarrow>
     obs (world st') = obs (world st)"
  by (metis invoke_world snd_conv)

lemma newCalls_same [simp]: "newCalls st st = []"
  by (simp add: newCalls_def)

lemma newCalls_append:
  "calls st' = calls st @ tr \<Longrightarrow> newCalls st st' = tr"
  by (simp add: newCalls_def)

lemma newCalls_trans:
  "calls s1 = calls s0 @ a \<Longrightarrow> calls s2 = calls s1 @ b \<Longrightarrow> newCalls s0 s2 = a @ b"
  by (simp add: newCalls_def)

section \<open>Thrown values and their messages\<close>

lemma errorMessage_cases:
  obtains (readable) msg where "errorMessage e = Inr msg" "\<not> unreadable e"
  | (isNull) "e = Thrown JNull"
      "errorMessage e = Inl (JsError ''Cannot read properties of null (reading 'message')'')"
  | (isUndefined) "e = Thrown JUndefined"
      "errorMessage e = Inl (JsError ''Cannot read properties of undefined (reading 'message')'')"
proof (cases e)
  case (JsError m)
  then show ?thesis using readable by (simp add: unreadable_def)
next
  case (Thrown v)
  then show ?thesis using readable isNull isUndefined by (cases v) (simp_all add: unreadable_def)
qed

lemma errorMessage_unreadable:
  "(\<exists>e'. errorMessage e = Inl e') \<longleftrightarrow> unreadable e"
  by (cases e rule: errorMessage_cases) (auto simp: unreadable_def)

lemma errorMessage_Inl_JsError:
  "errorMessage e = Inl e' \<Longrightarrow> \<exists>m. e' = JsError m"
  by (cases e rule: errorMessage_cases) auto

lemma failedResult_not_success [simp]: "\<not> success (failedResult msg)"
  by (simp add: failedResult_def)

lemma noNewRecordsResult_success [simp]: "success noNewRecordsResult"
  by (simp add: noNewRecordsResult_def)

lemma execute_catch_readable:
  "errorMessage e = Inr msg \<Longrightarrow> execute_catch e = Inr (failedResult msg)"
  by (simp add: execute_catch_def failedResult_def)

lemma execute_catch_unreadable:
  "errorMessage e = Inl e' \<Longrightarrow> execute_catch e = Inl e'"
  by (simp add: execute_catch_def)

lemma execute_catch_JsError [simp]:
  "execute_catch (JsError m) = Inr (failedResult (JStr m))"
  by (simp add: execute_catch_def failedResult_def)

lemma execute_catch_Inr:
  "execute_catch e = Inr r \<Longrightarrow> \<exists>msg. errorMessage e = Inr msg \<and> r = failedResult msg"
  by (auto simp: execute_catch_def failedResult_def split: sum.splits)

lemma execute_catch_Inl:
  "execute_catch e = Inl e' \<Longrightarrow> errorMessage e = Inl e' \<and> unreadable e"
  using errorMessage_unreadable [of e]
  by (auto simp: execute_catch_def split: sum.splits)

lemma JSON_stringify_cases:
  obtains (returns) "JSON_stringify r = Inr ()" "serializable r"
  | (throws) "JSON_stringify r = Inl bigIntTypeError" "\<not> serializable r"
proof (cases "list_ex (\<lambda>(column, v). map_of r column = Some v \<and> isBigInt v) r")
  case True
  then have "JSON_stringify r = Inl bigIntTypeError" "\<not> serializable r"
    by (simp_all add: JSON_stringify_def serializable_def)
  then show ?thesis by (rule throws)
next
  case False
  then have "JSON_stringify r = Inr ()" "serializable r"
    by (simp_all add: JSON_stringify_def serializable_def)
  then show ?thesis by (rule returns)
qed

section \<open>partitionBatch\<close>

lemma partitionBatch_append:
  "partitionBatch job (xs @ ys) toInsert toUpdate st =
     (case partitionBatch job xs toInsert toUpdate st of
        (Inl e, st') \<Rightarrow> (Inl e, st')
      | (Inr (toInsert', toUpdate'), st') \<Rightarrow> partitionBatch job ys toInsert' toUpdate' st')"
  by (induction xs arbitrary: toInsert toUpdate st)
     (auto simp: Let_def split: prod.splits sum.splits)

lemma partitionBatch_Cons_cases:
  assumes "partitionBatch job (r # rest) I U st = res"
  obtains
    (skip) "\<not> truthy (keyOf job r)" "serializable r" "partitionBatch job rest I U st = res"
  | (skipThrew) "\<not> truthy (keyOf job r)" "\<not> serializable r" "res = (Inl bigIntTypeError, st)"
  | (upd) st1 where "truthy (keyOf job r)"
      "calls st1 = calls st @ [(existsCall job r, RetBool True)]"
      "exists (targetAdapter job) (targetTableName job) (keyColumn job) (keyOf job r) (world st)
         = (Inr True, world st1)"
      "partitionBatch job rest I (U @ [r]) st1 = res"
  | (ins) st1 where "truthy (keyOf job r)"
      "calls st1 = calls st @ [(existsCall job r, RetBool False)]"
      "exists (targetAdapter job) (targetTableName job) (keyColumn job) (keyOf job r) (world st)
         = (Inr False, world st1)"
      "partitionBatch job rest (I @ [r]) U st1 = res"
  | (err) e st1 where "truthy (keyOf job r)"
      "calls st1 = calls st @ [(existsCall job r, Threw e)]"
      "exists (targetAdapter job) (targetTableName job) (keyColumn job) (keyOf job r) (world st)
         = (Inl e, world st1)"
      "partitionBatch job rest I U st1 = res"
proof (cases "truthy (keyOf job r)")
  case False
  show ?thesis
  proof (cases r rule: JSON_stringify_cases)
    case returns
    with assms False skip show ?thesis by (simp add: keyOf_def)
  next
    case throws
    with assms False skipThrew show ?thesis by (simp add: keyOf_def)
  qed
next
  case True
  obtain out st1 where inv:
    "invoke (Exists (targetTableName job) (keyColumn job) (keyOf job r)) RetBool
       (exists (targetAdapter job) (targetTableName job) (keyColumn job) (keyOf job r)) st
     = (out, st1)"
    by (cases "invoke (Exists (targetTableName job) (keyColumn job) (keyOf job r)) RetBool
       (exists (targetAdapter job) (targetTableName job) (keyColumn job) (keyOf job r)) st")
  note c = invoke_calls [OF inv] and w = invoke_world [OF inv]
  show ?thesis
  proof (cases out)
    case (Inl e)
    with assms True inv c w err show ?thesis
      by (simp add: keyOf_def existsCall_def)
  next
    case (Inr b)
    with assms True inv c w upd ins show ?thesis
      by (cases b) (simp_all add: keyOf_def existsCall_def)
  qed
qed

text \<open>
  Whatever the outcome of the loop, its calls are existence checks on rows of the batch
  that have a key, and it changes nothing that the existence check leaves alone. An
  error that leaves the loop is the \<open>TypeError\<close> of a skipped row that holds a
  \<open>BigInt\<close>.
\<close>

lemma partitionBatch_calls:
  assumes "partitionBatch job batch I U st = (out, st')"
  shows "\<exists>tr. calls st' = calls st @ tr
           \<and> (\<forall>x \<in> set tr. \<exists>R \<in> set batch. hasKey job R \<and> fst x = existsCall job R)
           \<and> (\<forall>e. out = Inl e \<longrightarrow>
                 e = bigIntTypeError \<and> (\<exists>R \<in> set batch. \<not> hasKey job R \<and> \<not> serializable R))"
  using assms
proof (induction batch arbitrary: I U st)
  case Nil
  then show ?case by auto
next
  case (Cons r rest)
  have step: "\<exists>tr. calls st' = calls st @ tr
           \<and> (\<forall>x \<in> set tr. \<exists>R \<in> set (r # rest). hasKey job R \<and> fst x = existsCall job R)
           \<and> (\<forall>e. out = Inl e \<longrightarrow>
                 e = bigIntTypeError \<and> (\<exists>R \<in> set (r # rest). \<not> hasKey job R \<and> \<not> serializable R))"
    if rec: "partitionBatch job rest I1 U1 st1 = (out, st')"
    and c: "calls st1 = calls st @ [(existsCall job r, rp)]"
    and k: "truthy (keyOf job r)"
    for I1 U1 st1 rp
  proof -
    from Cons.IH [OF rec] obtain tr where h:
      "calls st' = calls st1 @ tr"
      "\<forall>x \<in> set tr. \<exists>R \<in> set rest. hasKey job R \<and> fst x = existsCall job R"
      "\<forall>e. out = Inl e \<longrightarrow>
          e = bigIntTypeError \<and> (\<exists>R \<in> set rest. \<not> hasKey job R \<and> \<not> serializable R)"
      by blast
    from k have hk: "hasKey job r" by (simp add: hasKey_def)
    show ?thesis
      by (rule exI [of _ "(existsCall job r, rp) # tr"]) (use h c hk in auto)
  qed
  from Cons.prems show ?case
  proof (cases rule: partitionBatch_Cons_cases)
    case skip
    from Cons.IH [OF skip(3)] show ?thesis by auto
  next
    case skipThrew
    from skipThrew(1) have "\<not> hasKey job r" by (simp add: hasKey_def)
    with skipThrew(2,3) show ?thesis by auto
  next
    case (upd st1)
    from step [OF upd(4) upd(2) upd(1)] show ?thesis .
  next
    case (ins st1)
    from step [OF ins(4) ins(2) ins(1)] show ?thesis .
  next
    case (err e st1)
    from step [OF err(4) err(2) err(1)] show ?thesis .
  qed
qed

lemma partitionBatch_frame:
  assumes "\<And>t c k w. obs (snd (exists (targetAdapter job) t c k w)) = obs w"
  shows "partitionBatch job batch I U st = (out, st') \<Longrightarrow> obs (world st') = obs (world st)"
proof (induction batch arbitrary: I U st)
  case Nil
  then show ?case by simp
next
  case (Cons r rest)
  have w: "obs (world st1) = obs (world st)"
    if "exists (targetAdapter job) (targetTableName job) (keyColumn job) (keyOf job r) (world st)
         = (x, world st1)" for x st1
    using assms [of "targetTableName job" "keyColumn job" "keyOf job r" "world st"] that by simp
  from Cons.prems show ?case
  proof (cases rule: partitionBatch_Cons_cases)
    case skip
    from Cons.IH [OF skip(3)] show ?thesis .
  next
    case skipThrew
    then show ?thesis by simp
  next
    case (upd st1)
    from Cons.IH [OF upd(4)] w [OF upd(3)] show ?thesis by simp
  next
    case (ins st1)
    from Cons.IH [OF ins(4)] w [OF ins(3)] show ?thesis by simp
  next
    case (err e st1)
    from Cons.IH [OF err(4)] w [OF err(3)] show ?thesis by simp
  qed
qed

lemma partitionBatch_returns:
  assumes "\<forall>R \<in> set batch. hasKey job R \<or> serializable R"
  shows "\<exists>I' U' st'. partitionBatch job batch I U st = (Inr (I', U'), st')"
proof -
  obtain out st' where p: "partitionBatch job batch I U st = (out, st')"
    by (cases "partitionBatch job batch I U st")
  show ?thesis
  proof (cases out)
    case (Inl e)
    with partitionBatch_calls [OF p] assms show ?thesis by blast
  next
    case (Inr iu)
    with p show ?thesis by (cases iu) auto
  qed
qed

lemma partitionBatch_inv:
  assumes "partitionBatch job batch I U st = (Inr (I', U'), st')"
  shows "\<exists>i u tr. I' = I @ i \<and> U' = U @ u \<and> calls st' = calls st @ tr
           \<and> mset i + mset u \<subseteq># mset (filter (hasKey job) batch)
           \<and> (\<forall>R \<in> set u. (existsCall job R, RetBool True) \<in> set tr)
           \<and> (\<forall>R \<in> set i. (existsCall job R, RetBool False) \<in> set tr)
           \<and> (\<forall>R \<in> set batch. hasKey job R \<longrightarrow>
                  R \<in> set i \<or> R \<in> set u \<or> (\<exists>e. (existsCall job R, Threw e) \<in> set tr))
           \<and> map fst tr = map (existsCall job) (filter (hasKey job) batch)"
  using assms
proof (induction batch arbitrary: I U st)
  case Nil
  then show ?case by simp
next
  case (Cons r rest)
  from Cons.prems show ?case
  proof (cases rule: partitionBatch_Cons_cases)
    case skip
    from skip(1) have nk: "\<not> hasKey job r" by (simp add: hasKey_def)
    from Cons.IH [OF skip(3)] nk show ?thesis
      by simp
  next
    case skipThrew
    then show ?thesis by simp
  next
    case (upd st1)
    from upd(1) have hk: "hasKey job r" by (simp add: hasKey_def)
    from Cons.IH [OF upd(4)] obtain i u tr where h:
      "I' = I @ i" "U' = (U @ [r]) @ u" "calls st' = calls st1 @ tr"
      "mset i + mset u \<subseteq># mset (filter (hasKey job) rest)"
      "\<forall>R \<in> set u. (existsCall job R, RetBool True) \<in> set tr"
      "\<forall>R \<in> set i. (existsCall job R, RetBool False) \<in> set tr"
      "\<forall>R \<in> set rest. hasKey job R \<longrightarrow>
                  R \<in> set i \<or> R \<in> set u \<or> (\<exists>e. (existsCall job R, Threw e) \<in> set tr)"
      "map fst tr = map (existsCall job) (filter (hasKey job) rest)"
      by blast
    show ?thesis
      apply (rule exI [of _ i], rule exI [of _ "r # u"],
             rule exI [of _ "(existsCall job r, RetBool True) # tr"])
      using h hk upd(2) by auto
  next
    case (ins st1)
    from ins(1) have hk: "hasKey job r" by (simp add: hasKey_def)
    from Cons.IH [OF ins(4)] obtain i u tr where h:
      "I' = (I @ [r]) @ i" "U' = U @ u" "calls st' = calls st1 @ tr"
      "mset i + mset u \<subseteq># mset (filter (hasKey job) rest)"
      "\<forall>R \<in> set u. (existsCall job R, RetBool True) \<in> set tr"
      "\<forall>R \<in> set i. (existsCall job R, RetBool False) \<in> set tr"
      "\<forall>R \<in> set rest. hasKey job R \<longrightarrow>
                  R \<in> set i \<or> R \<in> set u \<or> (\<exists>e. (existsCall job R, Threw e) \<in> set tr)"
      "map fst tr = map (existsCall job) (filter (hasKey job) rest)"
      by blast
    show ?thesis
      apply (rule exI [of _ "r # i"], rule exI [of _ u],
             rule exI [of _ "(existsCall job r, RetBool False) # tr"])
      using h hk ins(2) by auto
  next
    case (err e st1)
    from err(1) have hk: "hasKey job r" by (simp add: hasKey_def)
    from Cons.IH [OF err(4)] obtain i u tr where h:
      "I' = I @ i" "U' = U @ u" "calls st' = calls st1 @ tr"
      "mset i + mset u \<subseteq># mset (filter (hasKey job) rest)"
      "\<forall>R \<in> set u. (existsCall job R, RetBool True) \<in> set tr"
      "\<forall>R \<in> set i. (existsCall job R, RetBool False) \<in> set tr"
      "\<forall>R \<in> set rest. hasKey job R \<longrightarrow>
                  R \<in> set i \<or> R \<in> set u \<or> (\<exists>e. (existsCall job R, Threw e) \<in> set tr)"
      "map fst tr = map (existsCall job) (filter (hasKey job) rest)"
      by blast
    show ?thesis
      apply (rule exI [of _ i], rule exI [of _ u],
             rule exI [of _ "(existsCall job r, Threw e) # tr"])
      using h hk err(2) by (auto intro: subset_mset.order_trans)
  qed
qed

section \<open>The one-by-one fallbacks\<close>

lemma insertOneByOne_inv:
  "insertOneByOne job records n st = (n', st') \<Longrightarrow>
     \<exists>tr. calls st' = calls st @ tr
        \<and> map fst tr = map (\<lambda>r. BatchInsert (targetTableName job) [r]) records
        \<and> n' = n + length (filter succeeded tr)"
proof (induction records arbitrary: n st)
  case Nil
  then show ?case by simp
next
  case (Cons r rest)
  obtain out st1 where inv:
    "invoke (BatchInsert (targetTableName job) [r]) (\<lambda>_. RetUnit)
       (batchInsert (targetAdapter job) (targetTableName job) [r]) st = (out, st1)"
    by (cases "invoke (BatchInsert (targetTableName job) [r]) (\<lambda>_. RetUnit)
       (batchInsert (targetAdapter job) (targetTableName job) [r]) st")
  note c = invoke_calls [OF inv]
  show ?case
  proof (cases out)
    case (Inl e)
    with Cons.prems inv have "insertOneByOne job rest n st1 = (n', st')" by simp
    from Cons.IH [OF this] obtain tr where
      "calls st' = calls st1 @ tr"
      "map fst tr = map (\<lambda>r. BatchInsert (targetTableName job) [r]) rest"
      "n' = n + length (filter succeeded tr)" by blast
    with c Inl show ?thesis
      by (intro exI [of _ "(BatchInsert (targetTableName job) [r], Threw e) # tr"]) simp
  next
    case (Inr u)
    with Cons.prems inv have "insertOneByOne job rest (n + 1) st1 = (n', st')" by simp
    from Cons.IH [OF this] obtain tr where
      "calls st' = calls st1 @ tr"
      "map fst tr = map (\<lambda>r. BatchInsert (targetTableName job) [r]) rest"
      "n' = n + 1 + length (filter succeeded tr)" by blast
    with c Inr show ?thesis
      by (intro exI [of _ "(BatchInsert (targetTableName job) [r], RetUnit) # tr"]) simp
  qed
qed

lemma updateOneByOne_inv:
  "updateOneByOne job records n st = (n', st') \<Longrightarrow>
     \<exists>tr. calls st' = calls st @ tr
        \<and> map fst tr = map (\<lambda>r. BatchUpdate (targetTableName job) [r] (keyColumn job)) records
        \<and> n' = n + length (filter succeeded tr)"
proof (induction records arbitrary: n st)
  case Nil
  then show ?case by simp
next
  case (Cons r rest)
  obtain out st1 where inv:
    "invoke (BatchUpdate (targetTableName job) [r] (keyColumn job)) (\<lambda>_. RetUnit)
       (batchUpdate (targetAdapter job) (targetTableName job) [r] (keyColumn job)) st = (out, st1)"
    by (cases "invoke (BatchUpdate (targetTableName job) [r] (keyColumn job)) (\<lambda>_. RetUnit)
       (batchUpdate (targetAdapter job) (targetTableName job) [r] (keyColumn job)) st")
  note c = invoke_calls [OF inv]
  show ?case
  proof (cases out)
    case (Inl e)
    with Cons.prems inv have "updateOneByOne job rest n st1 = (n', st')" by simp
    from Cons.IH [OF this] obtain tr where
      "calls st' = calls st1 @ tr"
      "map fst tr = map (\<lambda>r. BatchUpdate (targetTableName job) [r] (keyColumn job)) rest"
      "n' = n + length (filter succeeded tr)" by blast
    with c Inl show ?thesis
      by (intro exI [of _ "(BatchUpdate (targetTableName job) [r] (keyColumn job), Threw e) # tr"])
         simp
  next
    case (Inr u)
    with Cons.prems inv have "updateOneByOne job rest (n + 1) st1 = (n', st')" by simp
    from Cons.IH [OF this] obtain tr where
      "calls st' = calls st1 @ tr"
      "map fst tr = map (\<lambda>r. BatchUpdate (targetTableName job) [r] (keyColumn job)) rest"
      "n' = n + 1 + length (filter succeeded tr)" by blast
    with c Inr show ?thesis
      by (intro exI [of _ "(BatchUpdate (targetTableName job) [r] (keyColumn job), RetUnit) # tr"])
         simp
  qed
qed

lemma insertOneByOne_frame:
  assumes "\<And>t rs w. obs (snd (batchInsert (targetAdapter job) t rs w)) = obs w"
  shows "obs (world (snd (insertOneByOne job records n st))) = obs (world st)"
proof (induction records arbitrary: n st)
  case Nil
  then show ?case by simp
next
  case (Cons r rest)
  obtain out st1 where inv:
    "invoke (BatchInsert (targetTableName job) [r]) (\<lambda>_. RetUnit)
       (batchInsert (targetAdapter job) (targetTableName job) [r]) st = (out, st1)"
    by (cases "invoke (BatchInsert (targetTableName job) [r]) (\<lambda>_. RetUnit)
       (batchInsert (targetAdapter job) (targetTableName job) [r]) st")
  have w: "obs (world st1) = obs (world st)"
    by (rule invoke_frame [OF inv]) (rule assms)
  show ?case using inv w Cons.IH by (cases out) simp_all
qed

lemma updateOneByOne_frame:
  assumes "\<And>t rs c w. obs (snd (batchUpdate (targetAdapter job) t rs c w)) = obs w"
  shows "obs (world (snd (updateOneByOne job records n st))) = obs (world st)"
proof (induction records arbitrary: n st)
  case Nil
  then show ?case by simp
next
  case (Cons r rest)
  obtain out st1 where inv:
    "invoke (BatchUpdate (targetTableName job) [r] (keyColumn job)) (\<lambda>_. RetUnit)
       (batchUpdate (targetAdapter job) (targetTableName job) [r] (keyColumn job)) st = (out, st1)"
    by (cases "invoke (BatchUpdate (targetTableName job) [r] (keyColumn job)) (\<lambda>_. RetUnit)
       (batchUpdate (targetAdapter job) (targetTableName job) [r] (keyColumn job)) st")
  have w: "obs (world st1) = obs (world st)"
    by (rule invoke_frame [OF inv]) (rule assms)
  show ?case using inv w Cons.IH by (cases out) simp_all
qed

lemma applyInserts_inv:
  assumes "applyInserts job toInsert st = (n, st')"
  shows "\<exists>tr. calls st' = calls st @ tr
            \<and> applyShape (BatchInsert (targetTableName job)) toInsert tr n"
proof (cases "toInsert = []")
  case True
  with assms show ?thesis by (simp add: applyInserts_def applyShape_def)
next
  case False
  obtain out st1 where inv:
    "invoke (BatchInsert (targetTableName job) toInsert) (\<lambda>_. RetUnit)
       (batchInsert (targetAdapter job) (targetTableName job) toInsert) st = (out, st1)"
    by (cases "invoke (BatchInsert (targetTableName job) toInsert) (\<lambda>_. RetUnit)
       (batchInsert (targetAdapter job) (targetTableName job) toInsert) st")
  note c = invoke_calls [OF inv]
  show ?thesis
  proof (cases out)
    case (Inr u)
    with assms inv False have "n = length toInsert" "st' = st1"
      by (simp_all add: applyInserts_def)
    with c Inr False show ?thesis
      by (intro exI [of _ "[(BatchInsert (targetTableName job) toInsert, RetUnit)]"])
         (simp add: applyShape_def)
  next
    case (Inl e)
    with assms inv False have "insertOneByOne job toInsert 0 st1 = (n, st')"
      by (simp add: applyInserts_def)
    from insertOneByOne_inv [OF this] obtain tr where
      "calls st' = calls st1 @ tr"
      "map fst tr = map (\<lambda>r. BatchInsert (targetTableName job) [r]) toInsert"
      "n = length (filter succeeded tr)" by auto
    with c Inl False show ?thesis
      by (intro exI [of _ "(BatchInsert (targetTableName job) toInsert, Threw e) # tr"])
         (simp add: applyShape_def)
  qed
qed

lemma applyUpdates_inv:
  assumes "applyUpdates job toUpdate st = (n, st')"
  shows "\<exists>tr. calls st' = calls st @ tr
            \<and> applyShape (\<lambda>rows. BatchUpdate (targetTableName job) rows (keyColumn job)) toUpdate tr n"
proof (cases "toUpdate = []")
  case True
  with assms show ?thesis by (simp add: applyUpdates_def applyShape_def)
next
  case False
  obtain out st1 where inv:
    "invoke (BatchUpdate (targetTableName job) toUpdate (keyColumn job)) (\<lambda>_. RetUnit)
       (batchUpdate (targetAdapter job) (targetTableName job) toUpdate (keyColumn job)) st = (out, st1)"
    by (cases "invoke (BatchUpdate (targetTableName job) toUpdate (keyColumn job)) (\<lambda>_. RetUnit)
       (batchUpdate (targetAdapter job) (targetTableName job) toUpdate (keyColumn job)) st")
  note c = invoke_calls [OF inv]
  show ?thesis
  proof (cases out)
    case (Inr u)
    with assms inv False have "n = length toUpdate" "st' = st1"
      by (simp_all add: applyUpdates_def)
    with c Inr False show ?thesis
      by (intro exI [of _ "[(BatchUpdate (targetTableName job) toUpdate (keyColumn job), RetUnit)]"])
         (simp add: applyShape_def)
  next
    case (Inl e)
    with assms inv False have "updateOneByOne job toUpdate 0 st1 = (n, st')"
      by (simp add: applyUpdates_def)
    from updateOneByOne_inv [OF this] obtain tr where
      "calls st' = calls st1 @ tr"
      "map fst tr = map (\<lambda>r. BatchUpdate (targetTableName job) [r] (keyColumn job)) toUpdate"
      "n = length (filter succeeded tr)" by auto
    with c Inl False show ?thesis
      by (intro exI [of _ "(BatchUpdate (targetTableName job) toUpdate (keyColumn job), Threw e) # tr"])
         (simp add: applyShape_def)
  qed
qed

lemma applyInserts_frame:
  assumes "\<And>t rs w. obs (snd (batchInsert (targetAdapter job) t rs w)) = obs w"
  shows "obs (world (snd (applyInserts job toInsert st))) = obs (world st)"
proof (cases "toInsert = []")
  case True
  then show ?thesis by (simp add: applyInserts_def)
next
  case False
  obtain out st1 where inv:
    "invoke (BatchInsert (targetTableName job) toInsert) (\<lambda>_. RetUnit)
       (batchInsert (targetAdapter job) (targetTableName job) toInsert) st = (out, st1)"
    by (cases "invoke (BatchInsert (targetTableName job) toInsert) (\<lambda>_. RetUnit)
       (batchInsert (targetAdapter job) (targetTableName job) toInsert) st")
  have w: "obs (world st1) = obs (world st)"
    by (rule invoke_frame [OF inv]) (rule assms)
  show ?thesis
    using False inv w insertOneByOne_frame [of obs job toInsert 0 st1, OF assms]
    by (cases out) (simp_all add: applyInserts_def)
qed

lemma applyUpdates_frame:
  assumes "\<And>t rs c w. obs (snd (batchUpdate (targetAdapter job) t rs c w)) = obs w"
  shows "obs (world (snd (applyUpdates job toUpdate st))) = obs (world st)"
proof (cases "toUpdate = []")
  case True
  then show ?thesis by (simp add: applyUpdates_def)
next
  case False
  obtain out st1 where inv:
    "invoke (BatchUpdate (targetTableName job) toUpdate (keyColumn job)) (\<lambda>_. RetUnit)
       (batchUpdate (targetAdapter job) (targetTableName job) toUpdate (keyColumn job)) st = (out, st1)"
    by (cases "invoke (BatchUpdate (targetTableName job) toUpdate (keyColumn job)) (\<lambda>_. RetUnit)
       (batchUpdate (targetAdapter job) (targetTableName job) toUpdate (keyColumn job)) st")
  have w: "obs (world st1) = obs (world st)"
    by (rule invoke_frame [OF inv]) (rule assms)
  show ?thesis
    using False inv w updateOneByOne_frame [of obs job toUpdate 0 st1, OF assms]
    by (cases out) (simp_all add: applyUpdates_def)
qed

section \<open>processBatch\<close>

lemma processBatch_cases:
  obtains
    (threw) st1 where
      "partitionBatch job batch [] [] st = (Inl bigIntTypeError, st1)"
      "processBatch job batch st = (Inl bigIntTypeError, st1)"
  | (returned) toInsert toUpdate st1 ins st2 upd st3 where
      "partitionBatch job batch [] [] st = (Inr (toInsert, toUpdate), st1)"
      "applyInserts job toInsert st1 = (ins, st2)"
      "applyUpdates job toUpdate st2 = (upd, st3)"
      "processBatch job batch st = (Inr \<lparr>processed = ins + upd, inserted = ins, updated = upd\<rparr>, st3)"
proof -
  obtain out st1 where p: "partitionBatch job batch [] [] st = (out, st1)"
    by (cases "partitionBatch job batch [] [] st")
  show ?thesis
  proof (cases out)
    case (Inl e)
    with partitionBatch_calls [OF p] have e: "e = bigIntTypeError" by blast
    with p Inl threw show ?thesis by (simp add: processBatch_def)
  next
    case (Inr iu)
    obtain toInsert toUpdate where iu: "iu = (toInsert, toUpdate)" by (cases iu)
    obtain ins st2 where a: "applyInserts job toInsert st1 = (ins, st2)"
      by (cases "applyInserts job toInsert st1")
    obtain upd st3 where b: "applyUpdates job toUpdate st2 = (upd, st3)"
      by (cases "applyUpdates job toUpdate st2")
    from p Inr iu a b returned show ?thesis by (simp add: processBatch_def)
  qed
qed

lemma processBatch_inv:
  assumes "partitionBatch job batch [] [] st = (Inr (toInsert, toUpdate), st1)"
      and "processBatch job batch st = (Inr res, st')"
  shows "\<exists>ti tu. calls st' = calls st1 @ ti @ tu
           \<and> applyShape (BatchInsert (targetTableName job)) toInsert ti (inserted res)
           \<and> applyShape (\<lambda>rows. BatchUpdate (targetTableName job) rows (keyColumn job)) toUpdate tu
                (updated res)
           \<and> processed res = inserted res + updated res"
proof -
  obtain ins st2 where a: "applyInserts job toInsert st1 = (ins, st2)"
    by (cases "applyInserts job toInsert st1")
  obtain upd st3 where b: "applyUpdates job toUpdate st2 = (upd, st3)"
    by (cases "applyUpdates job toUpdate st2")
  from assms a b have r: "res = \<lparr>processed = ins + upd, inserted = ins, updated = upd\<rparr>" "st' = st3"
    by (simp_all add: processBatch_def)
  from applyInserts_inv [OF a] obtain ti where
    ti: "calls st2 = calls st1 @ ti" "applyShape (BatchInsert (targetTableName job)) toInsert ti ins"
    by blast
  from applyUpdates_inv [OF b] obtain tu where
    tu: "calls st3 = calls st2 @ tu"
        "applyShape (\<lambda>rows. BatchUpdate (targetTableName job) rows (keyColumn job)) toUpdate tu upd"
    by blast
  from ti tu r show ?thesis
    by (intro exI [of _ ti] exI [of _ tu]) simp
qed

lemma processBatch_frame:
  assumes e: "\<And>t c k w. obs (snd (exists (targetAdapter job) t c k w)) = obs w"
      and i: "\<And>t rs w. obs (snd (batchInsert (targetAdapter job) t rs w)) = obs w"
      and u: "\<And>t rs c w. obs (snd (batchUpdate (targetAdapter job) t rs c w)) = obs w"
  shows "obs (world (snd (processBatch job batch st))) = obs (world st)"
proof (cases rule: processBatch_cases [of job batch st])
  case (threw st1)
  from partitionBatch_frame [of obs job, OF e threw(1)] threw(2) show ?thesis by simp
next
  case (returned toInsert toUpdate st1 ins st2 upd st3)
  from partitionBatch_frame [of obs job, OF e returned(1)]
  have 1: "obs (world st1) = obs (world st)" .
  from applyInserts_frame [of obs job toInsert st1, OF i] returned(2)
  have 2: "obs (world st2) = obs (world st1)" by simp
  from applyUpdates_frame [of obs job toUpdate st2, OF u] returned(3)
  have 3: "obs (world st3) = obs (world st2)" by simp
  from 1 2 3 returned(4) show ?thesis by simp
qed

lemma isInsertCall_iff: "isInsertCall x \<longleftrightarrow> (\<exists>t rows. fst x = BatchInsert t rows)"
  by (cases x, cases "fst x") auto

lemma isUpdateCall_iff: "isUpdateCall x \<longleftrightarrow> (\<exists>t rows c. fst x = BatchUpdate t rows c)"
  by (cases x, cases "fst x") auto

lemma isExistsCall_iff: "isExistsCall x \<longleftrightarrow> (\<exists>t c k. fst x = Exists t c k)"
  by (cases x, cases "fst x") auto

lemma isWatermarkWrite_iff: "isWatermarkWrite x \<longleftrightarrow> (\<exists>k t. fst x = UpdateSyncStatus k t)"
  by (cases x, cases "fst x") auto

lemma existsCalls_filters:
  assumes "map fst te = map (existsCall job) xs"
  shows "filter isInsertCall te = []" "filter isUpdateCall te = []" "filter isExistsCall te = te"
proof -
  have "\<forall>x \<in> set te. \<exists>k. fst x = Exists (targetTableName job) (keyColumn job) k"
  proof
    fix x assume "x \<in> set te"
    then have "fst x \<in> set (map (existsCall job) xs)" using assms by (metis image_eqI set_map)
    then show "\<exists>k. fst x = Exists (targetTableName job) (keyColumn job) k"
      by (auto simp: existsCall_def)
  qed
  then have a: "\<forall>x \<in> set te. \<not> isInsertCall x \<and> \<not> isUpdateCall x \<and> isExistsCall x"
    by (auto simp: isInsertCall_iff isUpdateCall_iff isExistsCall_iff)
  show "filter isInsertCall te = []" using a by (simp add: filter_empty_conv)
  show "filter isUpdateCall te = []" using a by (simp add: filter_empty_conv)
  show "filter isExistsCall te = te" using a by (simp add: filter_id_conv)
qed

lemma applyShape_cases:
  assumes "applyShape mk rows tr n"
  obtains
    (none) "rows = []" "tr = []" "n = 0"
  | (ok) "rows \<noteq> []" "tr = [(mk rows, RetUnit)]" "n = length rows"
  | (fallback) e rest where "rows \<noteq> []" "tr = (mk rows, Threw e) # rest"
      "map fst rest = map (\<lambda>r. mk [r]) rows" "n = length (filter succeeded rest)"
proof (cases tr)
  case Nil
  with assms none show ?thesis by (simp add: applyShape_def)
next
  case (Cons x rest)
  obtain c rp where x: "x = (c, rp)" by (cases x)
  from assms Cons x have c: "rows \<noteq> []" "c = mk rows" by (simp_all add: applyShape_def)
  show ?thesis
  proof (cases rp)
    case (Threw e)
    with assms Cons x c fallback show ?thesis by (simp add: applyShape_def)
  next
    case RetUnit
    with assms Cons x c ok show ?thesis by (simp add: applyShape_def)
  next
    case (RetBool b)
    with assms Cons x show ?thesis by (simp add: applyShape_def)
  next
    case (RetRows rs)
    with assms Cons x show ?thesis by (simp add: applyShape_def)
  next
    case (RetVal v)
    with assms Cons x show ?thesis by (simp add: applyShape_def)
  qed
qed

lemma map_fst_singletons:
  assumes "map fst rest = map (\<lambda>r. mk [r]) rows" "x \<in> set rest"
  shows "\<exists>r \<in> set rows. fst x = mk [r]"
proof -
  from assms(2) have "fst x \<in> set (map fst rest)" by simp
  with assms(1) show ?thesis by auto
qed

lemma applyShape_set:
  assumes "applyShape mk rows tr n"
  shows "\<forall>x \<in> set tr. \<exists>rs. fst x = mk rs \<and> set rs \<subseteq> set rows"
  using assms
proof (cases rule: applyShape_cases)
  case none
  then show ?thesis by simp
next
  case ok
  then show ?thesis by auto
next
  case (fallback e rest)
  have "\<forall>x \<in> set rest. \<exists>rs. fst x = mk rs \<and> set rs \<subseteq> set rows"
  proof
    fix x assume "x \<in> set rest"
    from map_fst_singletons [OF fallback(3) this] obtain r where "r \<in> set rows" "fst x = mk [r]"
      by blast
    then show "\<exists>rs. fst x = mk rs \<and> set rs \<subseteq> set rows"
      by (intro exI [of _ "[r]"]) simp
  qed
  with fallback(2) show ?thesis by auto
qed

lemma applyShape_le:
  assumes "applyShape mk rows tr n"
  shows "n \<le> length rows"
  using assms
proof (cases rule: applyShape_cases)
  case none
  then show ?thesis by simp
next
  case ok
  then show ?thesis by simp
next
  case (fallback e rest)
  from fallback(3) have "length rest = length rows" by (metis length_map)
  moreover have "length (filter succeeded rest) \<le> length rest" by (rule length_filter_le)
  ultimately show ?thesis using fallback(4) by simp
qed


lemma applyShape_threw:
  assumes "applyShape mk rows ((c, Threw e) # rest) n"
  shows "c = mk rows \<and> map fst rest = map (\<lambda>r. mk [r]) rows \<and> n = length (filter succeeded rest)"
  using assms by (simp add: applyShape_def)

lemma insertShape_filters:
  assumes "applyShape (BatchInsert t) rows tr n"
  shows "filter isInsertCall tr = tr" "filter isUpdateCall tr = []" "filter isExistsCall tr = []"
proof -
  from applyShape_set [OF assms]
  have a: "\<forall>x \<in> set tr. isInsertCall x \<and> \<not> isUpdateCall x \<and> \<not> isExistsCall x"
    by (fastforce simp: isInsertCall_iff isUpdateCall_iff isExistsCall_iff)
  show "filter isInsertCall tr = tr" using a by (simp add: filter_id_conv)
  show "filter isUpdateCall tr = []" using a by (simp add: filter_empty_conv)
  show "filter isExistsCall tr = []" using a by (simp add: filter_empty_conv)
qed

lemma updateShape_filters:
  assumes "applyShape (\<lambda>rows. BatchUpdate t rows c) rows tr n"
  shows "filter isUpdateCall tr = tr" "filter isInsertCall tr = []" "filter isExistsCall tr = []"
proof -
  from applyShape_set [OF assms]
  have a: "\<forall>x \<in> set tr. isUpdateCall x \<and> \<not> isInsertCall x \<and> \<not> isExistsCall x"
    by (fastforce simp: isInsertCall_iff isUpdateCall_iff isExistsCall_iff)
  show "filter isUpdateCall tr = tr" using a by (simp add: filter_id_conv)
  show "filter isInsertCall tr = []" using a by (simp add: filter_empty_conv)
  show "filter isExistsCall tr = []" using a by (simp add: filter_empty_conv)
qed

text \<open>
  The whole record of a processBatch that returns: the checks, then the inserts, then
  the updates.
\<close>

lemma processBatch_trace:
  assumes "partitionBatch job batch [] [] st = (Inr (toInsert, toUpdate), st1)"
      and "processBatch job batch st = (Inr res, st')"
  shows "\<exists>te ti tu.
           calls st1 = calls st @ te \<and> calls st' = calls st1 @ ti @ tu
         \<and> newCalls st st1 = te \<and> newCalls st1 st' = ti @ tu \<and> newCalls st st' = te @ ti @ tu
         \<and> map fst te = map (existsCall job) (filter (hasKey job) batch)
         \<and> applyShape (BatchInsert (targetTableName job)) toInsert ti (inserted res)
         \<and> applyShape (\<lambda>rows. BatchUpdate (targetTableName job) rows (keyColumn job)) toUpdate tu
              (updated res)
         \<and> filter isInsertCall (newCalls st st') = ti
         \<and> filter isUpdateCall (newCalls st st') = tu
         \<and> filter isExistsCall (newCalls st st') = te
         \<and> processed res = inserted res + updated res"
proof -
  from partitionBatch_inv [OF assms(1)] obtain te where
    te: "calls st1 = calls st @ te" "map fst te = map (existsCall job) (filter (hasKey job) batch)"
    by auto
  from processBatch_inv [OF assms] obtain ti tu where
    t: "calls st' = calls st1 @ ti @ tu"
       "applyShape (BatchInsert (targetTableName job)) toInsert ti (inserted res)"
       "applyShape (\<lambda>rows. BatchUpdate (targetTableName job) rows (keyColumn job)) toUpdate tu
              (updated res)"
       "processed res = inserted res + updated res"
    by blast
  have n: "newCalls st st1 = te" "newCalls st1 st' = ti @ tu" "newCalls st st' = te @ ti @ tu"
    using te(1) t(1) by (simp_all add: newCalls_def)
  note f = existsCalls_filters [OF te(2)] insertShape_filters [OF t(2)] updateShape_filters [OF t(3)]
  have "filter isInsertCall (newCalls st st') = ti"
       "filter isUpdateCall (newCalls st st') = tu"
       "filter isExistsCall (newCalls st st') = te"
    using f by (simp_all add: n)
  with te t n show ?thesis by blast
qed

section \<open>The loop of processBatches\<close>

lemma js_slice_chunk:
  assumes "0 \<le> i" "i < int (length xs)" "0 < b"
  shows "js_slice xs i (i + b) = take (nat b) (drop (nat i) xs)"
proof -
  let ?n = "int (length xs)"
  have "js_slice xs i (i + b) = take (nat (min (i + b) ?n - i)) (drop (nat i) xs)"
    using assms by (simp add: js_slice_def Let_def min_def)
  also have "\<dots> = take (nat b) (drop (nat i) xs)"
  proof (cases "i + b \<le> ?n")
    case True
    then show ?thesis by (simp add: min_def)
  next
    case False
    then have "nat (min (i + b) ?n - i) = length (drop (nat i) xs)"
      using assms by (auto simp: min_def)
    moreover have "length (drop (nat i) xs) \<le> nat b"
      using False assms by auto
    ultimately show ?thesis by simp
  qed
  finally show ?thesis .
qed

lemma processBatchesLoop_chunks:
  assumes "0 < batchSize job" "0 \<le> i"
  shows "processBatchesLoop job records i results st =
           Some (processChunks job (chunks (nat (batchSize job)) (drop (nat i) records)) results st)"
  using assms(2)
proof (induction "length records - nat i" arbitrary: i results st rule: less_induct)
  case less
  show ?case
  proof (cases "i < int (length records)")
    case False
    then have "drop (nat i) records = []" using less.prems by simp
    then show ?thesis
      using False by (subst processBatchesLoop.simps) (simp add: chunks.simps)
  next
    case True
    let ?b = "batchSize job"
    have sl: "js_slice records i (i + ?b) = take (nat ?b) (drop (nat i) records)"
      using js_slice_chunk [OF less.prems True assms(1)] .
    have ne: "drop (nat i) records \<noteq> []" using True less.prems by simp
    have "nat (i + ?b) = nat ?b + nat i"
      using assms(1) less.prems by linarith
    then have dr: "drop (nat ?b) (drop (nat i) records) = drop (nat (i + ?b)) records"
      by simp
    have ch: "chunks (nat ?b) (drop (nat i) records) =
                take (nat ?b) (drop (nat i) records) # chunks (nat ?b) (drop (nat (i + ?b)) records)"
      using ne assms(1) by (subst chunks.simps) (simp only: dr, simp)
    have m: "length records - nat (i + ?b) < length records - nat i"
      using True assms(1) less.prems by linarith
    have nn: "0 \<le> i + ?b" using assms(1) less.prems by simp
    obtain out st1 where pb: "processBatch job (take (nat ?b) (drop (nat i) records)) st = (out, st1)"
      by (cases "processBatch job (take (nat ?b) (drop (nat i) records)) st")
    show ?thesis
    proof (cases out)
      case (Inl e)
      have "processBatchesLoop job records i results st = Some (Inl e, st1)"
        by (subst processBatchesLoop.simps) (simp add: True sl pb Inl)
      moreover have "processChunks job (chunks (nat ?b) (drop (nat i) records)) results st
                       = (Inl e, st1)"
        by (simp add: ch pb Inl)
      ultimately show ?thesis by simp
    next
      case (Inr br)
      let ?r1 = "\<lparr>totalProcessed = totalProcessed results + processed br,
                  totalInserted = totalInserted results + inserted br,
                  totalUpdated = totalUpdated results + updated br\<rparr>"
      have "processBatchesLoop job records i results st
              = processBatchesLoop job records (i + ?b) ?r1 st1"
        by (subst processBatchesLoop.simps) (simp add: True sl pb Inr)
      also have "\<dots> = Some (processChunks job (chunks (nat ?b) (drop (nat (i + ?b)) records)) ?r1 st1)"
        by (rule less.hyps [OF m nn])
      also have "\<dots> = Some (processChunks job (chunks (nat ?b) (drop (nat i) records)) results st)"
        by (simp add: ch pb Inr)
      finally show ?thesis .
    qed
  qed
qed

lemma processBatches_chunks:
  assumes "0 < batchSize job"
  shows "processBatches job records st =
           Some (processChunks job (chunks (nat (batchSize job)) records)
                   \<lparr>totalProcessed = 0, totalInserted = 0, totalUpdated = 0\<rparr> st)"
  using processBatchesLoop_chunks [OF assms, of 0 records] by (simp add: processBatches_def)

lemma chunks_Nil: "chunks n [] = []"
  by (subst chunks.simps) simp

lemma chunks_Cons: "0 < n \<Longrightarrow> chunks n (x # xs) = take n (x # xs) # chunks n (drop n (x # xs))"
  by (subst chunks.simps) simp

lemma concat_chunks: "0 < n \<Longrightarrow> concat (chunks n xs) = xs"
proof (induction n xs rule: chunks.induct)
  case (1 n xs)
  show ?case
  proof (cases "xs = []")
    case True
    then show ?thesis by (subst chunks.simps) simp
  next
    case False
    with 1 have "concat (chunks n (drop n xs)) = drop n xs" by simp
    with False "1.prems" show ?thesis by (subst chunks.simps) simp
  qed
qed



section \<open>Evaluating runs of the in-memory adapter\<close>

lemmas mem_simps = memJob_def memRow_def memBigRow_def memStart_def memAdapter_def getProp_def
  objectPrototypeMembers_def JSON_stringify_def bigIntTypeError_def invoke_def
  processBatch_def applyInserts_def applyUpdates_def keyOf_def existsCall_def newCalls_def Let_def

lemmas mem_exec_simps = execute_def execute_try_def execute_catch_def toISOString_def
  syncStatusKey_def failedResult_def noNewRecordsResult_def

section \<open>Claims about processBatch\<close>

lemma partitionBatch_skip:
  assumes "\<not> truthy (getProp r (keyColumn job))" "serializable r"
  shows "partitionBatch job (xs @ r # ys) toInsert toUpdate st =
         partitionBatch job (xs @ ys) toInsert toUpdate st"
  using assms
  by (simp add: partitionBatch_append serializable_def split: prod.splits sum.splits)

lemma partitionBatch_alike:
  assumes "\<not> truthy (getProp r (keyColumn job))" "\<not> truthy (getProp r' (keyColumn job))"
      and "JSON_stringify r' = JSON_stringify r"
  shows "partitionBatch job (xs @ r # ys) toInsert toUpdate st =
         partitionBatch job (xs @ r' # ys) toInsert toUpdate st"
  using assms
  by (simp add: partitionBatch_append split: prod.splits sum.splits)

text \<open>
  Claim C9. The eligibility test on the key is JavaScript truthiness: a row \<open>r\<close> whose
  key value is \<open>0\<close>, the empty string or \<open>false\<close> takes the branch that a row whose key
  is \<open>null\<close> or missing takes. Processing a batch that holds \<open>r\<close> gives the same outcome,
  the same calls and the same world as processing the batch with, in its place, a row
  \<open>r'\<close> whose key is \<open>null\<close> or missing and which is otherwise as \<open>r\<close> for the skip log
  (the row \<open>r\<close> with its key set to \<open>null\<close>, for one). When the log line of the skip can be
  written, the batch is processed as if the row were not there, and the row alone is
  counted as neither inserted nor updated and causes no call; when it cannot, because the
  row holds a \<open>BigInt\<close>, the skip throws, for \<open>r\<close> as for \<open>r'\<close>.
\<close>

theorem falsy_key_is_skipped:
  assumes "getProp r (keyColumn job) \<in> {JNum 0, JStr [], JBool False}"
      and "getProp r' (keyColumn job) \<in> {JNull, JUndefined}"
      and "JSON_stringify r' = JSON_stringify r"
  shows "processBatch job (before @ r # after) st = processBatch job (before @ r' # after) st
       \<and> processBatch job [r] st = processBatch job [r'] st
       \<and> (serializable r \<longrightarrow>
            processBatch job (before @ r # after) st = processBatch job (before @ after) st
          \<and> processBatch job [r] st = (Inr \<lparr>processed = 0, inserted = 0, updated = 0\<rparr>, st))
       \<and> (\<not> serializable r \<longrightarrow> processBatch job [r] st = (Inl bigIntTypeError, st))"
proof -
  from assms(1) have f: "\<not> truthy (getProp r (keyColumn job))" by auto
  from assms(2) have f': "\<not> truthy (getProp r' (keyColumn job))" by auto
  have a: "processBatch job (before @ r # after) st = processBatch job (before @ r' # after) st"
    unfolding processBatch_def by (simp only: partitionBatch_alike [OF f f' assms(3)])
  have a1: "processBatch job [r] st = processBatch job [r'] st"
    using partitionBatch_alike [OF f f' assms(3), of "[]" "[]" "[]" "[]" st]
    unfolding processBatch_def by (simp only: append_Nil)
  have b: "processBatch job (before @ r # after) st = processBatch job (before @ after) st
          \<and> processBatch job [r] st = (Inr \<lparr>processed = 0, inserted = 0, updated = 0\<rparr>, st)"
    if s: "serializable r"
  proof -
    have 1: "processBatch job (before @ r # after) st = processBatch job (before @ after) st"
      unfolding processBatch_def by (simp only: partitionBatch_skip [OF f s])
    have "partitionBatch job [r] [] [] st = (Inr ([], []), st)"
      using f s by (simp add: serializable_def)
    then have 2: "processBatch job [r] st = (Inr \<lparr>processed = 0, inserted = 0, updated = 0\<rparr>, st)"
      by (simp add: processBatch_def applyInserts_def applyUpdates_def)
    from 1 2 show ?thesis by simp
  qed
  have c: "processBatch job [r] st = (Inl bigIntTypeError, st)" if s: "\<not> serializable r"
  proof -
    from s have "JSON_stringify r = Inl bigIntTypeError"
      by (cases r rule: JSON_stringify_cases) simp_all
    with f have "partitionBatch job [r] [] [] st = (Inl bigIntTypeError, st)" by simp
    then show ?thesis by (simp add: processBatch_def)
  qed
  from a a1 b c show ?thesis by blast
qed

theorem falsy_key_is_skipped_witness:
  "getProp (memRow (JNum 0) (JStr ''zero'') 7) (keyColumn (memJob ''orders'' ''orders_copy'' 10))
     = JNum 0
   \<and> getProp (memRow JNull (JStr ''zero'') 7) (keyColumn (memJob ''orders'' ''orders_copy'' 10))
     = JNull
   \<and> processBatch (memJob ''orders'' ''orders_copy'' 10)
        ([memRow (JNum 1) (JStr ''one'') 5] @ memRow (JNum 0) (JStr ''zero'') 7 # [])
        (memStart [] [])
     = processBatch (memJob ''orders'' ''orders_copy'' 10)
        ([memRow (JNum 1) (JStr ''one'') 5] @ memRow JNull (JStr ''zero'') 7 # [])
        (memStart [] [])
   \<and> processBatch (memJob ''orders'' ''orders_copy'' 10)
        ([memRow (JNum 1) (JStr ''one'') 5] @ memRow (JNum 0) (JStr ''zero'') 7 # [])
        (memStart [] [])
     = processBatch (memJob ''orders'' ''orders_copy'' 10)
        ([memRow (JNum 1) (JStr ''one'') 5] @ []) (memStart [] [])
   \<and> processBatch (memJob ''orders'' ''orders_copy'' 10) [memRow (JNum 0) (JStr ''zero'') 7]
        (memStart [] [])
     = (Inr \<lparr>processed = 0, inserted = 0, updated = 0\<rparr>, memStart [] [])
   \<and> fst (processBatch (memJob ''orders'' ''orders_copy'' 10)
        [memRow (JNum 1) (JStr ''one'') 5, memRow (JNum 0) (JStr ''zero'') 7,
         memRow (JStr '''') (JStr ''empty'') 8, memRow (JBool False) (JStr ''false'') 9]
        (memStart [] []))
     = Inr \<lparr>processed = 1, inserted = 1, updated = 0\<rparr>
   \<and> processBatch (memJob ''orders'' ''orders_copy'' 10) [memBigRow (JNum 0) 3 7] (memStart [] [])
     = (Inl bigIntTypeError, memStart [] [])
   \<and> processBatch (memJob ''orders'' ''orders_copy'' 10) [memBigRow JNull 3 7] (memStart [] [])
     = (Inl bigIntTypeError, memStart [] [])"
proof -
  let ?J = "memJob ''orders'' ''orders_copy'' 10"
  let ?r = "memRow (JNum 0) (JStr ''zero'') 7"
  let ?r' = "memRow JNull (JStr ''zero'') 7"
  have k: "getProp ?r (keyColumn ?J) = JNum 0" "getProp ?r' (keyColumn ?J) = JNull"
    by (simp_all add: mem_simps)
  have h: "getProp ?r (keyColumn ?J) \<in> {JNum 0, JStr [], JBool False}"
    "getProp ?r' (keyColumn ?J) \<in> {JNull, JUndefined}"
    by (simp_all add: k)
  have j: "JSON_stringify ?r' = JSON_stringify ?r"
    by (simp add: mem_simps)
  have s: "serializable ?r"
    by (simp add: serializable_def mem_simps)
  have e: "fst (processBatch ?J
        [memRow (JNum 1) (JStr ''one'') 5, memRow (JNum 0) (JStr ''zero'') 7,
         memRow (JStr '''') (JStr ''empty'') 8, memRow (JBool False) (JStr ''false'') 9]
        (memStart [] []))
     = Inr \<lparr>processed = 1, inserted = 1, updated = 0\<rparr>"
    by (simp add: mem_simps)
  have b1: "processBatch ?J [memBigRow (JNum 0) 3 7] (memStart [] [])
              = (Inl bigIntTypeError, memStart [] [])"
    by (simp add: mem_simps)
  have b2: "processBatch ?J [memBigRow JNull 3 7] (memStart [] [])
              = (Inl bigIntTypeError, memStart [] [])"
    by (simp add: mem_simps)
  note t = falsy_key_is_skipped [OF h j, of "[memRow (JNum 1) (JStr ''one'') 5]" "[]" "memStart [] []"]
  from t have t1: "processBatch ?J ([memRow (JNum 1) (JStr ''one'') 5] @ ?r # []) (memStart [] [])
                 = processBatch ?J ([memRow (JNum 1) (JStr ''one'') 5] @ ?r' # []) (memStart [] [])"
    by (rule conjunct1)
  from t s have t2: "processBatch ?J ([memRow (JNum 1) (JStr ''one'') 5] @ ?r # []) (memStart [] [])
                 = processBatch ?J ([memRow (JNum 1) (JStr ''one'') 5] @ []) (memStart [] [])"
    and t3: "processBatch ?J [?r] (memStart [] [])
                 = (Inr \<lparr>processed = 0, inserted = 0, updated = 0\<rparr>, memStart [] [])"
    by blast+
  show ?thesis
    by (rule conjI [OF k(1) conjI [OF k(2) conjI [OF t1 conjI [OF t2 conjI [OF t3
          conjI [OF e conjI [OF b1 b2]]]]]]])
qed

text \<open>
  Claim C4. When the batch call of a chunk throws, the rows of that partition are then
  applied one by one, in order, each by its own call; a row whose call throws does not
  stop the rows after it, and the count the chunk reports is the number of the
  individual calls that returned: the size of the partition less the rows that failed.
  This holds for the inserts and for the updates, and \<open>processed\<close> is their sum.
\<close>

theorem batch_failure_falls_back_to_rows:
  assumes "processBatch job batch st = (Inr res, st')"
      and "partitionBatch job batch [] [] st = (Inr (toInsert, toUpdate), st1)"
  shows "(\<forall>e rest.
            filter isInsertCall (newCalls st st')
              = (BatchInsert (targetTableName job) toInsert, Threw e) # rest \<longrightarrow>
            map fst rest = map (\<lambda>r. BatchInsert (targetTableName job) [r]) toInsert
            \<and> inserted res = length (filter succeeded rest)
            \<and> inserted res + length (filter (\<lambda>x. \<not> succeeded x) rest) = length toInsert)
       \<and> (\<forall>e rest.
            filter isUpdateCall (newCalls st st')
              = (BatchUpdate (targetTableName job) toUpdate (keyColumn job), Threw e) # rest \<longrightarrow>
            map fst rest = map (\<lambda>r. BatchUpdate (targetTableName job) [r] (keyColumn job)) toUpdate
            \<and> updated res = length (filter succeeded rest)
            \<and> updated res + length (filter (\<lambda>x. \<not> succeeded x) rest) = length toUpdate)
       \<and> processed res = inserted res + updated res"
proof -
  from processBatch_trace [OF assms(2,1)] obtain ti tu where
    ti: "applyShape (BatchInsert (targetTableName job)) toInsert ti (inserted res)"
        "filter isInsertCall (newCalls st st') = ti"
    and tu: "applyShape (\<lambda>rows. BatchUpdate (targetTableName job) rows (keyColumn job)) toUpdate tu
              (updated res)"
        "filter isUpdateCall (newCalls st st') = tu"
    and p: "processed res = inserted res + updated res"
    by blast
  have count: "length (filter succeeded xs) + length (filter (\<lambda>x. \<not> succeeded x) xs) = length xs"
    for xs :: "(call \<times> reply) list"
    by (rule sum_length_filter_compl)
  have a: "map fst rest = map (\<lambda>r. BatchInsert (targetTableName job) [r]) toInsert
            \<and> inserted res = length (filter succeeded rest)
            \<and> inserted res + length (filter (\<lambda>x. \<not> succeeded x) rest) = length toInsert"
    if "filter isInsertCall (newCalls st st')
              = (BatchInsert (targetTableName job) toInsert, Threw e) # rest" for e rest
  proof -
    from that ti have
      "applyShape (BatchInsert (targetTableName job)) toInsert
         ((BatchInsert (targetTableName job) toInsert, Threw e) # rest) (inserted res)"
      by simp
    from applyShape_threw [OF this] have
      m: "map fst rest = map (\<lambda>r. BatchInsert (targetTableName job) [r]) toInsert"
      and n: "inserted res = length (filter succeeded rest)" by simp_all
    from m have "length rest = length toInsert" by (metis length_map)
    with count [of rest] m n show ?thesis by simp
  qed
  have b: "map fst rest = map (\<lambda>r. BatchUpdate (targetTableName job) [r] (keyColumn job)) toUpdate
            \<and> updated res = length (filter succeeded rest)
            \<and> updated res + length (filter (\<lambda>x. \<not> succeeded x) rest) = length toUpdate"
    if "filter isUpdateCall (newCalls st st')
              = (BatchUpdate (targetTableName job) toUpdate (keyColumn job), Threw e) # rest" for e rest
  proof -
    from that tu have
      "applyShape (\<lambda>rows. BatchUpdate (targetTableName job) rows (keyColumn job)) toUpdate
         ((BatchUpdate (targetTableName job) toUpdate (keyColumn job), Threw e) # rest) (updated res)"
      by simp
    from applyShape_threw [OF this] have
      m: "map fst rest = map (\<lambda>r. BatchUpdate (targetTableName job) [r] (keyColumn job)) toUpdate"
      and n: "updated res = length (filter succeeded rest)" by simp_all
    from m have "length rest = length toUpdate" by (metis length_map)
    with count [of rest] m n show ?thesis by simp
  qed
  from a b p show ?thesis by blast
qed

theorem batch_failure_falls_back_to_rows_witness:
  "fst (processBatch (memJob ''orders'' ''orders_copy'' 10)
          [memRow (JNum 1) (JStr ''one'') 5, memRow (JNum 2) JNull 6, memRow (JNum 3) (JStr ''three'') 7]
          (memStart [] []))
     = Inr \<lparr>processed = 2, inserted = 2, updated = 0\<rparr>
   \<and> filter isInsertCall (newCalls (memStart [] [])
        (snd (processBatch (memJob ''orders'' ''orders_copy'' 10)
          [memRow (JNum 1) (JStr ''one'') 5, memRow (JNum 2) JNull 6, memRow (JNum 3) (JStr ''three'') 7]
          (memStart [] []))))
     = [(BatchInsert ''orders_copy''
           [memRow (JNum 1) (JStr ''one'') 5, memRow (JNum 2) JNull 6, memRow (JNum 3) (JStr ''three'') 7],
         Threw (JsError ''constraint violation'')),
        (BatchInsert ''orders_copy'' [memRow (JNum 1) (JStr ''one'') 5], RetUnit),
        (BatchInsert ''orders_copy'' [memRow (JNum 2) JNull 6], Threw (JsError ''constraint violation'')),
        (BatchInsert ''orders_copy'' [memRow (JNum 3) (JStr ''three'') 7], RetUnit)]
   \<and> length (filter succeeded
        [(BatchInsert ''orders_copy'' [memRow (JNum 1) (JStr ''one'') 5], RetUnit),
         (BatchInsert ''orders_copy'' [memRow (JNum 2) JNull 6], Threw (JsError ''constraint violation'')),
         (BatchInsert ''orders_copy'' [memRow (JNum 3) (JStr ''three'') 7], RetUnit)]) = 2"
proof -
  let ?J = "memJob ''orders'' ''orders_copy'' 10"
  let ?B = "[memRow (JNum 1) (JStr ''one'') 5, memRow (JNum 2) JNull 6, memRow (JNum 3) (JStr ''three'') 7]"
  let ?S = "memStart [] []"
  let ?res = "\<lparr>processed = 2, inserted = 2, updated = 0\<rparr>"
  let ?rest = "[(BatchInsert ''orders_copy'' [memRow (JNum 1) (JStr ''one'') 5], RetUnit),
         (BatchInsert ''orders_copy'' [memRow (JNum 2) JNull 6], Threw (JsError ''constraint violation'')),
         (BatchInsert ''orders_copy'' [memRow (JNum 3) (JStr ''three'') 7], RetUnit)]"
  have v: "fst (processBatch ?J ?B ?S) = Inr ?res"
    by (simp add: mem_simps)
  then have pb: "processBatch ?J ?B ?S = (Inr ?res, snd (processBatch ?J ?B ?S))"
    by (metis prod.collapse)
  have pt: "partitionBatch ?J ?B [] [] ?S = (Inr (?B, []), snd (partitionBatch ?J ?B [] [] ?S))"
    by (simp add: mem_simps)
  have f: "filter isInsertCall (newCalls ?S (snd (processBatch ?J ?B ?S)))
             = (BatchInsert (targetTableName ?J) ?B, Threw (JsError ''constraint violation'')) # ?rest"
    by (simp add: mem_simps)
  from batch_failure_falls_back_to_rows [OF pb pt] f
  have "inserted ?res = length (filter succeeded ?rest)"
    by blast
  then have n: "length (filter succeeded ?rest) = 2" by simp
  from f have f': "filter isInsertCall (newCalls ?S (snd (processBatch ?J ?B ?S)))
             = (BatchInsert ''orders_copy'' ?B, Threw (JsError ''constraint violation'')) # ?rest"
    by (simp add: memJob_def)
  show ?thesis by (rule conjI [OF v conjI [OF f' n]])
qed




section \<open>What one processBatch calls and counts\<close>

lemma reconcileCall_mono:
  "reconcileCall job rows x \<Longrightarrow> set rows \<subseteq> set rows' \<Longrightarrow> reconcileCall job rows' x"
  by (auto simp: reconcileCall_def)

lemma reconcileCall_kinds:
  "reconcileCall job rows x \<Longrightarrow> \<not> isWatermarkWrite x \<and> \<not> isExtractionCall x"
  by (cases x, cases "fst x") (auto simp: reconcileCall_def)

lemma processBatch_returned_keys:
  assumes "processBatch job batch st = (Inr res, st')"
  shows "\<exists>tr. calls st' = calls st @ tr
           \<and> (\<forall>x \<in> set tr. reconcileCall job batch x)
           \<and> processed res = inserted res + updated res
           \<and> processed res \<le> length (filter (hasKey job) batch)"
proof -
  obtain toInsert toUpdate st1 where pt:
    "partitionBatch job batch [] [] st = (Inr (toInsert, toUpdate), st1)"
    using assms by (cases rule: processBatch_cases [of job batch st]) auto
  from partitionBatch_inv [OF pt] have
    sub: "mset toInsert + mset toUpdate \<subseteq># mset (filter (hasKey job) batch)" by auto
  from processBatch_trace [OF pt assms] obtain te ti tu where
    c: "calls st1 = calls st @ te" "calls st' = calls st1 @ ti @ tu"
    and te: "map fst te = map (existsCall job) (filter (hasKey job) batch)"
    and si: "applyShape (BatchInsert (targetTableName job)) toInsert ti (inserted res)"
    and su: "applyShape (\<lambda>rows. BatchUpdate (targetTableName job) rows (keyColumn job)) toUpdate tu
              (updated res)"
    and p: "processed res = inserted res + updated res"
    by blast
  from sub have "set_mset (mset toInsert + mset toUpdate) \<subseteq> set_mset (mset (filter (hasKey job) batch))"
    by (rule set_mset_mono)
  then have ss: "set toInsert \<subseteq> {r \<in> set batch. hasKey job r}"
    "set toUpdate \<subseteq> {r \<in> set batch. hasKey job r}" by auto
  have a: "reconcileCall job batch x" if "x \<in> set te" for x
  proof -
    from that have "fst x \<in> set (map fst te)" by simp
    with te obtain R where "R \<in> set batch" "hasKey job R" "fst x = existsCall job R" by auto
    then show ?thesis
      by (simp add: reconcileCall_def isExistsCall_iff existsCall_def hasKey_def)
  qed
  have b: "reconcileCall job batch x" if "x \<in> set ti" for x
  proof -
    from applyShape_set [OF si] that obtain rs where
      "fst x = BatchInsert (targetTableName job) rs" "set rs \<subseteq> set toInsert" by blast
    with ss show ?thesis by (auto simp: reconcileCall_def isInsertCall_iff)
  qed
  have d: "reconcileCall job batch x" if "x \<in> set tu" for x
  proof -
    from applyShape_set [OF su] that obtain rs where
      "fst x = BatchUpdate (targetTableName job) rs (keyColumn job)" "set rs \<subseteq> set toUpdate" by blast
    with ss show ?thesis by (auto simp: reconcileCall_def isUpdateCall_iff)
  qed
  from sub have "size (mset toInsert + mset toUpdate) \<le> size (mset (filter (hasKey job) batch))"
    by (rule size_mset_mono)
  moreover have "size (mset (filter (hasKey job) batch)) = length (filter (hasKey job) batch)"
    by (rule size_mset)
  ultimately have "length toInsert + length toUpdate \<le> length (filter (hasKey job) batch)"
    by (simp del: mset_filter)
  with applyShape_le [OF si] applyShape_le [OF su] p
  have le: "processed res \<le> length (filter (hasKey job) batch)" by simp
  have "calls st' = calls st @ (te @ ti @ tu)" using c by simp
  moreover have "\<forall>x \<in> set (te @ ti @ tu). reconcileCall job batch x" using a b d by auto
  ultimately show ?thesis using p le by blast
qed

text \<open>
  Whatever its outcome, a \<open>processBatch\<close> only makes calls of the reconciliation. When
  it throws, the error is the \<open>TypeError\<close> of a row without a key that holds a
  \<open>BigInt\<close>, and the calls made are existence checks.
\<close>

lemma processBatch_keys:
  assumes "processBatch job batch st = (out, st')"
  shows "\<exists>tr. calls st' = calls st @ tr
           \<and> (\<forall>x \<in> set tr. reconcileCall job batch x)
           \<and> (\<forall>res. out = Inr res \<longrightarrow>
                 processed res = inserted res + updated res
                 \<and> processed res \<le> length (filter (hasKey job) batch))
           \<and> (\<forall>e. out = Inl e \<longrightarrow>
                 e = bigIntTypeError \<and> (\<forall>x \<in> set tr. isExistsCall x)
                 \<and> (\<exists>R \<in> set batch. \<not> hasKey job R \<and> \<not> serializable R))"
proof (cases out)
  case (Inr res)
  with processBatch_returned_keys [of job batch st res st'] assms show ?thesis by auto
next
  case (Inl e)
  from assms Inl obtain st1 where
    pt: "partitionBatch job batch [] [] st = (Inl bigIntTypeError, st1)"
    and pb: "processBatch job batch st = (Inl bigIntTypeError, st1)"
    by (cases rule: processBatch_cases [of job batch st]) auto
  from pb assms Inl have e: "e = bigIntTypeError" "st' = st1" by simp_all
  from partitionBatch_calls [OF pt] obtain tr where
    tr: "calls st1 = calls st @ tr"
        "\<forall>x \<in> set tr. \<exists>R \<in> set batch. hasKey job R \<and> fst x = existsCall job R"
        "\<exists>R \<in> set batch. \<not> hasKey job R \<and> \<not> serializable R"
    by blast
  have k: "reconcileCall job batch x \<and> isExistsCall x" if "x \<in> set tr" for x
  proof -
    from tr(2) that obtain R where "R \<in> set batch" "hasKey job R" "fst x = existsCall job R"
      by blast
    then show ?thesis
      by (simp add: reconcileCall_def isExistsCall_iff existsCall_def hasKey_def)
  qed
  show ?thesis
    by (rule exI [of _ tr]) (use tr(1,3) k e Inl in auto)
qed

lemma processChunks_keys:
  assumes "processChunks job cs results st = (out, st')"
  shows "\<exists>tr. calls st' = calls st @ tr
           \<and> (\<forall>x \<in> set tr. reconcileCall job (concat cs) x)
           \<and> (\<forall>res. out = Inr res \<longrightarrow>
                 (\<exists>k ki ku. totalProcessed res = totalProcessed results + k
                    \<and> totalInserted res = totalInserted results + ki
                    \<and> totalUpdated res = totalUpdated results + ku
                    \<and> k = ki + ku
                    \<and> k \<le> length (filter (hasKey job) (concat cs))))
           \<and> (\<forall>e. out = Inl e \<longrightarrow>
                 e = bigIntTypeError
                 \<and> (\<exists>R \<in> set (concat cs). \<not> hasKey job R \<and> \<not> serializable R))"
  using assms
proof (induction cs arbitrary: results st)
  case Nil
  then show ?case by auto
next
  case (Cons batch rest)
  obtain o1 st1 where pb: "processBatch job batch st = (o1, st1)"
    by (cases "processBatch job batch st")
  from processBatch_keys [OF pb] obtain t1 where b:
    "calls st1 = calls st @ t1" "\<forall>x \<in> set t1. reconcileCall job batch x"
    "\<forall>res. o1 = Inr res \<longrightarrow>
        processed res = inserted res + updated res
        \<and> processed res \<le> length (filter (hasKey job) batch)"
    "\<forall>e. o1 = Inl e \<longrightarrow>
        e = bigIntTypeError \<and> (\<exists>R \<in> set batch. \<not> hasKey job R \<and> \<not> serializable R)"
    by blast
  have m1: "\<forall>x \<in> set t1. reconcileCall job (concat (batch # rest)) x"
    using b(2) by (auto intro: reconcileCall_mono)
  show ?case
  proof (cases o1)
    case (Inl e)
    with Cons.prems pb have o: "out = Inl e" "st' = st1" by simp_all
    show ?thesis
      by (rule exI [of _ t1]) (use b(1,4) m1 o Inl in auto)
  next
    case (Inr br)
    let ?r1 = "\<lparr>totalProcessed = totalProcessed results + processed br,
               totalInserted = totalInserted results + inserted br,
               totalUpdated = totalUpdated results + updated br\<rparr>"
    from Cons.prems pb Inr have "processChunks job rest ?r1 st1 = (out, st')" by simp
    from Cons.IH [OF this] obtain tr where ih:
      "calls st' = calls st1 @ tr" "\<forall>x \<in> set tr. reconcileCall job (concat rest) x"
      "\<forall>res. out = Inr res \<longrightarrow>
          (\<exists>k ki ku. totalProcessed res = totalProcessed ?r1 + k
             \<and> totalInserted res = totalInserted ?r1 + ki
             \<and> totalUpdated res = totalUpdated ?r1 + ku
             \<and> k = ki + ku
             \<and> k \<le> length (filter (hasKey job) (concat rest)))"
      "\<forall>e. out = Inl e \<longrightarrow>
          e = bigIntTypeError \<and> (\<exists>R \<in> set (concat rest). \<not> hasKey job R \<and> \<not> serializable R)"
      by blast
    from b(3) Inr have br: "processed br = inserted br + updated br"
      "processed br \<le> length (filter (hasKey job) batch)" by simp_all
    have m: "\<forall>x \<in> set (t1 @ tr). reconcileCall job (concat (batch # rest)) x"
      using m1 ih(2) by (auto intro: reconcileCall_mono)
    have c: "calls st' = calls st @ (t1 @ tr)" using b(1) ih(1) by simp
    have cnt: "\<exists>k ki ku. totalProcessed res = totalProcessed results + k
                    \<and> totalInserted res = totalInserted results + ki
                    \<and> totalUpdated res = totalUpdated results + ku
                    \<and> k = ki + ku
                    \<and> k \<le> length (filter (hasKey job) (concat (batch # rest)))"
      if "out = Inr res" for res
    proof -
      from ih(3) that obtain k ki ku where
        "totalProcessed res = totalProcessed ?r1 + k" "totalInserted res = totalInserted ?r1 + ki"
        "totalUpdated res = totalUpdated ?r1 + ku" "k = ki + ku"
        "k \<le> length (filter (hasKey job) (concat rest))" by blast
      with br show ?thesis
        by (intro exI [of _ "processed br + k"] exI [of _ "inserted br + ki"]
              exI [of _ "updated br + ku"]) simp
    qed
    have er: "e = bigIntTypeError
                 \<and> (\<exists>R \<in> set (concat (batch # rest)). \<not> hasKey job R \<and> \<not> serializable R)"
      if "out = Inl e" for e
      using ih(4) that by auto
    show ?thesis
      by (rule exI [of _ "t1 @ tr"]) (use c m cnt er in blast)
  qed
qed

lemma processChunks_frame:
  assumes e: "\<And>t c k w. obs (snd (exists (targetAdapter job) t c k w)) = obs w"
      and i: "\<And>t rs w. obs (snd (batchInsert (targetAdapter job) t rs w)) = obs w"
      and u: "\<And>t rs c w. obs (snd (batchUpdate (targetAdapter job) t rs c w)) = obs w"
  shows "obs (world (snd (processChunks job cs results st))) = obs (world st)"
proof (induction cs arbitrary: results st)
  case Nil
  then show ?case by simp
next
  case (Cons batch rest)
  obtain o1 st1 where pb: "processBatch job batch st = (o1, st1)"
    by (cases "processBatch job batch st")
  from processBatch_frame [of obs job batch st, OF e i u] pb
  have w: "obs (world st1) = obs (world st)" by simp
  show ?case using pb w Cons.IH by (cases o1) simp_all
qed

section \<open>Rows without a key\<close>

text \<open>
  Where every row without a key can be logged, the skip is as the specification has
  it. With a positive batch size \<open>processBatches\<close> returns its counts; every call it
  makes is an existence check on a truthy key or an insert or update of rows that have
  a key, so a row whose key value is missing (\<open>undefined\<close>) or \<open>null\<close> is never
  checked, inserted or updated; \<open>processed = inserted + updated\<close>, and \<open>processed\<close>
  is at most the number of rows that have a key.
\<close>

lemma rows_without_key_are_skipped:
  assumes "0 < batchSize job"
      and "\<forall>r \<in> set records. hasKey job r \<or> serializable r"
  shows "\<exists>res st'. processBatches job records st = Some (Inr res, st')
       \<and> totalProcessed res = totalInserted res + totalUpdated res
       \<and> totalProcessed res \<le> length (filter (hasKey job) records)
       \<and> totalProcessed res \<le> length records
       \<and> (\<forall>x \<in> set (newCalls st st').
             (isExistsCall x \<or> isInsertCall x \<or> isUpdateCall x)
             \<and> (\<forall>k. checkedKey (fst x) = Some k \<longrightarrow> truthy k)
             \<and> (\<forall>r \<in> set (rowsOf (fst x)). hasKey job r \<and> r \<in> set records))
       \<and> (\<forall>r \<in> set records. keyOf job r \<in> {JNull, JUndefined} \<longrightarrow>
             (\<forall>x \<in> set (newCalls st st').
                checkedKey (fst x) \<noteq> Some (keyOf job r) \<and> r \<notin> set (rowsOf (fst x))))"
proof -
  let ?cs = "chunks (nat (batchSize job)) records"
  let ?z = "\<lparr>totalProcessed = 0, totalInserted = 0, totalUpdated = 0\<rparr>"
  obtain out st' where pc: "processChunks job ?cs ?z st = (out, st')"
    by (cases "processChunks job ?cs ?z st")
  have cc: "concat ?cs = records" using assms(1) by (simp add: concat_chunks)
  from processChunks_keys [OF pc] obtain tr where h:
    "calls st' = calls st @ tr" "\<forall>x \<in> set tr. reconcileCall job records x"
    "\<forall>res. out = Inr res \<longrightarrow>
        (\<exists>k ki ku. totalProcessed res = totalProcessed ?z + k
           \<and> totalInserted res = totalInserted ?z + ki
           \<and> totalUpdated res = totalUpdated ?z + ku
           \<and> k = ki + ku
           \<and> k \<le> length (filter (hasKey job) records))"
    "\<forall>e. out = Inl e \<longrightarrow> (\<exists>R \<in> set records. \<not> hasKey job R \<and> \<not> serializable R)"
    unfolding cc by blast
  from h(4) assms(2) obtain res where res: "out = Inr res" by (cases out) auto
  have run: "processBatches job records st = Some (Inr res, st')"
    using processBatches_chunks [OF assms(1), of records st] pc res by simp
  from h(3) res have c1: "totalProcessed res = totalInserted res + totalUpdated res"
    and c2: "totalProcessed res \<le> length (filter (hasKey job) records)"
    by auto
  have n: "newCalls st st' = tr" using h(1) by (simp add: newCalls_def)
  have le: "length (filter (hasKey job) records) \<le> length records" by (rule length_filter_le)
  have inv: "\<forall>x \<in> set (newCalls st st').
             (isExistsCall x \<or> isInsertCall x \<or> isUpdateCall x)
             \<and> (\<forall>k. checkedKey (fst x) = Some k \<longrightarrow> truthy k)
             \<and> (\<forall>r \<in> set (rowsOf (fst x)). hasKey job r \<and> r \<in> set records)"
    using h(2) unfolding n reconcileCall_def by blast
  have skip: "\<forall>r \<in> set records. keyOf job r \<in> {JNull, JUndefined} \<longrightarrow>
             (\<forall>x \<in> set (newCalls st st').
                checkedKey (fst x) \<noteq> Some (keyOf job r) \<and> r \<notin> set (rowsOf (fst x)))"
  proof (intro ballI impI)
    fix r x assume r: "keyOf job r \<in> {JNull, JUndefined}" and x: "x \<in> set (newCalls st st')"
    from r have nt: "\<not> truthy (keyOf job r)" by auto
    then have nk: "\<not> hasKey job r" by (simp add: hasKey_def)
    from inv x nt nk show "checkedKey (fst x) \<noteq> Some (keyOf job r) \<and> r \<notin> set (rowsOf (fst x))"
      by blast
  qed
  have c3: "totalProcessed res \<le> length records"
    by (rule order_trans [OF c2 le])
  from run c1 c2 c3 inv skip show ?thesis by blast
qed

text \<open>
  Claim C7 does not hold of the code. The log line of the skip,
  \<open>console.warn(... JSON.stringify(record))\<close>, stands outside every \<open>try\<close> of
  \<open>processBatch\<close>, and \<open>JSON.stringify\<close> throws at a \<open>BigInt\<close>. Three rows of a table
  with a \<open>BIGINT\<close> column are extracted, the second without a key: the first row is
  checked, the skip of the second throws, \<open>processBatches\<close> throws, and the job fails
  with no row inserted and no watermark written. The same rows with the key-less one
  left out are synchronised.
\<close>

theorem keyless_row_with_bigint_fails_the_job:
  "map_option fst
     (processBatches (memJob ''orders'' ''orders_copy'' 10)
        [memBigRow (JNum 1) 2 5, memBigRow JNull 3 6, memBigRow (JNum 4) 1 7] (memStart [] []))
     = Some (Inl bigIntTypeError)
   \<and> map_option fst
     (execute wallClock (memJob ''orders'' ''orders_copy'' 10)
        (memStart [memBigRow (JNum 1) 2 5, memBigRow JNull 3 6, memBigRow (JNum 4) 1 7] []))
     = Some (Inr (failedResult (JStr ''Do not know how to serialize a BigInt'')))
   \<and> map_option (map fst \<circ> calls \<circ> snd)
     (execute wallClock (memJob ''orders'' ''orders_copy'' 10)
        (memStart [memBigRow (JNum 1) 2 5, memBigRow JNull 3 6, memBigRow (JNum 4) 1 7] []))
     = Some [GetSyncStatus ''orders_to_orders_copy'',
             GetUpdatedRecords ''orders'' ''updated_at'' (JDate 0),
             Exists ''orders_copy'' ''id'' (JNum 1)]
   \<and> map_option fst
     (execute wallClock (memJob ''orders'' ''orders_copy'' 10)
        (memStart [memBigRow (JNum 1) 2 5, memBigRow (JNum 4) 1 7] []))
     = Some (Inr \<lparr>success = True, recordsProcessed = 2, recordsInserted = Some 2,
                  recordsUpdated = Some 0, duration = Some 0, error = None,
                  resultMessage = SyncSucceeded\<rparr>)"
proof -
  let ?J = "memJob ''orders'' ''orders_copy'' 10"
  let ?R = "[memBigRow (JNum 1) 2 5, memBigRow JNull 3 6, memBigRow (JNum 4) 1 7]"
  have bs: "0 < batchSize ?J" by (simp add: memJob_def)
  have a: "map_option fst (processBatches ?J ?R (memStart [] [])) = Some (Inl bigIntTypeError)"
    by (simp only: processBatches_chunks [OF bs]) (simp add: chunks_Nil chunks_Cons mem_simps)
  have b: "map_option fst (execute wallClock ?J (memStart ?R []))
     = Some (Inr (failedResult (JStr ''Do not know how to serialize a BigInt'')))"
    by (simp only: execute_def execute_try_def processBatches_chunks [OF bs])
       (simp add: mem_exec_simps mem_simps chunks_Nil chunks_Cons)
  have c: "map_option (map fst \<circ> calls \<circ> snd) (execute wallClock ?J (memStart ?R []))
     = Some [GetSyncStatus ''orders_to_orders_copy'',
             GetUpdatedRecords ''orders'' ''updated_at'' (JDate 0),
             Exists ''orders_copy'' ''id'' (JNum 1)]"
    by (simp only: execute_def execute_try_def processBatches_chunks [OF bs])
       (simp add: mem_exec_simps mem_simps chunks_Nil chunks_Cons)
  have d: "map_option fst
     (execute wallClock ?J (memStart [memBigRow (JNum 1) 2 5, memBigRow (JNum 4) 1 7] []))
     = Some (Inr \<lparr>success = True, recordsProcessed = 2, recordsInserted = Some 2,
                  recordsUpdated = Some 0, duration = Some 0, error = None,
                  resultMessage = SyncSucceeded\<rparr>)"
    by (simp only: execute_def execute_try_def processBatches_chunks [OF bs])
       (simp add: mem_exec_simps mem_simps chunks_Nil chunks_Cons)
  show ?thesis by (rule conjI [OF a conjI [OF b conjI [OF c d]]])
qed

section \<open>Chunking comes before partitioning\<close>





section \<open>The calls of a whole reconciliation\<close>

lemma set_js_slice: "set (js_slice xs a b) \<subseteq> set xs"
  unfolding js_slice_def Let_def
  by (meson set_take_subset set_drop_subset subset_trans)

text \<open>
  Also for a batch size with which the loop may not end: when \<open>processBatches\<close>
  returns or throws, its calls were calls of the reconciliation, it left alone what the
  three methods of the reconciliation leave alone, and an error it throws is the
  \<open>TypeError\<close> of a row without a key that holds a \<open>BigInt\<close>.
\<close>

lemma processBatchesLoop_calls:
  assumes "processBatchesLoop job0 records0 i0 results0 st0 = Some y0"
  shows "(\<exists>tr. calls (snd y0) = calls st0 @ tr \<and> (\<forall>x \<in> set tr. reconcileCall job0 records0 x))
       \<and> (reconciliationPreserves obs job0 \<longrightarrow> obs (world (snd y0)) = obs (world st0))
       \<and> (\<forall>e. fst y0 = Inl e \<longrightarrow>
             e = bigIntTypeError \<and> (\<exists>R \<in> set records0. \<not> hasKey job0 R \<and> \<not> serializable R))"
proof (rule processBatchesLoop.raw_induct
         [where P = "\<lambda>job records i results st y.
                       (\<exists>tr. calls (snd y) = calls st @ tr
                          \<and> (\<forall>x \<in> set tr. reconcileCall job records x))
                     \<and> (reconciliationPreserves obs job \<longrightarrow> obs (world (snd y)) = obs (world st))
                     \<and> (\<forall>e. fst y = Inl e \<longrightarrow>
                           e = bigIntTypeError
                           \<and> (\<exists>R \<in> set records. \<not> hasKey job R \<and> \<not> serializable R))", OF _ assms])
  fix loop :: "'a sync_job \<Rightarrow> row list \<Rightarrow> int \<Rightarrow> batches_result \<Rightarrow> 'a run
               \<Rightarrow> ((thrown + batches_result) \<times> 'a run) option"
  fix job records i results st y
  assume ih: "\<And>job records i results st y. loop job records i results st = Some y \<Longrightarrow>
                (\<exists>tr. calls (snd y) = calls st @ tr \<and> (\<forall>x \<in> set tr. reconcileCall job records x))
              \<and> (reconciliationPreserves obs job \<longrightarrow> obs (world (snd y)) = obs (world st))
              \<and> (\<forall>e. fst y = Inl e \<longrightarrow>
                    e = bigIntTypeError
                    \<and> (\<exists>R \<in> set records. \<not> hasKey job R \<and> \<not> serializable R))"
  assume body:
    "(if i < int (length records) then
        (case processBatch job (js_slice records i (i + batchSize job)) st of
           (Inl err, st') \<Rightarrow> Some (Inl err, st')
         | (Inr batchResults, st') \<Rightarrow>
             loop job records (i + batchSize job)
               \<lparr>totalProcessed = totalProcessed results + processed batchResults,
                totalInserted = totalInserted results + inserted batchResults,
                totalUpdated = totalUpdated results + updated batchResults\<rparr> st')
      else Some (Inr results, st)) = Some y"
  show "(\<exists>tr. calls (snd y) = calls st @ tr \<and> (\<forall>x \<in> set tr. reconcileCall job records x))
      \<and> (reconciliationPreserves obs job \<longrightarrow> obs (world (snd y)) = obs (world st))
      \<and> (\<forall>e. fst y = Inl e \<longrightarrow>
            e = bigIntTypeError \<and> (\<exists>R \<in> set records. \<not> hasKey job R \<and> \<not> serializable R))"
  proof (cases "i < int (length records)")
    case False
    with body have "y = (Inr results, st)" by simp
    then show ?thesis by simp
  next
    case True
    let ?batch = "js_slice records i (i + batchSize job)"
    obtain o1 st1 where pb: "processBatch job ?batch st = (o1, st1)"
      by (cases "processBatch job ?batch st")
    from processBatch_keys [OF pb] obtain t1 where
      t1: "calls st1 = calls st @ t1"
          "\<forall>x \<in> set t1. reconcileCall job ?batch x"
          "\<forall>e. o1 = Inl e \<longrightarrow>
              e = bigIntTypeError \<and> (\<exists>R \<in> set ?batch. \<not> hasKey job R \<and> \<not> serializable R)"
      by blast
    from t1(2) have r1: "\<forall>x \<in> set t1. reconcileCall job records x"
      using reconcileCall_mono [OF _ set_js_slice] by blast
    have f1: "obs (world st1) = obs (world st)" if "reconciliationPreserves obs job"
      using processBatch_frame [of obs job ?batch st] that pb
      by (simp add: reconciliationPreserves_def)
    show ?thesis
    proof (cases o1)
      case (Inl e)
      with body True pb have y: "y = (Inl e, st1)" by simp
      from t1(3) Inl set_js_slice [of records i "i + batchSize job"]
      have "e = bigIntTypeError \<and> (\<exists>R \<in> set records. \<not> hasKey job R \<and> \<not> serializable R)"
        by blast
      with y t1(1) r1 f1 show ?thesis by auto
    next
      case (Inr br)
      with body True pb have
        "loop job records (i + batchSize job)
           \<lparr>totalProcessed = totalProcessed results + processed br,
            totalInserted = totalInserted results + inserted br,
            totalUpdated = totalUpdated results + updated br\<rparr> st1 = Some y"
        by simp
      from ih [OF this] obtain tr where
        tr: "calls (snd y) = calls st1 @ tr" "\<forall>x \<in> set tr. reconcileCall job records x"
        and fr: "reconciliationPreserves obs job \<longrightarrow> obs (world (snd y)) = obs (world st1)"
        and er: "\<forall>e. fst y = Inl e \<longrightarrow>
                    e = bigIntTypeError
                    \<and> (\<exists>R \<in> set records. \<not> hasKey job R \<and> \<not> serializable R)"
        by blast
      have "calls (snd y) = calls st @ (t1 @ tr)" using t1(1) tr(1) by simp
      moreover have "\<forall>x \<in> set (t1 @ tr). reconcileCall job records x" using r1 tr(2) by auto
      ultimately have
        "\<exists>tr. calls (snd y) = calls st @ tr \<and> (\<forall>x \<in> set tr. reconcileCall job records x)"
        by blast
      with fr f1 er show ?thesis by simp
    qed
  qed
qed

lemma processBatches_calls:
  assumes "processBatches job records st = Some (out, st')"
  shows "\<exists>tr. calls st' = calls st @ tr \<and> (\<forall>x \<in> set tr. reconcileCall job records x)"
proof -
  from assms have
    "processBatchesLoop job records 0 \<lparr>totalProcessed = 0, totalInserted = 0, totalUpdated = 0\<rparr> st
       = Some (out, st')"
    by (simp add: processBatches_def)
  from processBatchesLoop_calls [OF this, THEN conjunct1] show ?thesis by simp
qed

lemma processBatches_frame:
  assumes "processBatches job records st = Some (out, st')"
      and "reconciliationPreserves obs job"
  shows "obs (world st') = obs (world st)"
proof -
  from assms(1) have
    "processBatchesLoop job records 0 \<lparr>totalProcessed = 0, totalInserted = 0, totalUpdated = 0\<rparr> st
       = Some (out, st')"
    by (simp add: processBatches_def)
  from processBatchesLoop_calls [OF this, where obs = obs, THEN conjunct2, THEN conjunct1] assms(2)
  show ?thesis by simp
qed

lemma processBatches_threw:
  assumes "processBatches job records st = Some (Inl e, st')"
  shows "e = bigIntTypeError \<and> (\<exists>R \<in> set records. \<not> hasKey job R \<and> \<not> serializable R)"
proof -
  from assms have
    "processBatchesLoop job records 0 \<lparr>totalProcessed = 0, totalInserted = 0, totalUpdated = 0\<rparr> st
       = Some (Inl e, st')"
    by (simp add: processBatches_def)
  from processBatchesLoop_calls [OF this, THEN conjunct2, THEN conjunct2] show ?thesis by simp
qed

lemma processBatches_returns:
  assumes "0 < batchSize job"
  shows "\<exists>out st'. processBatches job records st = Some (out, st')"
  using processBatches_chunks [OF assms, of records st]
  by (cases "processChunks job (chunks (nat (batchSize job)) records)
                   \<lparr>totalProcessed = 0, totalInserted = 0, totalUpdated = 0\<rparr> st") simp

section \<open>The paths through execute\<close>

lemma toISOString_Inl: "toISOString v = Inl e \<Longrightarrow> \<exists>m. e = JsError m"
  by (cases v) (auto simp: toISOString_def)

lemma toISOString_Inr: "toISOString v = Inr t \<Longrightarrow> v = JDate t"
  by (cases v) (simp_all add: toISOString_def)

lemma execute_cases:
  fixes st :: "'w run"
  obtains
    (readThrew) e st1 where
      "getSyncStatus (targetAdapter job) (syncStatusKey job) (world st) = (Inl e, world st1)"
      "calls st1 = calls st @ [(GetSyncStatus (syncStatusKey job), Threw e)]"
      "execute_try clock job (clock (world st)) st = Some (Inl e, st1)"
      "execute clock job st = Some (execute_catch e, st1)"
  | (notDate) v m st1 where
      "getSyncStatus (targetAdapter job) (syncStatusKey job) (world st) = (Inr v, world st1)"
      "toISOString v = Inl (JsError m)"
      "calls st1 = calls st @ [(GetSyncStatus (syncStatusKey job), RetVal v)]"
      "execute_try clock job (clock (world st)) st = Some (Inl (JsError m), st1)"
      "execute clock job st = Some (Inr (failedResult (JStr m)), st1)"
  | (extractThrew) t e st1 st2 where
      "getSyncStatus (targetAdapter job) (syncStatusKey job) (world st)
         = (Inr (JDate t), world (st1 :: 'w run))"
      "getUpdatedRecords (sourceAdapter job) (tableName job) (updateColumn job) (JDate t) (world st1)
         = (Inl e, world st2)"
      "calls st2 = calls st @ [(GetSyncStatus (syncStatusKey job), RetVal (JDate t)),
                               (GetUpdatedRecords (tableName job) (updateColumn job) (JDate t), Threw e)]"
      "execute_try clock job (clock (world st)) st = Some (Inl e, st2)"
      "execute clock job st = Some (execute_catch e, st2)"
  | (noRows) t st1 st2 where
      "getSyncStatus (targetAdapter job) (syncStatusKey job) (world st)
         = (Inr (JDate t), world (st1 :: 'w run))"
      "getUpdatedRecords (sourceAdapter job) (tableName job) (updateColumn job) (JDate t) (world st1)
         = (Inr [], world st2)"
      "calls st2 = calls st @ [(GetSyncStatus (syncStatusKey job), RetVal (JDate t)),
                               (GetUpdatedRecords (tableName job) (updateColumn job) (JDate t), RetRows [])]"
      "execute_try clock job (clock (world st)) st = Some (Inr noNewRecordsResult, st2)"
      "execute clock job st = Some (Inr noNewRecordsResult, st2)"
  | (diverges) t rows st1 st2 where
      "getSyncStatus (targetAdapter job) (syncStatusKey job) (world st)
         = (Inr (JDate t), world (st1 :: 'w run))"
      "getUpdatedRecords (sourceAdapter job) (tableName job) (updateColumn job) (JDate t) (world st1)
         = (Inr rows, world st2)"
      "rows \<noteq> []"
      "processBatches job rows st2 = None"
      "execute clock job st = None"
  | (reconcileThrew) t rows st1 st2 st3 where
      "getSyncStatus (targetAdapter job) (syncStatusKey job) (world st)
         = (Inr (JDate t), world (st1 :: 'w run))"
      "getUpdatedRecords (sourceAdapter job) (tableName job) (updateColumn job) (JDate t) (world st1)
         = (Inr rows, world st2)"
      "calls st2 = calls st @ [(GetSyncStatus (syncStatusKey job), RetVal (JDate t)),
                               (GetUpdatedRecords (tableName job) (updateColumn job) (JDate t), RetRows rows)]"
      "rows \<noteq> []"
      "processBatches job rows st2 = Some (Inl bigIntTypeError, st3)"
      "execute_try clock job (clock (world st)) st = Some (Inl bigIntTypeError, st3)"
      "execute clock job st
         = Some (Inr (failedResult (JStr ''Do not know how to serialize a BigInt'')), st3)"
  | (writeThrew) t rows st1 st2 res st3 e st4 where
      "getSyncStatus (targetAdapter job) (syncStatusKey job) (world st)
         = (Inr (JDate t), world (st1 :: 'w run))"
      "getUpdatedRecords (sourceAdapter job) (tableName job) (updateColumn job) (JDate t) (world st1)
         = (Inr rows, world st2)"
      "calls st2 = calls st @ [(GetSyncStatus (syncStatusKey job), RetVal (JDate t)),
                               (GetUpdatedRecords (tableName job) (updateColumn job) (JDate t), RetRows rows)]"
      "rows \<noteq> []"
      "processBatches job rows st2 = Some (Inr res, st3)"
      "updateSyncStatus (targetAdapter job) (syncStatusKey job) (clock (world st3)) (world st3)
         = (Inl e, world st4)"
      "calls st4 = calls st3 @ [(UpdateSyncStatus (syncStatusKey job) (clock (world st3)), Threw e)]"
      "execute_try clock job (clock (world st)) st = Some (Inl e, st4)"
      "execute clock job st = Some (execute_catch e, st4)"
  | (completed) t rows st1 st2 res st3 st4 where
      "getSyncStatus (targetAdapter job) (syncStatusKey job) (world st)
         = (Inr (JDate t), world (st1 :: 'w run))"
      "getUpdatedRecords (sourceAdapter job) (tableName job) (updateColumn job) (JDate t) (world st1)
         = (Inr rows, world st2)"
      "calls st2 = calls st @ [(GetSyncStatus (syncStatusKey job), RetVal (JDate t)),
                               (GetUpdatedRecords (tableName job) (updateColumn job) (JDate t), RetRows rows)]"
      "rows \<noteq> []"
      "processBatches job rows st2 = Some (Inr res, st3)"
      "updateSyncStatus (targetAdapter job) (syncStatusKey job) (clock (world st3)) (world st3)
         = (Inr (), world st4)"
      "calls st4 = calls st3 @ [(UpdateSyncStatus (syncStatusKey job) (clock (world st3)), RetUnit)]"
      "execute clock job st =
         Some (Inr \<lparr>success = True, recordsProcessed = totalProcessed res,
                    recordsInserted = Some (totalInserted res),
                    recordsUpdated = Some (totalUpdated res),
                    duration = Some (clock (world st4) - clock (world st)),
                    error = None, resultMessage = SyncSucceeded\<rparr>, st4)"
proof -
  let ?key = "tableName job @ ''_to_'' @ targetTableName job"
  have key: "syncStatusKey job = ?key" by (simp add: syncStatusKey_def)
  obtain o1 st1 where i1:
    "invoke (GetSyncStatus ?key) RetVal (getSyncStatus (targetAdapter job) ?key) st = (o1, st1)"
    by (cases "invoke (GetSyncStatus ?key) RetVal (getSyncStatus (targetAdapter job) ?key) st")
  note c1 = invoke_calls [OF i1] and w1 = invoke_world [OF i1]
  show ?thesis
  proof (cases o1)
    case (Inl e)
    have "execute_try clock job (clock (world st)) st = Some (Inl e, st1)"
      using i1 Inl by (simp add: execute_try_def)
    moreover then have "execute clock job st = Some (execute_catch e, st1)"
      by (simp add: execute_def)
    ultimately show ?thesis using readThrew c1 w1 Inl key by simp
  next
    case (Inr v)
    show ?thesis
    proof (cases "toISOString v")
      case (Inl e)
      from toISOString_Inl [OF Inl] obtain m where m: "e = JsError m" by blast
      have "execute_try clock job (clock (world st)) st = Some (Inl (JsError m), st1)"
        using i1 Inr Inl m by (simp add: execute_try_def)
      moreover then have "execute clock job st = Some (Inr (failedResult (JStr m)), st1)"
        by (simp add: execute_def)
      ultimately show ?thesis using notDate c1 w1 Inr Inl m key by simp
    next
      case iso: (Inr t)
      then have v: "v = JDate t" by (rule toISOString_Inr)
      obtain o2 st2 where i2:
        "invoke (GetUpdatedRecords (tableName job) (updateColumn job) (JDate t)) RetRows
           (getUpdatedRecords (sourceAdapter job) (tableName job) (updateColumn job) (JDate t)) st1
         = (o2, st2)"
        by (cases "invoke (GetUpdatedRecords (tableName job) (updateColumn job) (JDate t)) RetRows
           (getUpdatedRecords (sourceAdapter job) (tableName job) (updateColumn job) (JDate t)) st1")
      note c2 = invoke_calls [OF i2] and w2 = invoke_world [OF i2]
      show ?thesis
      proof (cases o2)
        case (Inl e)
        have "execute_try clock job (clock (world st)) st = Some (Inl e, st2)"
          using i1 Inr iso v i2 Inl by (simp add: execute_try_def)
        moreover then have "execute clock job st = Some (execute_catch e, st2)"
          by (simp add: execute_def)
        ultimately show ?thesis
          using extractThrew c1 w1 c2 w2 Inr v Inl key by simp
      next
        case rows: (Inr rows)
        show ?thesis
        proof (cases "rows = []")
          case True
          have "execute_try clock job (clock (world st)) st = Some (Inr noNewRecordsResult, st2)"
            using i1 Inr iso v i2 rows True by (simp add: execute_try_def noNewRecordsResult_def)
          moreover then have "execute clock job st = Some (Inr noNewRecordsResult, st2)"
            by (simp add: execute_def)
          ultimately show ?thesis
            using noRows c1 w1 c2 w2 Inr v rows True key by simp
        next
          case False
          show ?thesis
          proof (cases "processBatches job rows st2")
            case None
            have "execute_try clock job (clock (world st)) st = None"
              using i1 Inr iso v i2 rows False None by (simp add: execute_try_def)
            then have "execute clock job st = None" by (simp add: execute_def)
            then show ?thesis
              using diverges w1 w2 Inr v rows False None key by simp
          next
            case (Some p)
            obtain o3 st3 where p: "p = (o3, st3)" by (cases p)
            show ?thesis
            proof (cases o3)
              case (Inl e)
              from processBatches_threw [of job rows st2 e st3] Some p Inl
              have e: "e = bigIntTypeError" by simp
              have "execute_try clock job (clock (world st)) st = Some (Inl bigIntTypeError, st3)"
                using i1 Inr iso v i2 rows False Some p Inl e by (simp add: execute_try_def)
              moreover then have "execute clock job st
                  = Some (Inr (failedResult (JStr ''Do not know how to serialize a BigInt'')), st3)"
                by (simp add: execute_def bigIntTypeError_def)
              ultimately show ?thesis
                using reconcileThrew c1 w1 c2 w2 Inr v rows False Some p Inl e key by simp
            next
              case res: (Inr res)
              obtain o4 st4 where i4:
                "invoke (UpdateSyncStatus ?key (clock (world st3))) (\<lambda>_. RetUnit)
                   (updateSyncStatus (targetAdapter job) ?key (clock (world st3))) st3 = (o4, st4)"
                by (cases "invoke (UpdateSyncStatus ?key (clock (world st3))) (\<lambda>_. RetUnit)
                   (updateSyncStatus (targetAdapter job) ?key (clock (world st3))) st3")
              note c4 = invoke_calls [OF i4] and w4 = invoke_world [OF i4]
              show ?thesis
              proof (cases o4)
                case (Inl e)
                have "execute_try clock job (clock (world st)) st = Some (Inl e, st4)"
                  using i1 Inr iso v i2 rows False Some p res i4 Inl
                  by (simp add: execute_try_def Let_def)
                moreover then have "execute clock job st = Some (execute_catch e, st4)"
                  by (simp add: execute_def)
                ultimately show ?thesis
                  using writeThrew
                    c1 w1 c2 w2 c4 w4 Inr v rows False Some p res Inl key by simp
              next
                case u: (Inr u)
                have "execute_try clock job (clock (world st)) st =
                    Some (Inr \<lparr>success = True, recordsProcessed = totalProcessed res,
                      recordsInserted = Some (totalInserted res),
                      recordsUpdated = Some (totalUpdated res),
                      duration = Some (clock (world st4) - clock (world st)),
                      error = None, resultMessage = SyncSucceeded\<rparr>, st4)"
                  using i1 Inr iso v i2 rows False Some p res i4 u
                  by (simp add: execute_try_def Let_def)
                then have "execute clock job st =
                    Some (Inr \<lparr>success = True, recordsProcessed = totalProcessed res,
                      recordsInserted = Some (totalInserted res),
                      recordsUpdated = Some (totalUpdated res),
                      duration = Some (clock (world st4) - clock (world st)),
                      error = None, resultMessage = SyncSucceeded\<rparr>, st4)"
                  by (simp add: execute_def)
                then show ?thesis
                  using completed
                    c1 w1 c2 w2 c4 w4 Inr v rows False Some p res u key by simp
              qed
            qed
          qed
        qed
      qed
    qed
  qed
qed

text \<open>
  The record of calls of a run of \<open>execute\<close> that returns or throws, path by path:
  what was called with which reply, what came of it, and the world it left.
\<close>

lemma execute_run:
  assumes "execute clock job st = Some (out, st')"
  obtains
    (readThrew) e where
      "newCalls st st' = [(GetSyncStatus (syncStatusKey job), Threw e)]"
      "out = execute_catch e"
      "world st' = snd (getSyncStatus (targetAdapter job) (syncStatusKey job) (world st))"
  | (notDate) v m where
      "newCalls st st' = [(GetSyncStatus (syncStatusKey job), RetVal v)]"
      "toISOString v = Inl (JsError m)"
      "out = Inr (failedResult (JStr m))"
      "world st' = snd (getSyncStatus (targetAdapter job) (syncStatusKey job) (world st))"
  | (extractThrew) t e where
      "newCalls st st' = [(GetSyncStatus (syncStatusKey job), RetVal (JDate t)),
                          (GetUpdatedRecords (tableName job) (updateColumn job) (JDate t), Threw e)]"
      "out = execute_catch e"
      "world st' = snd (getUpdatedRecords (sourceAdapter job) (tableName job) (updateColumn job)
                          (JDate t)
                          (snd (getSyncStatus (targetAdapter job) (syncStatusKey job) (world st))))"
  | (noRows) t where
      "newCalls st st' = [(GetSyncStatus (syncStatusKey job), RetVal (JDate t)),
                          (GetUpdatedRecords (tableName job) (updateColumn job) (JDate t), RetRows [])]"
      "out = Inr noNewRecordsResult"
      "getSyncStatus (targetAdapter job) (syncStatusKey job) (world st)
         = (Inr (JDate t), snd (getSyncStatus (targetAdapter job) (syncStatusKey job) (world st)))"
      "getUpdatedRecords (sourceAdapter job) (tableName job) (updateColumn job) (JDate t)
         (snd (getSyncStatus (targetAdapter job) (syncStatusKey job) (world st)))
         = (Inr [], world st')"
  | (reconcileThrew) t rows st2 tr where
      "newCalls st st' = [(GetSyncStatus (syncStatusKey job), RetVal (JDate t)),
                          (GetUpdatedRecords (tableName job) (updateColumn job) (JDate t), RetRows rows)]
                         @ tr"
      "newCalls st2 st' = tr"
      "rows \<noteq> []"
      "processBatches job rows st2 = Some (Inl bigIntTypeError, st')"
      "out = Inr (failedResult (JStr ''Do not know how to serialize a BigInt''))"
      "\<forall>x \<in> set tr. reconcileCall job rows x"
      "\<exists>R \<in> set rows. \<not> hasKey job R \<and> \<not> serializable R"
      "world st2 = snd (getUpdatedRecords (sourceAdapter job) (tableName job) (updateColumn job)
                          (JDate t)
                          (snd (getSyncStatus (targetAdapter job) (syncStatusKey job) (world st))))"
  | (writeThrew) t rows st2 res st3 tr e where
      "newCalls st st' = [(GetSyncStatus (syncStatusKey job), RetVal (JDate t)),
                          (GetUpdatedRecords (tableName job) (updateColumn job) (JDate t), RetRows rows)]
                         @ tr @ [(UpdateSyncStatus (syncStatusKey job) (clock (world st3)), Threw e)]"
      "newCalls st2 st3 = tr"
      "rows \<noteq> []"
      "processBatches job rows st2 = Some (Inr res, st3)"
      "out = execute_catch e"
      "\<forall>x \<in> set tr. reconcileCall job rows x"
  | (completed) t rows st2 res st3 tr where
      "newCalls st st' = [(GetSyncStatus (syncStatusKey job), RetVal (JDate t)),
                          (GetUpdatedRecords (tableName job) (updateColumn job) (JDate t), RetRows rows)]
                         @ tr @ [(UpdateSyncStatus (syncStatusKey job) (clock (world st3)), RetUnit)]"
      "newCalls st2 st3 = tr"
      "rows \<noteq> []"
      "processBatches job rows st2 = Some (Inr res, st3)"
      "out = Inr \<lparr>success = True, recordsProcessed = totalProcessed res,
                   recordsInserted = Some (totalInserted res),
                   recordsUpdated = Some (totalUpdated res),
                   duration = Some (clock (world st') - clock (world st)),
                   error = None, resultMessage = SyncSucceeded\<rparr>"
      "\<forall>x \<in> set tr. reconcileCall job rows x"
proof (cases rule: execute_cases [of job st clock])
  case c: (readThrew e s1)
  from assms c(4) have o: "out = execute_catch e" "st' = s1" by simp_all
  have n: "newCalls st st' = [(GetSyncStatus (syncStatusKey job), Threw e)]"
    using c(2) o(2) by (simp add: newCalls_def)
  have w: "world st' = snd (getSyncStatus (targetAdapter job) (syncStatusKey job) (world st))"
    using c(1) o(2) by simp
  from n o(1) w show ?thesis by (rule readThrew)
next
  case c: (notDate v m s1)
  from assms c(5) have o: "out = Inr (failedResult (JStr m))" "st' = s1" by simp_all
  have n: "newCalls st st' = [(GetSyncStatus (syncStatusKey job), RetVal v)]"
    using c(3) o(2) by (simp add: newCalls_def)
  have w: "world st' = snd (getSyncStatus (targetAdapter job) (syncStatusKey job) (world st))"
    using c(1) o(2) by simp
  from n c(2) o(1) w show ?thesis by (rule notDate)
next
  case c: (extractThrew t e s1 s2)
  from assms c(5) have o: "out = execute_catch e" "st' = s2" by simp_all
  have n: "newCalls st st' = [(GetSyncStatus (syncStatusKey job), RetVal (JDate t)),
          (GetUpdatedRecords (tableName job) (updateColumn job) (JDate t), Threw e)]"
    using c(3) o(2) by (simp add: newCalls_def)
  have w: "world st' = snd (getUpdatedRecords (sourceAdapter job) (tableName job) (updateColumn job)
                          (JDate t)
                          (snd (getSyncStatus (targetAdapter job) (syncStatusKey job) (world st))))"
    using c(1,2) o(2) by simp
  from n o(1) w show ?thesis by (rule extractThrew)
next
  case c: (noRows t s1 s2)
  from assms c(5) have o: "out = Inr noNewRecordsResult" "st' = s2" by simp_all
  have n: "newCalls st st' = [(GetSyncStatus (syncStatusKey job), RetVal (JDate t)),
          (GetUpdatedRecords (tableName job) (updateColumn job) (JDate t), RetRows [])]"
    using c(3) o(2) by (simp add: newCalls_def)
  have g: "getSyncStatus (targetAdapter job) (syncStatusKey job) (world st)
         = (Inr (JDate t), snd (getSyncStatus (targetAdapter job) (syncStatusKey job) (world st)))"
    using c(1) by simp
  have u: "getUpdatedRecords (sourceAdapter job) (tableName job) (updateColumn job) (JDate t)
         (snd (getSyncStatus (targetAdapter job) (syncStatusKey job) (world st)))
         = (Inr [], world st')"
    using c(1,2) o(2) by simp
  from n o(1) g u show ?thesis by (rule noRows)
next
  case c: (diverges t rows s1 s2)
  with assms show ?thesis by simp
next
  case c: (reconcileThrew t rows s1 s2 s3)
  from assms c(7) have o: "out = Inr (failedResult (JStr ''Do not know how to serialize a BigInt''))"
    "st' = s3" by simp_all
  from processBatches_calls [OF c(5)] obtain tr where
    tr: "calls s3 = calls s2 @ tr" "\<forall>x \<in> set tr. reconcileCall job rows x" by blast
  have n23: "newCalls s2 st' = tr" using tr(1) o(2) by (simp add: newCalls_def)
  have n: "newCalls st st' = [(GetSyncStatus (syncStatusKey job), RetVal (JDate t)),
          (GetUpdatedRecords (tableName job) (updateColumn job) (JDate t), RetRows rows)] @ tr"
    using c(3) tr(1) o(2) by (simp add: newCalls_def)
  from processBatches_threw [OF c(5)]
  have bad: "\<exists>R \<in> set rows. \<not> hasKey job R \<and> \<not> serializable R" by simp
  have pb: "processBatches job rows s2 = Some (Inl bigIntTypeError, st')" using c(5) o(2) by simp
  have w: "world s2 = snd (getUpdatedRecords (sourceAdapter job) (tableName job) (updateColumn job)
                          (JDate t)
                          (snd (getSyncStatus (targetAdapter job) (syncStatusKey job) (world st))))"
    using c(1,2) by simp
  from n n23 c(4) pb o(1) tr(2) bad w show ?thesis by (rule reconcileThrew)
next
  case c: (writeThrew t rows s1 s2 res s3 e s4)
  from assms c(9) have o: "out = execute_catch e" "st' = s4" by simp_all
  from processBatches_calls [OF c(5)] obtain tr where
    tr: "calls s3 = calls s2 @ tr" "\<forall>x \<in> set tr. reconcileCall job rows x" by blast
  have n23: "newCalls s2 s3 = tr" using tr(1) by (simp add: newCalls_def)
  have n: "newCalls st st' = [(GetSyncStatus (syncStatusKey job), RetVal (JDate t)),
          (GetUpdatedRecords (tableName job) (updateColumn job) (JDate t), RetRows rows)] @ tr
          @ [(UpdateSyncStatus (syncStatusKey job) (clock (world s3)), Threw e)]"
    using c(3,7) tr(1) o(2) by (simp add: newCalls_def)
  from n n23 c(4) c(5) o(1) tr(2) show ?thesis by (rule writeThrew)
next
  case c: (completed t rows s1 s2 res s3 s4)
  from assms c(8) have o: "out = Inr \<lparr>success = True, recordsProcessed = totalProcessed res,
                   recordsInserted = Some (totalInserted res),
                   recordsUpdated = Some (totalUpdated res),
                   duration = Some (clock (world st') - clock (world st)),
                   error = None, resultMessage = SyncSucceeded\<rparr>" "st' = s4" by auto
  from processBatches_calls [OF c(5)] obtain tr where
    tr: "calls s3 = calls s2 @ tr" "\<forall>x \<in> set tr. reconcileCall job rows x" by blast
  have n23: "newCalls s2 s3 = tr" using tr(1) by (simp add: newCalls_def)
  have n: "newCalls st st' = [(GetSyncStatus (syncStatusKey job), RetVal (JDate t)),
          (GetUpdatedRecords (tableName job) (updateColumn job) (JDate t), RetRows rows)] @ tr
          @ [(UpdateSyncStatus (syncStatusKey job) (clock (world s3)), RetUnit)]"
    using c(3,7) tr(1) o(2) by (simp add: newCalls_def)
  from n n23 c(4) c(5) o(1) tr(2) show ?thesis by (rule completed)
qed

lemma execute_terminates:
  assumes "0 < batchSize job"
  shows "\<exists>out st'. execute clock job st = Some (out, st')"
proof (cases rule: execute_cases [of job st clock])
  case (diverges t rows st1 st2)
  from diverges(4) processBatches_returns [OF assms, of rows st2] show ?thesis by simp
qed blast+

lemma reconcile_calls_kinds:
  assumes "\<forall>x \<in> set tr. reconcileCall job rows x"
  shows "\<forall>x \<in> set tr. \<not> isWatermarkWrite x \<and> \<not> isExtractionCall x"
  using assms reconcileCall_kinds by blast

section \<open>Claims about execute\<close>

lemma execute_thrown_by_call:
  assumes "execute clock job st = Some (out, st')"
      and "x \<in> set (newCalls st st')" "isExtractionCall x \<or> isWatermarkWrite x" "snd x = Threw e"
  shows "out = execute_catch e \<and> last (newCalls st st') = x"
  using assms(1)
proof (cases rule: execute_run)
  case (readThrew e1)
  with assms(2,4) show ?thesis by auto
next
  case (notDate v m)
  with assms(2,4) show ?thesis by auto
next
  case (extractThrew t e1)
  with assms(2,4) show ?thesis by auto
next
  case (noRows t)
  with assms(2,4) show ?thesis by auto
next
  case (reconcileThrew t rows st2 tr)
  from reconcile_calls_kinds [OF reconcileThrew(6)] assms(3)
  have "x \<notin> set tr" by blast
  with reconcileThrew(1) assms(2,4) show ?thesis by auto
next
  case (writeThrew t rows st2 res st3 tr e1)
  from reconcile_calls_kinds [OF writeThrew(6)] assms(3)
  have "x \<notin> set tr" by blast
  with writeThrew(1,5) assms(2,4) show ?thesis by auto
next
  case (completed t rows st2 res st3 tr)
  from reconcile_calls_kinds [OF completed(6)] assms(3)
  have "x \<notin> set tr" by blast
  with completed(1) assms(2,4) show ?thesis by auto
qed

lemma execute_rejects_only:
  assumes "execute clock job st = Some (Inl e', st')"
  shows "\<exists>c v. newCalls st st' \<noteq> [] \<and> last (newCalls st st') = (c, Threw (Thrown v))
           \<and> (v = JNull \<or> v = JUndefined)
           \<and> (isExtractionCall (c, Threw (Thrown v)) \<or> isWatermarkWrite (c, Threw (Thrown v)))
           \<and> errorMessage (Thrown v) = Inl e'"
  using assms
proof (cases rule: execute_run)
  case (readThrew e)
  from readThrew(2) have m: "errorMessage e = Inl e'" "unreadable e"
    using execute_catch_Inl [of e e'] by simp_all
  then obtain v where v: "e = Thrown v" "v = JNull \<or> v = JUndefined"
    by (auto simp: unreadable_def)
  show ?thesis
    by (rule exI [of _ "GetSyncStatus (syncStatusKey job)"], rule exI [of _ v])
       (use readThrew(1) m(1) v in simp)
next
  case (extractThrew t e)
  from extractThrew(2) have m: "errorMessage e = Inl e'" "unreadable e"
    using execute_catch_Inl [of e e'] by simp_all
  then obtain v where v: "e = Thrown v" "v = JNull \<or> v = JUndefined"
    by (auto simp: unreadable_def)
  show ?thesis
    by (rule exI [of _ "GetUpdatedRecords (tableName job) (updateColumn job) (JDate t)"],
        rule exI [of _ v])
       (use extractThrew(1) m(1) v in simp)
next
  case (writeThrew t rows st2 res st3 tr e)
  from writeThrew(5) have m: "errorMessage e = Inl e'" "unreadable e"
    using execute_catch_Inl [of e e'] by simp_all
  then obtain v where v: "e = Thrown v" "v = JNull \<or> v = JUndefined"
    by (auto simp: unreadable_def)
  show ?thesis
    by (rule exI [of _ "UpdateSyncStatus (syncStatusKey job) (clock (world st3))"],
        rule exI [of _ v])
       (use writeThrew(1) m(1) v in simp)
qed simp_all

lemma execute_succeeds_when_reads_and_write_return:
  assumes "execute clock job st = Some (out, st')"
      and p1: "\<forall>x \<in> set (newCalls st st'). isExtractionCall x \<or> isWatermarkWrite x \<longrightarrow> succeeded x"
      and p2: "\<forall>v. (GetSyncStatus (syncStatusKey job), RetVal v) \<in> set (newCalls st st')
                 \<longrightarrow> (\<exists>t. v = JDate t)"
      and p3: "\<forall>c rows. (c, RetRows rows) \<in> set (newCalls st st')
                 \<longrightarrow> (\<forall>r \<in> set rows. hasKey job r \<or> serializable r)"
  shows "\<exists>r. out = Inr r \<and> success r"
  using assms(1)
proof (cases rule: execute_run)
  case (readThrew e)
  with p1 show ?thesis by simp
next
  case (notDate v m)
  from notDate(1) p2 obtain t where "v = JDate t" by auto
  with notDate(2) show ?thesis by (simp add: toISOString_def)
next
  case (extractThrew t e)
  with p1 show ?thesis by simp
next
  case (noRows t)
  then show ?thesis by simp
next
  case (reconcileThrew t rows st2 tr)
  from reconcileThrew(1) have
    "(GetUpdatedRecords (tableName job) (updateColumn job) (JDate t), RetRows rows)
       \<in> set (newCalls st st')" by simp
  with p3 have "\<forall>r \<in> set rows. hasKey job r \<or> serializable r" by blast
  with reconcileThrew(7) show ?thesis by blast
next
  case (writeThrew t rows st2 res st3 tr e)
  from writeThrew(1) have
    "(UpdateSyncStatus (syncStatusKey job) (clock (world st3)), Threw e) \<in> set (newCalls st st')"
    by simp
  with p1 show ?thesis by fastforce
next
  case (completed t rows st2 res st3 tr)
  then show ?thesis by simp
qed

lemma execute_result_kinds:
  assumes "execute clock job st = Some (Inr r, st')"
  shows "success r \<or> (\<exists>msg. r = failedResult msg)"
  using assms
proof (cases rule: execute_run)
  case (readThrew e)
  with execute_catch_Inr [of e r] show ?thesis by auto
next
  case (extractThrew t e)
  with execute_catch_Inr [of e r] show ?thesis by auto
next
  case (writeThrew t rows st2 res st3 tr e)
  with execute_catch_Inr [of e r] show ?thesis by auto
qed auto

text \<open>
  Claim C8, as amended. With a positive batch size \<open>execute\<close> ends: it returns a
  result or throws. An error thrown by the watermark read, by the extraction or by the
  watermark write is the last call of the run and is caught: when its \<open>message\<close> can be
  read, \<open>execute\<close> returns the failure result that carries it; when the thrown value is
  \<open>null\<close> or \<open>undefined\<close>, the read of \<open>error.message\<close> in the \<open>catch\<close> block throws,
  and \<open>execute\<close> throws that \<open>TypeError\<close>. This is the only way \<open>execute\<close> throws. The
  errors of \<open>exists\<close>, \<open>batchInsert\<close> and \<open>batchUpdate\<close> are absorbed by the
  reconciliation and do not fail the run: whatever these three throw, the run reports
  success when the two reads and the watermark write return, the watermark read is a
  date, and every extracted row without a key can be logged. A result that does not
  report success is the failure result.
\<close>

theorem execute_returns_unless_message_unreadable:
  "(0 < batchSize job \<longrightarrow> (\<exists>out st'. execute clock job st = Some (out, st')))
   \<and> (\<forall>out st'. execute clock job st = Some (out, st') \<longrightarrow>
        (\<forall>x e. x \<in> set (newCalls st st') \<and> (isExtractionCall x \<or> isWatermarkWrite x)
                \<and> snd x = Threw e \<longrightarrow>
             last (newCalls st st') = x
           \<and> (\<forall>msg. errorMessage e = Inr msg \<longrightarrow> out = Inr (failedResult msg))
           \<and> (unreadable e \<longrightarrow> (\<exists>e'. errorMessage e = Inl e' \<and> out = Inl e')))
      \<and> (\<forall>e'. out = Inl e' \<longrightarrow>
             (\<exists>c v. newCalls st st' \<noteq> [] \<and> last (newCalls st st') = (c, Threw (Thrown v))
                  \<and> (v = JNull \<or> v = JUndefined)
                  \<and> (isExtractionCall (c, Threw (Thrown v)) \<or> isWatermarkWrite (c, Threw (Thrown v)))
                  \<and> errorMessage (Thrown v) = Inl e'))
      \<and> ((\<forall>x \<in> set (newCalls st st'). isExtractionCall x \<or> isWatermarkWrite x \<longrightarrow> succeeded x)
           \<and> (\<forall>v. (GetSyncStatus (syncStatusKey job), RetVal v) \<in> set (newCalls st st')
                  \<longrightarrow> (\<exists>t. v = JDate t))
           \<and> (\<forall>c rows. (c, RetRows rows) \<in> set (newCalls st st')
                  \<longrightarrow> (\<forall>r \<in> set rows. hasKey job r \<or> serializable r))
         \<longrightarrow> (\<exists>r. out = Inr r \<and> success r))
      \<and> (\<forall>r. out = Inr r \<longrightarrow> success r \<or> (\<exists>msg. r = failedResult msg)))"
proof -
  have a: "0 < batchSize job \<longrightarrow> (\<exists>out st'. execute clock job st = Some (out, st'))"
    using execute_terminates [of job clock st] by blast
  have b: "last (newCalls st st') = x
           \<and> (\<forall>msg. errorMessage e = Inr msg \<longrightarrow> out = Inr (failedResult msg))
           \<and> (unreadable e \<longrightarrow> (\<exists>e'. errorMessage e = Inl e' \<and> out = Inl e'))"
    if x: "execute clock job st = Some (out, st')"
    and h: "x \<in> set (newCalls st st') \<and> (isExtractionCall x \<or> isWatermarkWrite x)
                \<and> snd x = Threw e"
    for out st' x e
  proof -
    from h have h1: "x \<in> set (newCalls st st')" and h2: "isExtractionCall x \<or> isWatermarkWrite x"
      and h3: "snd x = Threw e" by simp_all
    from execute_thrown_by_call [OF x h1 h2 h3]
    have o: "out = execute_catch e" and l: "last (newCalls st st') = x" by simp_all
    have r: "\<forall>msg. errorMessage e = Inr msg \<longrightarrow> out = Inr (failedResult msg)"
      using o execute_catch_readable by blast
    have u: "unreadable e \<longrightarrow> (\<exists>e'. errorMessage e = Inl e' \<and> out = Inl e')"
      using o errorMessage_unreadable [of e] execute_catch_unreadable by blast
    from l r u show ?thesis by (intro conjI)
  qed
  have c: "\<exists>c v. newCalls st st' \<noteq> [] \<and> last (newCalls st st') = (c, Threw (Thrown v))
                  \<and> (v = JNull \<or> v = JUndefined)
                  \<and> (isExtractionCall (c, Threw (Thrown v)) \<or> isWatermarkWrite (c, Threw (Thrown v)))
                  \<and> errorMessage (Thrown v) = Inl e'"
    if "execute clock job st = Some (out, st')" "out = Inl e'" for out st' e'
    using execute_rejects_only [of clock job st e' st'] that by simp
  have d: "\<exists>r. out = Inr r \<and> success r"
    if "execute clock job st = Some (out, st')"
    and "(\<forall>x \<in> set (newCalls st st'). isExtractionCall x \<or> isWatermarkWrite x \<longrightarrow> succeeded x)
           \<and> (\<forall>v. (GetSyncStatus (syncStatusKey job), RetVal v) \<in> set (newCalls st st')
                  \<longrightarrow> (\<exists>t. v = JDate t))
           \<and> (\<forall>c rows. (c, RetRows rows) \<in> set (newCalls st st')
                  \<longrightarrow> (\<forall>r \<in> set rows. hasKey job r \<or> serializable r))"
    for out st'
    using execute_succeeds_when_reads_and_write_return [OF that(1)] that(2) by blast
  have e: "success r \<or> (\<exists>msg. r = failedResult msg)"
    if "execute clock job st = Some (out, st')" "out = Inr r" for out st' r
    using execute_result_kinds [of clock job st r st'] that by simp
  have all: "\<forall>out st'. execute clock job st = Some (out, st') \<longrightarrow>
        (\<forall>x e. x \<in> set (newCalls st st') \<and> (isExtractionCall x \<or> isWatermarkWrite x)
                \<and> snd x = Threw e \<longrightarrow>
             last (newCalls st st') = x
           \<and> (\<forall>msg. errorMessage e = Inr msg \<longrightarrow> out = Inr (failedResult msg))
           \<and> (unreadable e \<longrightarrow> (\<exists>e'. errorMessage e = Inl e' \<and> out = Inl e')))
      \<and> (\<forall>e'. out = Inl e' \<longrightarrow>
             (\<exists>c v. newCalls st st' \<noteq> [] \<and> last (newCalls st st') = (c, Threw (Thrown v))
                  \<and> (v = JNull \<or> v = JUndefined)
                  \<and> (isExtractionCall (c, Threw (Thrown v)) \<or> isWatermarkWrite (c, Threw (Thrown v)))
                  \<and> errorMessage (Thrown v) = Inl e'))
      \<and> ((\<forall>x \<in> set (newCalls st st'). isExtractionCall x \<or> isWatermarkWrite x \<longrightarrow> succeeded x)
           \<and> (\<forall>v. (GetSyncStatus (syncStatusKey job), RetVal v) \<in> set (newCalls st st')
                  \<longrightarrow> (\<exists>t. v = JDate t))
           \<and> (\<forall>c rows. (c, RetRows rows) \<in> set (newCalls st st')
                  \<longrightarrow> (\<forall>r \<in> set rows. hasKey job r \<or> serializable r))
         \<longrightarrow> (\<exists>r. out = Inr r \<and> success r))
      \<and> (\<forall>r. out = Inr r \<longrightarrow> success r \<or> (\<exists>msg. r = failedResult msg))"
  proof (intro allI impI conjI)
    fix out st' x e
    assume x: "execute clock job st = Some (out, st')"
      and h: "x \<in> set (newCalls st st') \<and> (isExtractionCall x \<or> isWatermarkWrite x)
                \<and> snd x = Threw e"
    note r = b [OF x h]
    from r show "last (newCalls st st') = x" by (rule conjunct1)
    {
      fix msg assume "errorMessage e = Inr msg"
      with r show "out = Inr (failedResult msg)" by blast
    }
    {
      assume "unreadable e"
      with r show "\<exists>e'. errorMessage e = Inl e' \<and> out = Inl e'" by blast
    }
  next
    fix out st' e'
    assume "execute clock job st = Some (out, st')" "out = Inl e'"
    then show "\<exists>c v. newCalls st st' \<noteq> [] \<and> last (newCalls st st') = (c, Threw (Thrown v))
                  \<and> (v = JNull \<or> v = JUndefined)
                  \<and> (isExtractionCall (c, Threw (Thrown v)) \<or> isWatermarkWrite (c, Threw (Thrown v)))
                  \<and> errorMessage (Thrown v) = Inl e'" by (rule c)
  next
    fix out st'
    assume "execute clock job st = Some (out, st')"
      and "(\<forall>x \<in> set (newCalls st st'). isExtractionCall x \<or> isWatermarkWrite x \<longrightarrow> succeeded x)
           \<and> (\<forall>v. (GetSyncStatus (syncStatusKey job), RetVal v) \<in> set (newCalls st st')
                  \<longrightarrow> (\<exists>t. v = JDate t))
           \<and> (\<forall>c rows. (c, RetRows rows) \<in> set (newCalls st st')
                  \<longrightarrow> (\<forall>r \<in> set rows. hasKey job r \<or> serializable r))"
    then show "\<exists>r. out = Inr r \<and> success r" by (rule d)
  next
    fix out st' r
    assume "execute clock job st = Some (out, st')" "out = Inr r"
    then show "success r \<or> (\<exists>msg. r = failedResult msg)" by (rule e)
  qed
  from a all show ?thesis by (rule conjI)
qed

text \<open>
  Claim C8, as stated, fails twice. An existence check that throws an \<open>Error\<close> is
  absorbed: the row is skipped and the run reports success, so that error is not
  turned into a failure result. And an extraction that throws \<open>null\<close> makes the
  \<open>catch\<close> block throw: \<open>execute\<close> throws and returns no result.
\<close>

theorem execute_absorbs_and_throws_counterexample:
  "map_option fst
     (execute wallClock (memJob ''orders'' ''orders_copy'' 10)
        (memStart [memRow (JStr ''locked'') (JStr ''one'') 5] []))
     = Some (Inr \<lparr>success = True, recordsProcessed = 0, recordsInserted = Some 0,
                  recordsUpdated = Some 0, duration = Some 0, error = None,
                  resultMessage = SyncSucceeded\<rparr>)
   \<and> map_option (calls \<circ> snd)
     (execute wallClock (memJob ''orders'' ''orders_copy'' 10)
        (memStart [memRow (JStr ''locked'') (JStr ''one'') 5] []))
     = Some [(GetSyncStatus ''orders_to_orders_copy'', RetVal (JDate 0)),
             (GetUpdatedRecords ''orders'' ''updated_at'' (JDate 0),
              RetRows [memRow (JStr ''locked'') (JStr ''one'') 5]),
             (Exists ''orders_copy'' ''id'' (JStr ''locked''), Threw (JsError ''lock wait timeout'')),
             (UpdateSyncStatus ''orders_to_orders_copy'' 1000, RetUnit)]
   \<and> map_option fst
     (execute wallClock (memJob ''void'' ''orders_copy'' 10) (memStart [] []))
     = Some (Inl (JsError ''Cannot read properties of null (reading 'message')''))
   \<and> map_option (calls \<circ> snd)
     (execute wallClock (memJob ''void'' ''orders_copy'' 10) (memStart [] []))
     = Some [(GetSyncStatus ''void_to_orders_copy'', RetVal (JDate 0)),
             (GetUpdatedRecords ''void'' ''updated_at'' (JDate 0), Threw (Thrown JNull))]"
proof -
  let ?J = "memJob ''orders'' ''orders_copy'' 10"
  let ?S = "memStart [memRow (JStr ''locked'') (JStr ''one'') 5] []"
  have bs: "0 < batchSize ?J" by (simp add: memJob_def)
  have a: "map_option fst (execute wallClock ?J ?S)
     = Some (Inr \<lparr>success = True, recordsProcessed = 0, recordsInserted = Some 0,
                  recordsUpdated = Some 0, duration = Some 0, error = None,
                  resultMessage = SyncSucceeded\<rparr>)"
    by (simp only: execute_def execute_try_def processBatches_chunks [OF bs])
       (simp add: mem_exec_simps mem_simps chunks_Nil chunks_Cons)
  have b: "map_option (calls \<circ> snd) (execute wallClock ?J ?S)
     = Some [(GetSyncStatus ''orders_to_orders_copy'', RetVal (JDate 0)),
             (GetUpdatedRecords ''orders'' ''updated_at'' (JDate 0),
              RetRows [memRow (JStr ''locked'') (JStr ''one'') 5]),
             (Exists ''orders_copy'' ''id'' (JStr ''locked''), Threw (JsError ''lock wait timeout'')),
             (UpdateSyncStatus ''orders_to_orders_copy'' 1000, RetUnit)]"
    by (simp only: execute_def execute_try_def processBatches_chunks [OF bs])
       (simp add: mem_exec_simps mem_simps chunks_Nil chunks_Cons)
  have c: "map_option fst
     (execute wallClock (memJob ''void'' ''orders_copy'' 10) (memStart [] []))
     = Some (Inl (JsError ''Cannot read properties of null (reading 'message')''))"
    by (simp add: mem_exec_simps mem_simps)
  have d: "map_option (calls \<circ> snd)
     (execute wallClock (memJob ''void'' ''orders_copy'' 10) (memStart [] []))
     = Some [(GetSyncStatus ''void_to_orders_copy'', RetVal (JDate 0)),
             (GetUpdatedRecords ''void'' ''updated_at'' (JDate 0), Threw (Thrown JNull))]"
    by (simp add: mem_exec_simps mem_simps)
  show ?thesis by (rule conjI [OF a conjI [OF b conjI [OF c d]]])
qed

theorem execute_returns_unless_message_unreadable_witness:
  "0 < batchSize (memJob ''orders'' ''orders_copy'' 10)
   \<and> map_option fst
     (execute wallClock (memJob ''orders'' ''orders_copy'' 10)
        (memStart [memRow (JStr ''locked'') (JStr ''one'') 5, memRow (JNum 2) (JStr ''two'') 6] []))
     = Some (Inr \<lparr>success = True, recordsProcessed = 1, recordsInserted = Some 1,
                  recordsUpdated = Some 0, duration = Some 0, error = None,
                  resultMessage = SyncSucceeded\<rparr>)
   \<and> map_option (calls \<circ> snd)
     (execute wallClock (memJob ''orders'' ''orders_copy'' 10)
        (memStart [memRow (JStr ''locked'') (JStr ''one'') 5, memRow (JNum 2) (JStr ''two'') 6] []))
     = Some [(GetSyncStatus ''orders_to_orders_copy'', RetVal (JDate 0)),
             (GetUpdatedRecords ''orders'' ''updated_at'' (JDate 0),
              RetRows [memRow (JStr ''locked'') (JStr ''one'') 5, memRow (JNum 2) (JStr ''two'') 6]),
             (Exists ''orders_copy'' ''id'' (JStr ''locked''), Threw (JsError ''lock wait timeout'')),
             (Exists ''orders_copy'' ''id'' (JNum 2), RetBool False),
             (BatchInsert ''orders_copy'' [memRow (JNum 2) (JStr ''two'') 6], RetUnit),
             (UpdateSyncStatus ''orders_to_orders_copy'' 1000, RetUnit)]"
proof -
  let ?J = "memJob ''orders'' ''orders_copy'' 10"
  let ?R = "[memRow (JStr ''locked'') (JStr ''one'') 5, memRow (JNum 2) (JStr ''two'') 6]"
  let ?S = "memStart ?R []"
  let ?C = "[(GetSyncStatus ''orders_to_orders_copy'', RetVal (JDate 0)),
             (GetUpdatedRecords ''orders'' ''updated_at'' (JDate 0), RetRows ?R),
             (Exists ''orders_copy'' ''id'' (JStr ''locked''), Threw (JsError ''lock wait timeout'')),
             (Exists ''orders_copy'' ''id'' (JNum 2), RetBool False),
             (BatchInsert ''orders_copy'' [memRow (JNum 2) (JStr ''two'') 6], RetUnit),
             (UpdateSyncStatus ''orders_to_orders_copy'' 1000, RetUnit)]"
  have bs: "0 < batchSize ?J" by (simp add: memJob_def)
  have cs: "map_option (calls \<circ> snd) (execute wallClock ?J ?S) = Some ?C"
    by (simp only: execute_def execute_try_def processBatches_chunks [OF bs])
       (simp add: mem_exec_simps mem_simps chunks_Nil chunks_Cons)
  note t = execute_returns_unless_message_unreadable [of ?J wallClock ?S]
  from t [THEN conjunct1] bs obtain out st' where x: "execute wallClock ?J ?S = Some (out, st')"
    by blast
  from cs x have c: "calls st' = ?C" by simp
  have n: "newCalls ?S st' = ?C" by (simp add: newCalls_def c memStart_def)
  have p1: "\<forall>x \<in> set (newCalls ?S st'). isExtractionCall x \<or> isWatermarkWrite x \<longrightarrow> succeeded x"
    unfolding n by simp
  have p2: "\<forall>v. (GetSyncStatus (syncStatusKey ?J), RetVal v) \<in> set (newCalls ?S st')
                  \<longrightarrow> (\<exists>t. v = JDate t)"
    unfolding n by simp
  have k: "\<forall>r \<in> set ?R. hasKey ?J r \<or> serializable r"
    by (simp add: hasKey_def serializable_def mem_simps)
  have p3: "\<forall>c rows. (c, RetRows rows) \<in> set (newCalls ?S st')
                  \<longrightarrow> (\<forall>r \<in> set rows. hasKey ?J r \<or> serializable r)"
  proof (intro allI impI)
    fix c rows assume "(c, RetRows rows) \<in> set (newCalls ?S st')"
    then have "rows = ?R" unfolding n by simp
    with k show "\<forall>r \<in> set rows. hasKey ?J r \<or> serializable r" by simp
  qed
  note s = t [THEN conjunct2, rule_format, OF x, THEN conjunct2, THEN conjunct2, THEN conjunct1,
              rule_format, OF conjI [OF p1 conjI [OF p2 p3]]]
  from s obtain r where r: "out = Inr r" "success r" by blast
  have res: "map_option fst (execute wallClock ?J ?S)
     = Some (Inr \<lparr>success = True, recordsProcessed = 1, recordsInserted = Some 1,
                  recordsUpdated = Some 0, duration = Some 0, error = None,
                  resultMessage = SyncSucceeded\<rparr>)"
    by (simp only: execute_def execute_try_def processBatches_chunks [OF bs])
       (simp add: mem_exec_simps mem_simps chunks_Nil chunks_Cons)
  show ?thesis by (rule conjI [OF bs conjI [OF res cs]])
qed

section \<open>The watermark write\<close>

lemma execute_reconcile_threw:
  fixes st :: "'w run"
  assumes g: "getSyncStatus (targetAdapter job) (syncStatusKey job) (world st) = (Inr (JDate t), w1)"
      and u: "getUpdatedRecords (sourceAdapter job) (tableName job) (updateColumn job) (JDate t) w1
                = (Inr rows, w2)"
      and ne: "rows \<noteq> []"
      and pb: "processBatches job rows
                 \<lparr>world = w2,
                  calls = calls st @ [(GetSyncStatus (syncStatusKey job), RetVal (JDate t)),
                    (GetUpdatedRecords (tableName job) (updateColumn job) (JDate t), RetRows rows)]\<rparr>
                = Some (Inl e, st3)"
  shows "e = bigIntTypeError"
    and "execute clock job st
           = Some (Inr (failedResult (JStr ''Do not know how to serialize a BigInt'')), st3)"
    and "\<forall>y \<in> set (newCalls st st3). \<not> isWatermarkWrite y"
    and "readsPreserve obs job \<Longrightarrow> reconciliationPreserves obs job \<Longrightarrow>
           obs (world st3) = obs (world st)"
proof -
  let ?st2 = "\<lparr>world = w2,
               calls = calls st @ [(GetSyncStatus (syncStatusKey job), RetVal (JDate t)),
                 (GetUpdatedRecords (tableName job) (updateColumn job) (JDate t), RetRows rows)]\<rparr>"
  from processBatches_threw [OF pb] show e: "e = bigIntTypeError" by simp
  have "execute_try clock job (clock (world st)) st = Some (Inl e, st3)"
    using g u ne pb
    by (simp add: execute_try_def invoke_def syncStatusKey_def toISOString_def)
  then show "execute clock job st
           = Some (Inr (failedResult (JStr ''Do not know how to serialize a BigInt'')), st3)"
    by (simp add: execute_def e bigIntTypeError_def)
  from processBatches_calls [OF pb] obtain tr where
    tr: "calls st3 = calls ?st2 @ tr" "\<forall>x \<in> set tr. reconcileCall job rows x" by blast
  have n: "newCalls st st3 = [(GetSyncStatus (syncStatusKey job), RetVal (JDate t)),
          (GetUpdatedRecords (tableName job) (updateColumn job) (JDate t), RetRows rows)] @ tr"
    using tr(1) by (simp add: newCalls_def)
  from reconcile_calls_kinds [OF tr(2)] show "\<forall>y \<in> set (newCalls st st3). \<not> isWatermarkWrite y"
    unfolding n by auto
  show "obs (world st3) = obs (world st)"
    if r: "readsPreserve obs job" and p: "reconciliationPreserves obs job"
  proof -
    from processBatches_frame [OF pb p] have "obs (world st3) = obs w2" by simp
    also have "obs w2 = obs w1"
    proof -
      from r have "obs (snd (getUpdatedRecords (sourceAdapter job) (tableName job) (updateColumn job)
                     (JDate t) w1)) = obs w1"
        by (simp add: readsPreserve_def)
      with u show ?thesis by simp
    qed
    also have "obs w1 = obs (world st)"
    proof -
      from r have "obs (snd (getSyncStatus (targetAdapter job) (syncStatusKey job) (world st)))
                     = obs (world st)"
        by (simp add: readsPreserve_def)
      with g show ?thesis by simp
    qed
    finally show ?thesis .
  qed
qed

lemma execute_extraction_threw:
  assumes x: "execute clock job st = Some (out, st')"
      and h: "x \<in> set (newCalls st st')" "isExtractionCall x" "snd x = Threw e"
  shows "out = execute_catch e"
    and "\<forall>y \<in> set (newCalls st st'). \<not> isWatermarkWrite y"
    and "readsPreserve obs job \<Longrightarrow> obs (world st') = obs (world st)"
proof -
  from execute_thrown_by_call [OF x h(1) _ h(3)] h(2) show "out = execute_catch e" by simp
  have "(\<forall>y \<in> set (newCalls st st'). \<not> isWatermarkWrite y)
        \<and> (readsPreserve obs job \<longrightarrow> obs (world st') = obs (world st))"
    using x
  proof (cases rule: execute_run)
    case (readThrew e1)
    have "readsPreserve obs job \<longrightarrow> obs (world st') = obs (world st)"
      unfolding readThrew(3) by (simp add: readsPreserve_def)
    with readThrew(1) show ?thesis by simp
  next
    case (notDate v m)
    with h show ?thesis by auto
  next
    case (extractThrew t e1)
    have "readsPreserve obs job \<longrightarrow> obs (world st') = obs (world st)"
      unfolding extractThrew(3) by (simp add: readsPreserve_def)
    with extractThrew(1) show ?thesis by simp
  next
    case (noRows t)
    with h show ?thesis by auto
  next
    case (reconcileThrew t rows st2 tr)
    from reconcile_calls_kinds [OF reconcileThrew(6)] h(2) have "x \<notin> set tr" by blast
    with reconcileThrew(1) h show ?thesis by auto
  next
    case (writeThrew t rows st2 res st3 tr e1)
    from reconcile_calls_kinds [OF writeThrew(6)] h(2) have "x \<notin> set tr" by blast
    with writeThrew(1) h show ?thesis by auto
  next
    case (completed t rows st2 res st3 tr)
    from reconcile_calls_kinds [OF completed(6)] h(2) have "x \<notin> set tr" by blast
    with completed(1) h show ?thesis by auto
  qed
  then show "\<forall>y \<in> set (newCalls st st'). \<not> isWatermarkWrite y"
    and "readsPreserve obs job \<Longrightarrow> obs (world st') = obs (world st)"
    by simp_all
qed

lemma execute_watermark_write_last:
  assumes x: "execute clock job st = Some (out, st')"
      and y: "y \<in> set (newCalls st st')" "isWatermarkWrite y"
  shows "\<exists>t rows res st2 st3.
           newCalls st st' =
             [(GetSyncStatus (syncStatusKey job), RetVal (JDate t)),
              (GetUpdatedRecords (tableName job) (updateColumn job) (JDate t), RetRows rows)]
             @ newCalls st2 st3 @ [y]
           \<and> rows \<noteq> []
           \<and> processBatches job rows st2 = Some (Inr res, st3)
           \<and> fst y = UpdateSyncStatus (syncStatusKey job) (clock (world st3))
           \<and> (\<forall>z \<in> set (newCalls st2 st3). \<not> isWatermarkWrite z)"
  using x
proof (cases rule: execute_run)
  case (readThrew e)
  with y show ?thesis by auto
next
  case (notDate v m)
  with y show ?thesis by auto
next
  case (extractThrew t e)
  with y show ?thesis by auto
next
  case (noRows t)
  with y show ?thesis by auto
next
  case (reconcileThrew t rows st2 tr)
  from reconcile_calls_kinds [OF reconcileThrew(6)] y(2) have "y \<notin> set tr" by blast
  with reconcileThrew(1) y show ?thesis by auto
next
  case (writeThrew t rows st2 res st3 tr e)
  note k = reconcile_calls_kinds [OF writeThrew(6)]
  from k y(2) have "y \<notin> set tr" by blast
  with writeThrew(1) y have yy: "y = (UpdateSyncStatus (syncStatusKey job) (clock (world st3)), Threw e)"
    by auto
  show ?thesis
    apply (rule exI [of _ t], rule exI [of _ rows], rule exI [of _ res],
           rule exI [of _ st2], rule exI [of _ st3])
    using writeThrew(1-4) yy k by simp
next
  case (completed t rows st2 res st3 tr)
  note k = reconcile_calls_kinds [OF completed(6)]
  from k y(2) have "y \<notin> set tr" by blast
  with completed(1) y have yy: "y = (UpdateSyncStatus (syncStatusKey job) (clock (world st3)), RetUnit)"
    by auto
  show ?thesis
    apply (rule exI [of _ t], rule exI [of _ rows], rule exI [of _ res],
           rule exI [of _ st2], rule exI [of _ st3])
    using completed(1-4) yy k by simp
qed

lemma execute_failed_watermark:
  assumes x: "execute clock job st = Some (out, st')"
      and f: "\<not> (\<exists>r. out = Inr r \<and> success r)"
  shows "(\<forall>y \<in> set (newCalls st st'). \<not> isWatermarkWrite y)
       \<or> (\<exists>pre k t e. newCalls st st' = pre @ [(UpdateSyncStatus k t, Threw e)]
             \<and> out = execute_catch e
             \<and> (\<forall>y \<in> set pre. \<not> isWatermarkWrite y))"
  using x
proof (cases rule: execute_run)
  case (readThrew e)
  then show ?thesis by simp
next
  case (notDate v m)
  then show ?thesis by simp
next
  case (extractThrew t e)
  then show ?thesis by simp
next
  case (noRows t)
  then show ?thesis by simp
next
  case (reconcileThrew t rows st2 tr)
  from reconcile_calls_kinds [OF reconcileThrew(6)] reconcileThrew(1) show ?thesis by auto
next
  case (writeThrew t rows st2 res st3 tr e)
  note k = reconcile_calls_kinds [OF writeThrew(6)]
  have "\<exists>pre k t e'. newCalls st st' = pre @ [(UpdateSyncStatus k t, Threw e')]
             \<and> out = execute_catch e'
             \<and> (\<forall>y \<in> set pre. \<not> isWatermarkWrite y)"
    apply (rule exI [of _ "[(GetSyncStatus (syncStatusKey job), RetVal (JDate t)),
          (GetUpdatedRecords (tableName job) (updateColumn job) (JDate t), RetRows rows)] @ tr"],
        rule exI [of _ "syncStatusKey job"], rule exI [of _ "clock (world st3)"], rule exI [of _ e])
    using writeThrew(1,5) k by simp
  then show ?thesis by (rule disjI2)
next
  case (completed t rows st2 res st3 tr)
  with f show ?thesis by simp
qed

text \<open>
  Claim C1, as amended. In every execution that returns or throws: when the watermark
  read or the extraction throws, no call writes the watermark, whatever the two reads
  leave alone (the stored watermark, for one) is as it was before the run, and the
  error is caught; \<open>execute\<close> then returns the failure result that carries the message
  of the error, unless the thrown value is \<open>null\<close> or \<open>undefined\<close>, whose message
  cannot be read, in which case \<open>execute\<close> throws. When the reconciliation of the
  extracted rows throws, the run ends there: no call writes the watermark, what the
  reads and the reconciliation leave alone is as it was, and \<open>execute\<close> returns the
  failure result with the message of that error, which is an \<open>Error\<close> object. A call that writes the watermark is
  the last call of the run and comes after the reconciliation of all extracted rows has
  returned, and the reconciliation itself never writes it. A run that does not report
  success either made no watermark write at all, or its last call was the watermark
  write that threw the error it was caught with.
\<close>

theorem watermark_written_only_after_reconciliation:
  assumes "execute clock job st = Some (out, st')"
  shows "(\<forall>x e. x \<in> set (newCalls st st') \<and> isExtractionCall x \<and> snd x = Threw e \<longrightarrow>
            (\<forall>msg. errorMessage e = Inr msg \<longrightarrow> out = Inr (failedResult msg))
          \<and> (unreadable e \<longrightarrow> (\<exists>e'. errorMessage e = Inl e' \<and> out = Inl e'))
          \<and> (\<forall>y \<in> set (newCalls st st'). \<not> isWatermarkWrite y)
          \<and> (\<forall>obs. readsPreserve obs job \<longrightarrow> obs (world st') = obs (world st)))
       \<and> (\<forall>t w1 rows w2 e st3.
            getSyncStatus (targetAdapter job) (syncStatusKey job) (world st) = (Inr (JDate t), w1)
          \<and> getUpdatedRecords (sourceAdapter job) (tableName job) (updateColumn job) (JDate t) w1
              = (Inr rows, w2)
          \<and> rows \<noteq> []
          \<and> processBatches job rows
              \<lparr>world = w2,
               calls = calls st @ [(GetSyncStatus (syncStatusKey job), RetVal (JDate t)),
                 (GetUpdatedRecords (tableName job) (updateColumn job) (JDate t), RetRows rows)]\<rparr>
              = Some (Inl e, st3)
          \<longrightarrow>
            st' = st3 \<and> out = execute_catch e
          \<and> (\<exists>m. e = JsError m \<and> out = Inr (failedResult (JStr m)))
          \<and> (\<forall>y \<in> set (newCalls st st'). \<not> isWatermarkWrite y)
          \<and> (\<forall>obs. readsPreserve obs job \<and> reconciliationPreserves obs job
                 \<longrightarrow> obs (world st') = obs (world st)))
       \<and> (\<forall>y \<in> set (newCalls st st'). isWatermarkWrite y \<longrightarrow>
            (\<exists>t rows res st2 st3.
               newCalls st st' =
                 [(GetSyncStatus (syncStatusKey job), RetVal (JDate t)),
                  (GetUpdatedRecords (tableName job) (updateColumn job) (JDate t), RetRows rows)]
                 @ newCalls st2 st3 @ [y]
               \<and> rows \<noteq> []
               \<and> processBatches job rows st2 = Some (Inr res, st3)
               \<and> fst y = UpdateSyncStatus (syncStatusKey job) (clock (world st3))
               \<and> (\<forall>z \<in> set (newCalls st2 st3). \<not> isWatermarkWrite z)))
       \<and> (\<not> (\<exists>r. out = Inr r \<and> success r) \<longrightarrow>
            (\<forall>y \<in> set (newCalls st st'). \<not> isWatermarkWrite y)
            \<or> (\<exists>pre k t e. newCalls st st' = pre @ [(UpdateSyncStatus k t, Threw e)]
                  \<and> out = execute_catch e
                  \<and> (\<forall>y \<in> set pre. \<not> isWatermarkWrite y)))"
proof -
  have a: "\<forall>x e. x \<in> set (newCalls st st') \<and> isExtractionCall x \<and> snd x = Threw e \<longrightarrow>
            (\<forall>msg. errorMessage e = Inr msg \<longrightarrow> out = Inr (failedResult msg))
          \<and> (unreadable e \<longrightarrow> (\<exists>e'. errorMessage e = Inl e' \<and> out = Inl e'))
          \<and> (\<forall>y \<in> set (newCalls st st'). \<not> isWatermarkWrite y)
          \<and> (\<forall>obs. readsPreserve obs job \<longrightarrow> obs (world st') = obs (world st))"
  proof (intro allI impI, elim conjE)
    fix x e
    assume h: "x \<in> set (newCalls st st')" "isExtractionCall x" "snd x = Threw e"
    note r = execute_extraction_threw [OF assms h]
    have 1: "\<forall>msg. errorMessage e = Inr msg \<longrightarrow> out = Inr (failedResult msg)"
      using r(1) execute_catch_readable by blast
    have 2: "unreadable e \<longrightarrow> (\<exists>e'. errorMessage e = Inl e' \<and> out = Inl e')"
      using r(1) errorMessage_unreadable [of e] execute_catch_unreadable by blast
    have 4: "\<forall>obs. readsPreserve obs job \<longrightarrow> obs (world st') = obs (world st)"
      using r(3) by blast
    from 1 2 r(2) 4
    show "(\<forall>msg. errorMessage e = Inr msg \<longrightarrow> out = Inr (failedResult msg))
          \<and> (unreadable e \<longrightarrow> (\<exists>e'. errorMessage e = Inl e' \<and> out = Inl e'))
          \<and> (\<forall>y \<in> set (newCalls st st'). \<not> isWatermarkWrite y)
          \<and> (\<forall>obs. readsPreserve obs job \<longrightarrow> obs (world st') = obs (world st))"
      by (intro conjI)
  qed
  have b: "\<forall>t w1 rows w2 e st3.
            getSyncStatus (targetAdapter job) (syncStatusKey job) (world st) = (Inr (JDate t), w1)
          \<and> getUpdatedRecords (sourceAdapter job) (tableName job) (updateColumn job) (JDate t) w1
              = (Inr rows, w2)
          \<and> rows \<noteq> []
          \<and> processBatches job rows
              \<lparr>world = w2,
               calls = calls st @ [(GetSyncStatus (syncStatusKey job), RetVal (JDate t)),
                 (GetUpdatedRecords (tableName job) (updateColumn job) (JDate t), RetRows rows)]\<rparr>
              = Some (Inl e, st3)
          \<longrightarrow>
            st' = st3 \<and> out = execute_catch e
          \<and> (\<exists>m. e = JsError m \<and> out = Inr (failedResult (JStr m)))
          \<and> (\<forall>y \<in> set (newCalls st st'). \<not> isWatermarkWrite y)
          \<and> (\<forall>obs. readsPreserve obs job \<and> reconciliationPreserves obs job
                 \<longrightarrow> obs (world st') = obs (world st))"
  proof (intro allI impI, elim conjE)
    fix t w1 rows w2 e st3
    assume g: "getSyncStatus (targetAdapter job) (syncStatusKey job) (world st) = (Inr (JDate t), w1)"
      and u: "getUpdatedRecords (sourceAdapter job) (tableName job) (updateColumn job) (JDate t) w1
                = (Inr rows, w2)"
      and ne: "rows \<noteq> []"
      and pb: "processBatches job rows
                 \<lparr>world = w2,
                  calls = calls st @ [(GetSyncStatus (syncStatusKey job), RetVal (JDate t)),
                    (GetUpdatedRecords (tableName job) (updateColumn job) (JDate t), RetRows rows)]\<rparr>
                = Some (Inl e, st3)"
    note r = execute_reconcile_threw [OF g u ne pb]
    from r(2) [of clock] assms
    have 1: "st' = st3" and o: "out = Inr (failedResult (JStr ''Do not know how to serialize a BigInt''))"
      by simp_all
    have 2: "out = execute_catch e" using o r(1) by (simp add: bigIntTypeError_def)
    have 3: "\<exists>m. e = JsError m \<and> out = Inr (failedResult (JStr m))"
      using o r(1) by (simp add: bigIntTypeError_def)
    have 4: "\<forall>y \<in> set (newCalls st st'). \<not> isWatermarkWrite y" using r(3) 1 by simp
    have 5: "\<forall>obs. readsPreserve obs job \<and> reconciliationPreserves obs job
                 \<longrightarrow> obs (world st') = obs (world st)"
      using r(4) 1 by blast
    from 1 2 3 4 5
    show "st' = st3 \<and> out = execute_catch e
          \<and> (\<exists>m. e = JsError m \<and> out = Inr (failedResult (JStr m)))
          \<and> (\<forall>y \<in> set (newCalls st st'). \<not> isWatermarkWrite y)
          \<and> (\<forall>obs. readsPreserve obs job \<and> reconciliationPreserves obs job
                 \<longrightarrow> obs (world st') = obs (world st))"
      by (intro conjI)
  qed
  have c: "\<forall>y \<in> set (newCalls st st'). isWatermarkWrite y \<longrightarrow>
            (\<exists>t rows res st2 st3.
               newCalls st st' =
                 [(GetSyncStatus (syncStatusKey job), RetVal (JDate t)),
                  (GetUpdatedRecords (tableName job) (updateColumn job) (JDate t), RetRows rows)]
                 @ newCalls st2 st3 @ [y]
               \<and> rows \<noteq> []
               \<and> processBatches job rows st2 = Some (Inr res, st3)
               \<and> fst y = UpdateSyncStatus (syncStatusKey job) (clock (world st3))
               \<and> (\<forall>z \<in> set (newCalls st2 st3). \<not> isWatermarkWrite z))"
    using execute_watermark_write_last [OF assms] by blast
  have d: "\<not> (\<exists>r. out = Inr r \<and> success r) \<longrightarrow>
            (\<forall>y \<in> set (newCalls st st'). \<not> isWatermarkWrite y)
            \<or> (\<exists>pre k t e. newCalls st st' = pre @ [(UpdateSyncStatus k t, Threw e)]
                  \<and> out = execute_catch e
                  \<and> (\<forall>y \<in> set pre. \<not> isWatermarkWrite y))"
    using execute_failed_watermark [OF assms] by blast
  show ?thesis by (rule conjI [OF a conjI [OF b conjI [OF c d]]])
qed

text \<open>
  Claim C1, as stated, fails where it says that \<open>execute\<close> returns a failure result
  whenever the extraction throws. Here the extraction throws \<open>null\<close>: no watermark is
  written, but the \<open>catch\<close> block throws on \<open>error.message\<close>, and \<open>execute\<close> throws
  instead of returning a result.
\<close>

theorem extraction_throwing_null_counterexample:
  "map_option fst
     (execute wallClock (memJob ''void'' ''orders_copy'' 10)
        \<lparr>world = \<lparr>sourceRows = [], targetKeys = [],
                   watermarks = [(''void_to_orders_copy'', 500)], wallClock = 1000\<rparr>,
         calls = []\<rparr>)
     = Some (Inl (JsError ''Cannot read properties of null (reading 'message')''))
   \<and> map_option (calls \<circ> snd)
     (execute wallClock (memJob ''void'' ''orders_copy'' 10)
        \<lparr>world = \<lparr>sourceRows = [], targetKeys = [],
                   watermarks = [(''void_to_orders_copy'', 500)], wallClock = 1000\<rparr>,
         calls = []\<rparr>)
     = Some [(GetSyncStatus ''void_to_orders_copy'', RetVal (JDate 500)),
             (GetUpdatedRecords ''void'' ''updated_at'' (JDate 500), Threw (Thrown JNull))]"
proof -
  have a: "map_option fst
     (execute wallClock (memJob ''void'' ''orders_copy'' 10)
        \<lparr>world = \<lparr>sourceRows = [], targetKeys = [],
                   watermarks = [(''void_to_orders_copy'', 500)], wallClock = 1000\<rparr>,
         calls = []\<rparr>)
     = Some (Inl (JsError ''Cannot read properties of null (reading 'message')''))"
    by (simp add: mem_exec_simps mem_simps)
  have b: "map_option (calls \<circ> snd)
     (execute wallClock (memJob ''void'' ''orders_copy'' 10)
        \<lparr>world = \<lparr>sourceRows = [], targetKeys = [],
                   watermarks = [(''void_to_orders_copy'', 500)], wallClock = 1000\<rparr>,
         calls = []\<rparr>)
     = Some [(GetSyncStatus ''void_to_orders_copy'', RetVal (JDate 500)),
             (GetUpdatedRecords ''void'' ''updated_at'' (JDate 500), Threw (Thrown JNull))]"
    by (simp add: mem_exec_simps mem_simps)
  show ?thesis by (rule conjI [OF a b])
qed

theorem watermark_written_only_after_reconciliation_witness:
  "map_option fst
     (execute wallClock (memJob ''orders'' ''orders_copy'' 10)
        \<lparr>world = \<lparr>sourceRows = [memBigRow (JNum 1) 2 5, memBigRow JNull 3 6], targetKeys = [],
                   watermarks = [(''orders_to_orders_copy'', 3)], wallClock = 1000\<rparr>,
         calls = []\<rparr>)
     = Some (Inr (failedResult (JStr ''Do not know how to serialize a BigInt'')))
   \<and> map_option (map fst \<circ> calls \<circ> snd)
     (execute wallClock (memJob ''orders'' ''orders_copy'' 10)
        \<lparr>world = \<lparr>sourceRows = [memBigRow (JNum 1) 2 5, memBigRow JNull 3 6], targetKeys = [],
                   watermarks = [(''orders_to_orders_copy'', 3)], wallClock = 1000\<rparr>,
         calls = []\<rparr>)
     = Some [GetSyncStatus ''orders_to_orders_copy'',
             GetUpdatedRecords ''orders'' ''updated_at'' (JDate 3),
             Exists ''orders_copy'' ''id'' (JNum 1)]
   \<and> map_option (watermarks \<circ> world \<circ> snd)
     (execute wallClock (memJob ''orders'' ''orders_copy'' 10)
        \<lparr>world = \<lparr>sourceRows = [memBigRow (JNum 1) 2 5, memBigRow JNull 3 6], targetKeys = [],
                   watermarks = [(''orders_to_orders_copy'', 3)], wallClock = 1000\<rparr>,
         calls = []\<rparr>)
     = Some [(''orders_to_orders_copy'', 3)]"
proof -
  let ?J = "memJob ''orders'' ''orders_copy'' 10"
  let ?R = "[memBigRow (JNum 1) 2 5, memBigRow JNull 3 6]"
  let ?W = "\<lparr>sourceRows = ?R, targetKeys = [],
                   watermarks = [(''orders_to_orders_copy'', 3)], wallClock = 1000\<rparr>"
  let ?S = "\<lparr>world = ?W, calls = []\<rparr>"
  let ?a = "(GetSyncStatus ''orders_to_orders_copy'', RetVal (JDate 3))"
  let ?b = "(GetUpdatedRecords ''orders'' ''updated_at'' (JDate 3), RetRows ?R)"
  let ?c = "(Exists ''orders_copy'' ''id'' (JNum 1), RetBool False)"
  let ?S3 = "\<lparr>world = ?W, calls = [?a, ?b, ?c]\<rparr>"
  let ?F = "failedResult (JStr ''Do not know how to serialize a BigInt'')"
  have bs: "0 < batchSize ?J" by (simp add: memJob_def)
  have ev: "execute wallClock ?J ?S = Some (Inr ?F, ?S3)"
    by (simp only: execute_def execute_try_def processBatches_chunks [OF bs])
       (simp add: mem_exec_simps mem_simps chunks_Nil chunks_Cons)
  have g: "getSyncStatus (targetAdapter ?J) (syncStatusKey ?J) (world ?S) = (Inr (JDate 3), ?W)"
    by (simp add: memJob_def memAdapter_def syncStatusKey_def)
  have u: "getUpdatedRecords (sourceAdapter ?J) (tableName ?J) (updateColumn ?J) (JDate 3) ?W
             = (Inr ?R, ?W)"
    by (simp add: mem_simps)
  have ne: "?R \<noteq> []" by simp
  have pb: "processBatches ?J ?R
              \<lparr>world = ?W,
               calls = calls ?S @ [(GetSyncStatus (syncStatusKey ?J), RetVal (JDate 3)),
                 (GetUpdatedRecords (tableName ?J) (updateColumn ?J) (JDate 3), RetRows ?R)]\<rparr>
              = Some (Inl bigIntTypeError, ?S3)"
    by (simp only: processBatches_chunks [OF bs])
       (simp add: mem_simps syncStatusKey_def chunks_Nil chunks_Cons)
  have rp: "readsPreserve watermarks ?J \<and> reconciliationPreserves watermarks ?J"
    by (simp add: readsPreserve_def reconciliationPreserves_def memJob_def memAdapter_def)
  note t = watermark_written_only_after_reconciliation [OF ev, THEN conjunct2, THEN conjunct1,
             rule_format, OF conjI [OF g conjI [OF u conjI [OF ne pb]]]]
  from t have "\<forall>obs. readsPreserve obs ?J \<and> reconciliationPreserves obs ?J
                 \<longrightarrow> obs (world ?S3) = obs (world ?S)"
    by (elim conjE)
  with rp have w: "watermarks (world ?S3) = watermarks (world ?S)" by blast
  have r1: "map_option fst (execute wallClock ?J ?S) = Some (Inr ?F)" using ev by simp
  have r2: "map_option (map fst \<circ> calls \<circ> snd) (execute wallClock ?J ?S)
     = Some [GetSyncStatus ''orders_to_orders_copy'',
             GetUpdatedRecords ''orders'' ''updated_at'' (JDate 3),
             Exists ''orders_copy'' ''id'' (JNum 1)]"
    using ev by simp
  have r3: "map_option (watermarks \<circ> world \<circ> snd) (execute wallClock ?J ?S)
     = Some [(''orders_to_orders_copy'', 3)]"
    using ev w by simp
  show ?thesis by (rule conjI [OF r1 conjI [OF r2 r3]])
qed

section \<open>A run whose extraction is empty\<close>





section \<open>The watermark read that swallows its error\<close>

lemma mariadb_getSyncStatus_swallows:
  "(\<forall>e. fst (mariadb_getSyncStatus pool key w) \<noteq> Inl e)
   \<and> (\<forall>e. fst (mariadb_query pool ''SELECT last_sync_time FROM sync_status WHERE table_name = ?''
                  [JStr key] w) = Inl e \<longrightarrow>
          fst (mariadb_getSyncStatus pool key w) = Inr (JDate 0))"
  by (auto simp: mariadb_getSyncStatus_def split: prod.splits sum.splits)

lemma mssql_getSyncStatus_swallows:
  "(\<forall>e. fst (mssql_getSyncStatus mpool key w) \<noteq> Inl e)
   \<and> (mpool = None \<longrightarrow> fst (mssql_getSyncStatus mpool key w) = Inr (JDate 0))
   \<and> (\<forall>q e. mpool = Some q
          \<and> fst (q ''SELECT last_sync_time FROM sync_status WHERE table_name = @tableName''
                  [(''tableName'', JStr key)] w) = Inl e \<longrightarrow>
          fst (mssql_getSyncStatus mpool key w) = Inr (JDate 0))"
  by (auto simp: mssql_getSyncStatus_def split: prod.splits sum.splits option.splits)

lemma execute_first_call:
  assumes x: "execute clock job st = Some (out, st')"
  shows "\<exists>rest. newCalls st st'
           = (GetSyncStatus (syncStatusKey job),
              (case fst (getSyncStatus (targetAdapter job) (syncStatusKey job) (world st)) of
                 Inl e \<Rightarrow> Threw e | Inr v \<Rightarrow> RetVal v)) # rest"
proof (cases rule: execute_cases [of job st clock])
  case (readThrew e s1)
  with x show ?thesis by (simp add: newCalls_def)
next
  case (notDate v m s1)
  with x show ?thesis by (simp add: newCalls_def)
next
  case (extractThrew t e s1 s2)
  with x show ?thesis by (simp add: newCalls_def)
next
  case (noRows t s1 s2)
  with x show ?thesis by (simp add: newCalls_def)
next
  case (diverges t rows s1 s2)
  with x show ?thesis by simp
next
  case (reconcileThrew t rows s1 s2 s3)
  from processBatches_calls [OF reconcileThrew(5)] obtain tr where
    "calls s3 = calls s2 @ tr" by blast
  with x reconcileThrew(1,3,7) show ?thesis by (simp add: newCalls_def)
next
  case (writeThrew t rows s1 s2 res s3 e s4)
  from processBatches_calls [OF writeThrew(5)] obtain tr where
    "calls s3 = calls s2 @ tr" by blast
  with x writeThrew(1,3,7,9) show ?thesis by (simp add: newCalls_def)
next
  case (completed t rows s1 s2 res s3 s4)
  from processBatches_calls [OF completed(5)] obtain tr where
    tr: "calls s3 = calls s2 @ tr" by blast
  from x completed have "st' = s4" by simp
  with tr completed(1,3,7) show ?thesis by (simp add: newCalls_def)
qed

lemma execute_after_epoch_read:
  assumes g: "fst (getSyncStatus (targetAdapter job) (syncStatusKey job) (world st)) = Inr (JDate 0)"
      and x: "execute clock job st = Some (out, st')"
  shows "\<exists>rp rest. newCalls st st'
             = (GetSyncStatus (syncStatusKey job), RetVal (JDate 0))
               # (GetUpdatedRecords (tableName job) (updateColumn job) (JDate 0), rp) # rest
           \<and> ((\<exists>r. out = Inr r \<and> success r)
              \<or> (\<exists>e. out = execute_catch e
                  \<and> (rp = Threw e
                      \<or> (rest \<noteq> [] \<and> (\<exists>k t. last rest = (UpdateSyncStatus k t, Threw e)))))
              \<or> (\<exists>rows st2. rp = RetRows rows \<and> rows \<noteq> []
                  \<and> processBatches job rows st2 = Some (Inl bigIntTypeError, st')
                  \<and> rest = newCalls st2 st'
                  \<and> out = Inr (failedResult (JStr ''Do not know how to serialize a BigInt''))))
           \<and> (\<forall>rows. rp = RetRows rows \<and> rows \<noteq> [] \<longrightarrow>
                 (\<exists>res st2 st3. processBatches job rows st2 = Some (res, st3)
                    \<and> ((\<exists>r y. res = Inr r \<and> rest = newCalls st2 st3 @ [y] \<and> isWatermarkWrite y)
                       \<or> (res = Inl bigIntTypeError \<and> rest = newCalls st2 st3
                           \<and> (\<exists>R \<in> set rows. \<not> hasKey job R \<and> \<not> serializable R)))))"
  using x
proof (cases rule: execute_run)
  case (readThrew e)
  from execute_first_call [OF x] readThrew(1) g show ?thesis by auto
next
  case (notDate v m)
  from execute_first_call [OF x] notDate(1,2) g show ?thesis by (auto simp: toISOString_def)
next
  case (extractThrew t e)
  from execute_first_call [OF x] extractThrew(1) g have t: "t = 0" by auto
  show ?thesis unfolding extractThrew(1,2) t
    apply (rule exI [of _ "Threw e"], rule exI [of _ "[]"])
    by auto
next
  case (noRows t)
  from execute_first_call [OF x] noRows(1) g have t: "t = 0" by auto
  show ?thesis unfolding noRows(1,2) t
    apply (rule exI [of _ "RetRows []"], rule exI [of _ "[]"])
    by simp
next
  case (reconcileThrew t rows st2 tr)
  from execute_first_call [OF x] reconcileThrew(1) g have t: "t = 0" by auto
  have b: "\<exists>res s2 s3. processBatches job rows s2 = Some (res, s3)
             \<and> ((\<exists>r y. res = Inr r \<and> tr = newCalls s2 s3 @ [y] \<and> isWatermarkWrite y)
                \<or> (res = Inl bigIntTypeError \<and> tr = newCalls s2 s3
                    \<and> (\<exists>R \<in> set rows. \<not> hasKey job R \<and> \<not> serializable R)))"
    apply (rule exI [of _ "Inl bigIntTypeError"], rule exI [of _ st2], rule exI [of _ st'])
    using reconcileThrew(2,4,7) by simp
  have a: "\<exists>rows' s2. RetRows rows = RetRows rows' \<and> rows' \<noteq> []
                  \<and> processBatches job rows' s2 = Some (Inl bigIntTypeError, st')
                  \<and> tr = newCalls s2 st'
                  \<and> out = Inr (failedResult (JStr ''Do not know how to serialize a BigInt''))"
    apply (rule exI [of _ rows], rule exI [of _ st2])
    using reconcileThrew(2,3,4,5) by simp
  show ?thesis unfolding reconcileThrew(1) t
    apply (rule exI [of _ "RetRows rows"], rule exI [of _ tr])
    using a b by simp
next
  case (writeThrew t rows st2 res st3 tr e)
  from execute_first_call [OF x] writeThrew(1) g have t: "t = 0" by auto
  let ?y = "(UpdateSyncStatus (syncStatusKey job) (clock (world st3)), Threw e)"
  have a: "\<exists>e'. out = execute_catch e'
             \<and> (RetRows rows = Threw e'
                 \<or> (tr @ [?y] \<noteq> [] \<and> (\<exists>k t. last (tr @ [?y]) = (UpdateSyncStatus k t, Threw e'))))"
    using writeThrew(5) by (intro exI [of _ e]) simp
  have b: "\<exists>res s2 s3. processBatches job rows s2 = Some (res, s3)
             \<and> ((\<exists>r y. res = Inr r \<and> tr @ [?y] = newCalls s2 s3 @ [y] \<and> isWatermarkWrite y)
                \<or> (res = Inl bigIntTypeError \<and> tr @ [?y] = newCalls s2 s3
                    \<and> (\<exists>R \<in> set rows. \<not> hasKey job R \<and> \<not> serializable R)))"
    apply (rule exI [of _ "Inr res"], rule exI [of _ st2], rule exI [of _ st3])
    using writeThrew(2,4) by simp
  show ?thesis unfolding writeThrew(1) t
    apply (rule exI [of _ "RetRows rows"], rule exI [of _ "tr @ [?y]"])
    using a b by simp
next
  case (completed t rows st2 res st3 tr)
  from execute_first_call [OF x] completed(1) g have t: "t = 0" by auto
  let ?y = "(UpdateSyncStatus (syncStatusKey job) (clock (world st3)), RetUnit)"
  have a: "\<exists>r. out = Inr r \<and> success r" using completed(5) by simp
  have b: "\<exists>res s2 s3. processBatches job rows s2 = Some (res, s3)
             \<and> ((\<exists>r y. res = Inr r \<and> tr @ [?y] = newCalls s2 s3 @ [y] \<and> isWatermarkWrite y)
                \<or> (res = Inl bigIntTypeError \<and> tr @ [?y] = newCalls s2 s3
                    \<and> (\<exists>R \<in> set rows. \<not> hasKey job R \<and> \<not> serializable R)))"
    apply (rule exI [of _ "Inr res"], rule exI [of _ st2], rule exI [of _ st3])
    using completed(2,4) by simp
  show ?thesis unfolding completed(1) t
    apply (rule exI [of _ "RetRows rows"], rule exI [of _ "tr @ [?y]"])
    using a b by simp
qed

text \<open>
  Claim C10, as amended. \<open>getSyncStatus\<close> of the MariaDB adapter and of the MSSQL
  adapter never throws: when the statement fails, or the adapter has no pool, the error
  is swallowed and the epoch \<open>new Date(0)\<close> is returned. A job whose target adapter
  reads the watermark this way and whose read fails does not fail at the read: its
  first call is the read, answered by the epoch, its second is the extraction since the
  epoch, and every row the extraction returns is handed to the reconciliation. When the
  reconciliation returns, the watermark write follows it; it throws only on a row
  without a key that cannot be serialised for the log, and the run ends there with the
  failure result. The run reports success unless the extraction, the reconciliation or
  the watermark write itself throws; \<open>execute\<close> throws only when the value thrown by
  the extraction or the write has no readable message.
\<close>

theorem watermark_read_failure_means_epoch:
  "(\<forall>e. fst (mariadb_getSyncStatus pool key w) \<noteq> Inl e)
   \<and> (\<forall>e. fst (mssql_getSyncStatus mpool key w) \<noteq> Inl e)
   \<and> (\<forall>e. fst (mariadb_query pool ''SELECT last_sync_time FROM sync_status WHERE table_name = ?''
                  [JStr key] w) = Inl e \<longrightarrow>
          fst (mariadb_getSyncStatus pool key w) = Inr (JDate 0))
   \<and> (mpool = None \<longrightarrow> fst (mssql_getSyncStatus mpool key w) = Inr (JDate 0))
   \<and> (\<forall>q e. mpool = Some q
          \<and> fst (q ''SELECT last_sync_time FROM sync_status WHERE table_name = @tableName''
                  [(''tableName'', JStr key)] w) = Inl e \<longrightarrow>
          fst (mssql_getSyncStatus mpool key w) = Inr (JDate 0))
   \<and> (\<forall>out st'. execute clock job st = Some (out, st')
          \<and> ((getSyncStatus (targetAdapter job) = mariadb_getSyncStatus pool
               \<and> (\<exists>e. fst (mariadb_query pool
                            ''SELECT last_sync_time FROM sync_status WHERE table_name = ?''
                            [JStr (syncStatusKey job)] (world st)) = Inl e))
              \<or> (getSyncStatus (targetAdapter job) = mssql_getSyncStatus mpool
                  \<and> (mpool = None
                      \<or> (\<exists>q e. mpool = Some q
                            \<and> fst (q ''SELECT last_sync_time FROM sync_status WHERE table_name = @tableName''
                                    [(''tableName'', JStr (syncStatusKey job))] (world st)) = Inl e))))
        \<longrightarrow>
          (\<exists>rp rest. newCalls st st'
             = (GetSyncStatus (syncStatusKey job), RetVal (JDate 0))
               # (GetUpdatedRecords (tableName job) (updateColumn job) (JDate 0), rp) # rest
           \<and> ((\<exists>r. out = Inr r \<and> success r)
              \<or> (\<exists>e. out = execute_catch e
                  \<and> (rp = Threw e
                      \<or> (rest \<noteq> [] \<and> (\<exists>k t. last rest = (UpdateSyncStatus k t, Threw e)))))
              \<or> (\<exists>rows st2. rp = RetRows rows \<and> rows \<noteq> []
                  \<and> processBatches job rows st2 = Some (Inl bigIntTypeError, st')
                  \<and> rest = newCalls st2 st'
                  \<and> out = Inr (failedResult (JStr ''Do not know how to serialize a BigInt''))))
           \<and> (\<forall>rows. rp = RetRows rows \<and> rows \<noteq> [] \<longrightarrow>
                 (\<exists>res st2 st3. processBatches job rows st2 = Some (res, st3)
                    \<and> ((\<exists>r y. res = Inr r \<and> rest = newCalls st2 st3 @ [y] \<and> isWatermarkWrite y)
                       \<or> (res = Inl bigIntTypeError \<and> rest = newCalls st2 st3
                           \<and> (\<exists>R \<in> set rows. \<not> hasKey job R \<and> \<not> serializable R)))))))"
proof -
  note m = mariadb_getSyncStatus_swallows [of pool key w]
  note s = mssql_getSyncStatus_swallows [of mpool key w]
  have j: "(\<exists>rp rest. newCalls st st'
             = (GetSyncStatus (syncStatusKey job), RetVal (JDate 0))
               # (GetUpdatedRecords (tableName job) (updateColumn job) (JDate 0), rp) # rest
           \<and> ((\<exists>r. out = Inr r \<and> success r)
              \<or> (\<exists>e. out = execute_catch e
                  \<and> (rp = Threw e
                      \<or> (rest \<noteq> [] \<and> (\<exists>k t. last rest = (UpdateSyncStatus k t, Threw e)))))
              \<or> (\<exists>rows st2. rp = RetRows rows \<and> rows \<noteq> []
                  \<and> processBatches job rows st2 = Some (Inl bigIntTypeError, st')
                  \<and> rest = newCalls st2 st'
                  \<and> out = Inr (failedResult (JStr ''Do not know how to serialize a BigInt''))))
           \<and> (\<forall>rows. rp = RetRows rows \<and> rows \<noteq> [] \<longrightarrow>
                 (\<exists>res st2 st3. processBatches job rows st2 = Some (res, st3)
                    \<and> ((\<exists>r y. res = Inr r \<and> rest = newCalls st2 st3 @ [y] \<and> isWatermarkWrite y)
                       \<or> (res = Inl bigIntTypeError \<and> rest = newCalls st2 st3
                           \<and> (\<exists>R \<in> set rows. \<not> hasKey job R \<and> \<not> serializable R))))))"
    if x: "execute clock job st = Some (out, st')"
    and f: "((getSyncStatus (targetAdapter job) = mariadb_getSyncStatus pool
               \<and> (\<exists>e. fst (mariadb_query pool
                            ''SELECT last_sync_time FROM sync_status WHERE table_name = ?''
                            [JStr (syncStatusKey job)] (world st)) = Inl e))
              \<or> (getSyncStatus (targetAdapter job) = mssql_getSyncStatus mpool
                  \<and> (mpool = None
                      \<or> (\<exists>q e. mpool = Some q
                            \<and> fst (q ''SELECT last_sync_time FROM sync_status WHERE table_name = @tableName''
                                    [(''tableName'', JStr (syncStatusKey job))] (world st)) = Inl e))))"
    for out st'
  proof -
    from f have "fst (getSyncStatus (targetAdapter job) (syncStatusKey job) (world st))
                   = Inr (JDate 0)"
    proof
      assume a: "getSyncStatus (targetAdapter job) = mariadb_getSyncStatus pool
               \<and> (\<exists>e. fst (mariadb_query pool
                            ''SELECT last_sync_time FROM sync_status WHERE table_name = ?''
                            [JStr (syncStatusKey job)] (world st)) = Inl e)"
      with mariadb_getSyncStatus_swallows [of pool "syncStatusKey job" "world st"]
      have "fst (mariadb_getSyncStatus pool (syncStatusKey job) (world st)) = Inr (JDate 0)"
        by blast
      with a show ?thesis by simp
    next
      assume a: "getSyncStatus (targetAdapter job) = mssql_getSyncStatus mpool
                  \<and> (mpool = None
                      \<or> (\<exists>q e. mpool = Some q
                            \<and> fst (q ''SELECT last_sync_time FROM sync_status WHERE table_name = @tableName''
                                    [(''tableName'', JStr (syncStatusKey job))] (world st)) = Inl e))"
      with mssql_getSyncStatus_swallows [of mpool "syncStatusKey job" "world st"]
      have "fst (mssql_getSyncStatus mpool (syncStatusKey job) (world st)) = Inr (JDate 0)"
        by blast
      with a show ?thesis by simp
    qed
    from execute_after_epoch_read [OF this x] show ?thesis .
  qed
  have j': "\<forall>out st'. execute clock job st = Some (out, st')
          \<and> ((getSyncStatus (targetAdapter job) = mariadb_getSyncStatus pool
               \<and> (\<exists>e. fst (mariadb_query pool
                            ''SELECT last_sync_time FROM sync_status WHERE table_name = ?''
                            [JStr (syncStatusKey job)] (world st)) = Inl e))
              \<or> (getSyncStatus (targetAdapter job) = mssql_getSyncStatus mpool
                  \<and> (mpool = None
                      \<or> (\<exists>q e. mpool = Some q
                            \<and> fst (q ''SELECT last_sync_time FROM sync_status WHERE table_name = @tableName''
                                    [(''tableName'', JStr (syncStatusKey job))] (world st)) = Inl e))))
        \<longrightarrow>
          (\<exists>rp rest. newCalls st st'
             = (GetSyncStatus (syncStatusKey job), RetVal (JDate 0))
               # (GetUpdatedRecords (tableName job) (updateColumn job) (JDate 0), rp) # rest
           \<and> ((\<exists>r. out = Inr r \<and> success r)
              \<or> (\<exists>e. out = execute_catch e
                  \<and> (rp = Threw e
                      \<or> (rest \<noteq> [] \<and> (\<exists>k t. last rest = (UpdateSyncStatus k t, Threw e)))))
              \<or> (\<exists>rows st2. rp = RetRows rows \<and> rows \<noteq> []
                  \<and> processBatches job rows st2 = Some (Inl bigIntTypeError, st')
                  \<and> rest = newCalls st2 st'
                  \<and> out = Inr (failedResult (JStr ''Do not know how to serialize a BigInt''))))
           \<and> (\<forall>rows. rp = RetRows rows \<and> rows \<noteq> [] \<longrightarrow>
                 (\<exists>res st2 st3. processBatches job rows st2 = Some (res, st3)
                    \<and> ((\<exists>r y. res = Inr r \<and> rest = newCalls st2 st3 @ [y] \<and> isWatermarkWrite y)
                       \<or> (res = Inl bigIntTypeError \<and> rest = newCalls st2 st3
                           \<and> (\<exists>R \<in> set rows. \<not> hasKey job R \<and> \<not> serializable R))))))"
    by (intro allI impI, elim conjE, rule j)
  from m have m1: "\<forall>e. fst (mariadb_getSyncStatus pool key w) \<noteq> Inl e"
    and m2: "\<forall>e. fst (mariadb_query pool ''SELECT last_sync_time FROM sync_status WHERE table_name = ?''
                  [JStr key] w) = Inl e \<longrightarrow>
          fst (mariadb_getSyncStatus pool key w) = Inr (JDate 0)"
    by (rule conjunct1, rule conjunct2)
  from s have s1: "\<forall>e. fst (mssql_getSyncStatus mpool key w) \<noteq> Inl e"
    and s2: "mpool = None \<longrightarrow> fst (mssql_getSyncStatus mpool key w) = Inr (JDate 0)"
    and s3: "\<forall>q e. mpool = Some q
          \<and> fst (q ''SELECT last_sync_time FROM sync_status WHERE table_name = @tableName''
                  [(''tableName'', JStr key)] w) = Inl e \<longrightarrow>
          fst (mssql_getSyncStatus mpool key w) = Inr (JDate 0)"
    by (rule conjunct1, rule conjunct2 [THEN conjunct1], rule conjunct2 [THEN conjunct2])
  show ?thesis
    by (rule conjI [OF m1 conjI [OF s1 conjI [OF m2 conjI [OF s2 conjI [OF s3 j']]]]])
qed

text \<open>
  Claim C10, as stated, fails where it says that the job does not fail and re-applies
  every row. With a target adapter that has no pool, the failed watermark read is
  swallowed and the row is extracted since the epoch; but the existence check throws,
  so the row is skipped, and the watermark write throws, so the job reports failure.
\<close>

theorem job_after_read_failure_counterexample:
  "fst (mariadb_getSyncStatus None ''orders_to_orders_copy''
          \<lparr>sourceRows = [memRow (JNum 1) (JStr ''one'') 5], targetKeys = [],
           watermarks = [], wallClock = 1000\<rparr>)
     = Inr (JDate 0)
   \<and> map_option fst
        (execute wallClock
           ((memJob ''orders'' ''orders_copy'' 10)\<lparr>targetAdapter := mariadbWithoutPool\<rparr>)
           (memStart [memRow (JNum 1) (JStr ''one'') 5] []))
     = Some (Inr (failedResult (JStr notConnectedMessage)))
   \<and> map_option (calls \<circ> snd)
        (execute wallClock
           ((memJob ''orders'' ''orders_copy'' 10)\<lparr>targetAdapter := mariadbWithoutPool\<rparr>)
           (memStart [memRow (JNum 1) (JStr ''one'') 5] []))
     = Some [(GetSyncStatus ''orders_to_orders_copy'', RetVal (JDate 0)),
             (GetUpdatedRecords ''orders'' ''updated_at'' (JDate 0),
              RetRows [memRow (JNum 1) (JStr ''one'') 5]),
             (Exists ''orders_copy'' ''id'' (JNum 1), Threw (JsError notConnectedMessage)),
             (UpdateSyncStatus ''orders_to_orders_copy'' 1000,
              Threw (JsError notConnectedMessage))]"
proof -
  let ?J = "(memJob ''orders'' ''orders_copy'' 10)\<lparr>targetAdapter := mariadbWithoutPool\<rparr>"
  let ?S = "memStart [memRow (JNum 1) (JStr ''one'') 5] []"
  have bs: "0 < batchSize ?J" by (simp add: memJob_def)
  have g: "fst (mariadb_getSyncStatus None ''orders_to_orders_copy''
          \<lparr>sourceRows = [memRow (JNum 1) (JStr ''one'') 5], targetKeys = [],
           watermarks = [], wallClock = 1000\<rparr>) = Inr (JDate 0)"
    by (simp add: mariadb_getSyncStatus_def mariadb_query_def)
  have r: "map_option fst (execute wallClock ?J ?S)
             = Some (Inr (failedResult (JStr notConnectedMessage)))"
    by (simp only: execute_def execute_try_def processBatches_chunks [OF bs])
       (simp add: mem_exec_simps mem_simps chunks_Nil chunks_Cons mariadb_getSyncStatus_def
          mariadb_query_def mariadbWithoutPool_def)
  have c: "map_option (calls \<circ> snd) (execute wallClock ?J ?S)
     = Some [(GetSyncStatus ''orders_to_orders_copy'', RetVal (JDate 0)),
             (GetUpdatedRecords ''orders'' ''updated_at'' (JDate 0),
              RetRows [memRow (JNum 1) (JStr ''one'') 5]),
             (Exists ''orders_copy'' ''id'' (JNum 1), Threw (JsError notConnectedMessage)),
             (UpdateSyncStatus ''orders_to_orders_copy'' 1000,
              Threw (JsError notConnectedMessage))]"
    by (simp only: execute_def execute_try_def processBatches_chunks [OF bs])
       (simp add: mem_exec_simps mem_simps chunks_Nil chunks_Cons mariadb_getSyncStatus_def
          mariadb_query_def mariadbWithoutPool_def)
  show ?thesis by (rule conjI [OF g conjI [OF r c]])
qed

theorem watermark_read_failure_means_epoch_witness:
  "fst (mariadb_query None ''SELECT last_sync_time FROM sync_status WHERE table_name = ?''
          [JStr ''orders_to_orders_copy'']
          \<lparr>sourceRows = [memRow (JNum 1) (JStr ''one'') 5, memRow (JNum 2) (JStr ''two'') 600],
           targetKeys = [], watermarks = [(''orders_to_orders_copy'', 500)], wallClock = 1000\<rparr>)
     = Inl (JsError notConnectedMessage)
   \<and> fst (mariadb_getSyncStatus None ''orders_to_orders_copy''
          \<lparr>sourceRows = [memRow (JNum 1) (JStr ''one'') 5, memRow (JNum 2) (JStr ''two'') 600],
           targetKeys = [], watermarks = [(''orders_to_orders_copy'', 500)], wallClock = 1000\<rparr>)
     = Inr (JDate 0)
   \<and> map_option fst
        (execute wallClock
           ((memJob ''orders'' ''orders_copy'' 10)
              \<lparr>targetAdapter := memAdapter\<lparr>getSyncStatus := mariadb_getSyncStatus None\<rparr>\<rparr>)
           \<lparr>world = \<lparr>sourceRows = [memRow (JNum 1) (JStr ''one'') 5,
                                    memRow (JNum 2) (JStr ''two'') 600],
                      targetKeys = [], watermarks = [(''orders_to_orders_copy'', 500)],
                      wallClock = 1000\<rparr>,
            calls = []\<rparr>)
     = Some (Inr \<lparr>success = True, recordsProcessed = 2, recordsInserted = Some 2,
                  recordsUpdated = Some 0, duration = Some 0, error = None,
                  resultMessage = SyncSucceeded\<rparr>)
   \<and> map_option (map fst \<circ> calls \<circ> snd)
        (execute wallClock
           ((memJob ''orders'' ''orders_copy'' 10)
              \<lparr>targetAdapter := memAdapter\<lparr>getSyncStatus := mariadb_getSyncStatus None\<rparr>\<rparr>)
           \<lparr>world = \<lparr>sourceRows = [memRow (JNum 1) (JStr ''one'') 5,
                                    memRow (JNum 2) (JStr ''two'') 600],
                      targetKeys = [], watermarks = [(''orders_to_orders_copy'', 500)],
                      wallClock = 1000\<rparr>,
            calls = []\<rparr>)
     = Some [GetSyncStatus ''orders_to_orders_copy'',
             GetUpdatedRecords ''orders'' ''updated_at'' (JDate 0),
             Exists ''orders_copy'' ''id'' (JNum 1),
             Exists ''orders_copy'' ''id'' (JNum 2),
             BatchInsert ''orders_copy''
               [memRow (JNum 1) (JStr ''one'') 5, memRow (JNum 2) (JStr ''two'') 600],
             UpdateSyncStatus ''orders_to_orders_copy'' 1000]"
proof -
  let ?J = "(memJob ''orders'' ''orders_copy'' 10)
              \<lparr>targetAdapter := memAdapter\<lparr>getSyncStatus := mariadb_getSyncStatus None\<rparr>\<rparr>"
  let ?W = "\<lparr>sourceRows = [memRow (JNum 1) (JStr ''one'') 5, memRow (JNum 2) (JStr ''two'') 600],
           targetKeys = [], watermarks = [(''orders_to_orders_copy'', 500)], wallClock = 1000\<rparr>"
  let ?S = "\<lparr>world = ?W, calls = []\<rparr>"
  have bs: "0 < batchSize ?J" by (simp add: memJob_def)
  have q: "fst (mariadb_query None ''SELECT last_sync_time FROM sync_status WHERE table_name = ?''
          [JStr ''orders_to_orders_copy''] ?W) = Inl (JsError notConnectedMessage)"
    by (simp add: mariadb_query_def)
  have r: "map_option fst (execute wallClock ?J ?S)
     = Some (Inr \<lparr>success = True, recordsProcessed = 2, recordsInserted = Some 2,
                  recordsUpdated = Some 0, duration = Some 0, error = None,
                  resultMessage = SyncSucceeded\<rparr>)"
    by (simp only: execute_def execute_try_def processBatches_chunks [OF bs])
       (simp add: mem_exec_simps mem_simps chunks_Nil chunks_Cons mariadb_getSyncStatus_def
          mariadb_query_def)
  have c: "map_option (map fst \<circ> calls \<circ> snd) (execute wallClock ?J ?S)
     = Some [GetSyncStatus ''orders_to_orders_copy'',
             GetUpdatedRecords ''orders'' ''updated_at'' (JDate 0),
             Exists ''orders_copy'' ''id'' (JNum 1),
             Exists ''orders_copy'' ''id'' (JNum 2),
             BatchInsert ''orders_copy''
               [memRow (JNum 1) (JStr ''one'') 5, memRow (JNum 2) (JStr ''two'') 600],
             UpdateSyncStatus ''orders_to_orders_copy'' 1000]"
    by (simp only: execute_def execute_try_def processBatches_chunks [OF bs])
       (simp add: mem_exec_simps mem_simps chunks_Nil chunks_Cons mariadb_getSyncStatus_def
          mariadb_query_def)
  note t = watermark_read_failure_means_epoch
         [of None "''orders_to_orders_copy''" ?W None wallClock ?J ?S,
          THEN conjunct2, THEN conjunct2, THEN conjunct1, rule_format]
  have g: "fst (mariadb_getSyncStatus None ''orders_to_orders_copy'' ?W) = Inr (JDate 0)"
    by (rule t [OF q])
  show ?thesis
    by (rule conjI [OF q conjI [OF g conjI [OF r c]]])
qed

section \<open>Claims about the scheduler\<close>

lemma pairSyncJob_batchSize:
  "batchSize (pairSyncJob cfg syncer source target l s p) = cfgBatchSize cfg"
  by (simp add: pairSyncJob_def newSyncJob_def syncJobOptions_def numOr_def Let_def
      split: option.splits)

lemma mergeResults_zero:
  "mergeResults \<lparr>totalTables = 0, successTables = 0, failedTables = 0, totalRecords = 0\<rparr> x = x"
  by (simp add: mergeResults_def)

lemma execute_throws_an_Error:
  assumes "execute clock job st = Some (Inl e, st')"
  shows "\<exists>m. e = JsError m"
proof -
  from execute_rejects_only [OF assms] obtain v where "errorMessage (Thrown v) = Inl e"
    by blast
  then show ?thesis by (rule errorMessage_Inl_JsError)
qed

lemma syncError_of_execute:
  assumes "execute clock job st = Some (Inl e, st')"
  shows "syncError e = Inr ()"
proof -
  from execute_throws_an_Error [OF assms] obtain m where "e = JsError m" by blast
  then show ?thesis by (simp add: syncError_def)
qed

lemma syncTablePair_tally:
  assumes r: "isRunning syncer" and b: "0 < cfgBatchSize cfg"
  shows "\<exists>out s1 t.
           execute clock (pairSyncJob cfg syncer source target l s p) st = Some (out, s1)
         \<and> syncTablePair clock cfg syncer source target l s p st = Some (Inr t, s1)
         \<and> (\<forall>e. out = Inl e \<longrightarrow> t = oneFailedTable)
         \<and> (\<forall>res. out = Inr res \<longrightarrow>
               t = (if success res then oneSuccessTable (recordsProcessed res) else oneFailedTable))"
proof -
  let ?j = "pairSyncJob cfg syncer source target l s p"
  have "0 < batchSize ?j" using b by (simp add: pairSyncJob_batchSize)
  from execute_terminates [OF this, of clock st] obtain out s1 where
    x: "execute clock ?j st = Some (out, s1)" by blast
  show ?thesis
  proof (cases out)
    case (Inl e)
    from x Inl have xe: "execute clock ?j st = Some (Inl e, s1)" by simp
    from syncError_of_execute [OF xe] have se: "syncError e = Inr ()" .
    have "syncTablePair clock cfg syncer source target l s p st = Some (Inr oneFailedTable, s1)"
      using r xe se by (simp add: syncTablePair_def oneFailedTable_def)
    with x Inl show ?thesis by simp
  next
    case (Inr res)
    from x Inr have xr: "execute clock ?j st = Some (Inr res, s1)" by simp
    have "syncTablePair clock cfg syncer source target l s p st
            = Some (Inr (if success res then oneSuccessTable (recordsProcessed res)
                         else oneFailedTable), s1)"
      using r xr by (simp add: syncTablePair_def oneFailedTable_def oneSuccessTable_def)
    with x Inr show ?thesis by simp
  qed
qed

text \<open>
  Claim C5. In a tick of a running syncer with both adapters and both directed pairs
  configured (and a positive batch size), the job of the first pair is executed, then
  the job of the second pair is constructed and executed from the state the first left,
  whatever the first did: returned a result or threw. \<open>syncTablePair\<close> itself never
  throws: an error thrown out of \<open>execute\<close> is caught by its \<open>catch\<close> block and
  tallied as exactly one failed table, a result that reports failure is one failed
  table too, and a result that reports success is one successful table with its
  records. The tick completes, and its aggregate is the sum of the two tallies: two
  tables, each counted once, as a success or as a failure.
\<close>

theorem tick_isolates_pair_failures:
  assumes "isRunning syncer"
      and "clientAdapter syncer = Some client" and "serverAdapter syncer = Some server"
      and "listenTable (clientToServer cfg) \<noteq> []" and "syncTable (clientToServer cfg) \<noteq> []"
      and "listenTable (serverToClient cfg) \<noteq> []" and "syncTable (serverToClient cfg) \<noteq> []"
      and "0 < cfgBatchSize cfg"
  shows "\<exists>o1 s1 t1 o2 s2 t2.
           execute clock
             (pairSyncJob cfg syncer client server (listenTable (clientToServer cfg))
                (syncTable (clientToServer cfg)) ''client'') st = Some (o1, s1)
         \<and> execute clock
             (pairSyncJob cfg syncer server client (listenTable (serverToClient cfg))
                (syncTable (serverToClient cfg)) ''server'') s1 = Some (o2, s2)
         \<and> syncTablePair clock cfg syncer client server (listenTable (clientToServer cfg))
              (syncTable (clientToServer cfg)) ''client'' st = Some (Inr t1, s1)
         \<and> syncTablePair clock cfg syncer server client (listenTable (serverToClient cfg))
              (syncTable (serverToClient cfg)) ''server'' s1 = Some (Inr t2, s2)
         \<and> (\<forall>e. o1 = Inl e \<longrightarrow> t1 = oneFailedTable)
         \<and> (\<forall>r. o1 = Inr r \<longrightarrow>
               t1 = (if success r then oneSuccessTable (recordsProcessed r) else oneFailedTable))
         \<and> (\<forall>e. o2 = Inl e \<longrightarrow> t2 = oneFailedTable)
         \<and> (\<forall>r. o2 = Inr r \<longrightarrow>
               t2 = (if success r then oneSuccessTable (recordsProcessed r) else oneFailedTable))
         \<and> runSync clock cfg syncer st = Some (TickCompleted (mergeResults t1 t2), s2)
         \<and> totalTables (mergeResults t1 t2) = 2
         \<and> successTables (mergeResults t1 t2) + failedTables (mergeResults t1 t2) = 2"
proof -
  let ?j1 = "pairSyncJob cfg syncer client server (listenTable (clientToServer cfg))
                (syncTable (clientToServer cfg)) ''client''"
  let ?j2 = "pairSyncJob cfg syncer server client (listenTable (serverToClient cfg))
                (syncTable (serverToClient cfg)) ''server''"
  from syncTablePair_tally [OF assms(1,8), of clock client server
         "listenTable (clientToServer cfg)" "syncTable (clientToServer cfg)" "''client''" st]
  obtain o1 s1 t1 where
    e1: "execute clock ?j1 st = Some (o1, s1)"
    and p1: "syncTablePair clock cfg syncer client server (listenTable (clientToServer cfg))
              (syncTable (clientToServer cfg)) ''client'' st = Some (Inr t1, s1)"
    and l1: "\<forall>e. o1 = Inl e \<longrightarrow> t1 = oneFailedTable"
    and r1: "\<forall>r. o1 = Inr r \<longrightarrow>
               t1 = (if success r then oneSuccessTable (recordsProcessed r) else oneFailedTable)"
    by (elim exE conjE)
  from syncTablePair_tally [OF assms(1,8), of clock server client
         "listenTable (serverToClient cfg)" "syncTable (serverToClient cfg)" "''server''" s1]
  obtain o2 s2 t2 where
    e2: "execute clock ?j2 s1 = Some (o2, s2)"
    and p2: "syncTablePair clock cfg syncer server client (listenTable (serverToClient cfg))
              (syncTable (serverToClient cfg)) ''server'' s1 = Some (Inr t2, s2)"
    and l2: "\<forall>e. o2 = Inl e \<longrightarrow> t2 = oneFailedTable"
    and r2: "\<forall>r. o2 = Inr r \<longrightarrow>
               t2 = (if success r then oneSuccessTable (recordsProcessed r) else oneFailedTable)"
    by (elim exE conjE)
  have run: "runSync clock cfg syncer st = Some (TickCompleted (mergeResults t1 t2), s2)"
    using assms(1-7) p1 p2 by (simp add: runSync_def runSync_try_def mergeResults_zero)
  have k1: "totalTables t1 = 1 \<and> successTables t1 + failedTables t1 = 1"
    using l1 r1 by (cases o1) (simp_all add: oneFailedTable_def oneSuccessTable_def)
  have k2: "totalTables t2 = 1 \<and> successTables t2 + failedTables t2 = 1"
    using l2 r2 by (cases o2) (simp_all add: oneFailedTable_def oneSuccessTable_def)
  have tt: "totalTables (mergeResults t1 t2) = 2"
    using k1 k2 by (simp add: mergeResults_def)
  have sf: "successTables (mergeResults t1 t2) + failedTables (mergeResults t1 t2) = 2"
    using k1 k2 by (simp add: mergeResults_def)
  show ?thesis
    apply (rule exI [of _ o1], rule exI [of _ s1], rule exI [of _ t1],
           rule exI [of _ o2], rule exI [of _ s2], rule exI [of _ t2])
    by (rule conjI [OF e1 conjI [OF e2 conjI [OF p1 conjI [OF p2 conjI [OF l1 conjI [OF r1
          conjI [OF l2 conjI [OF r2 conjI [OF run conjI [OF tt sf]]]]]]]]]])
qed

theorem tick_isolates_pair_failures_witness:
  "isRunning memSyncer
   \<and> clientAdapter memSyncer = Some memAdapter \<and> serverAdapter memSyncer = Some memAdapter
   \<and> listenTable (clientToServer memConfigVoid) = ''void''
   \<and> syncTable (clientToServer memConfigVoid) = ''lost''
   \<and> listenTable (serverToClient memConfigVoid) = ''orders''
   \<and> syncTable (serverToClient memConfigVoid) = ''orders_copy''
   \<and> 0 < cfgBatchSize memConfigVoid
   \<and> map_option fst
        (execute wallClock (memJob ''void'' ''lost'' 10)
           (memStart [memRow (JNum 1) (JStr ''one'') 5] []))
     = Some (Inl (JsError ''Cannot read properties of null (reading 'message')''))
   \<and> map_option fst
        (runSync wallClock memConfigVoid memSyncer
           (memStart [memRow (JNum 1) (JStr ''one'') 5] []))
     = Some (TickCompleted
               \<lparr>totalTables = 2, successTables = 1, failedTables = 1, totalRecords = 1\<rparr>)"
proof -
  let ?S = "memStart [memRow (JNum 1) (JStr ''one'') 5] []"
  let ?S1 = "\<lparr>world = world ?S,
              calls = [(GetSyncStatus ''void_to_lost'', RetVal (JDate 0)),
                       (GetUpdatedRecords ''void'' ''updated_at'' (JDate 0),
                        Threw (Thrown JNull))]\<rparr>"
  let ?E = "JsError ''Cannot read properties of null (reading 'message')''"
  let ?R2 = "\<lparr>success = True, recordsProcessed = 1, recordsInserted = Some 1,
              recordsUpdated = Some 0, duration = Some 0, error = None,
              resultMessage = SyncSucceeded\<rparr>"
  have h: "isRunning memSyncer" "clientAdapter memSyncer = Some memAdapter"
    "serverAdapter memSyncer = Some memAdapter"
    by (simp_all add: memSyncer_def)
  have n: "listenTable (clientToServer memConfigVoid) = ''void''"
    "syncTable (clientToServer memConfigVoid) = ''lost''"
    "listenTable (serverToClient memConfigVoid) = ''orders''"
    "syncTable (serverToClient memConfigVoid) = ''orders_copy''"
    by (simp_all add: memConfigVoid_def)
  have ne: "listenTable (clientToServer memConfigVoid) \<noteq> []"
    "syncTable (clientToServer memConfigVoid) \<noteq> []"
    "listenTable (serverToClient memConfigVoid) \<noteq> []"
    "syncTable (serverToClient memConfigVoid) \<noteq> []"
    by (simp_all add: memConfigVoid_def)
  have b: "0 < cfgBatchSize memConfigVoid" by (simp add: memConfigVoid_def)
  have j1: "pairSyncJob memConfigVoid memSyncer memAdapter memAdapter
              (listenTable (clientToServer memConfigVoid))
              (syncTable (clientToServer memConfigVoid)) ''client''
            = memJob ''void'' ''lost'' 10"
    by (simp add: pairSyncJob_def newSyncJob_def syncJobOptions_def strOr_def numOr_def
          js_trim_def isSpace_def memJob_def memConfigVoid_def memSyncer_def)
  have j2: "pairSyncJob memConfigVoid memSyncer memAdapter memAdapter
              (listenTable (serverToClient memConfigVoid))
              (syncTable (serverToClient memConfigVoid)) ''server''
            = memJob ''orders'' ''orders_copy'' 10"
    by (simp add: pairSyncJob_def newSyncJob_def syncJobOptions_def strOr_def numOr_def
          js_trim_def isSpace_def memJob_def memConfigVoid_def memSyncer_def)
  have bs: "0 < batchSize (memJob ''orders'' ''orders_copy'' 10)" by (simp add: memJob_def)
  have e1: "execute wallClock (memJob ''void'' ''lost'' 10) ?S = Some (Inl ?E, ?S1)"
    by (simp add: mem_exec_simps mem_simps)
  have e2: "map_option fst (execute wallClock (memJob ''orders'' ''orders_copy'' 10) ?S1)
              = Some (Inr ?R2)"
    by (simp only: execute_def execute_try_def processBatches_chunks [OF bs])
       (simp add: mem_exec_simps mem_simps chunks_Nil chunks_Cons)
  from tick_isolates_pair_failures [OF h ne b, of wallClock ?S, unfolded j1 j2]
  obtain o1 s1 t1 o2 s2 t2 where
    x1: "execute wallClock (memJob ''void'' ''lost'' 10) ?S = Some (o1, s1)"
    and x2: "execute wallClock (memJob ''orders'' ''orders_copy'' 10) s1 = Some (o2, s2)"
    and l1: "\<forall>e. o1 = Inl e \<longrightarrow> t1 = oneFailedTable"
    and r2: "\<forall>r. o2 = Inr r \<longrightarrow>
               t2 = (if success r then oneSuccessTable (recordsProcessed r) else oneFailedTable)"
    and run: "runSync wallClock memConfigVoid memSyncer ?S
                = Some (TickCompleted (mergeResults t1 t2), s2)"
    by (elim exE conjE)
  from x1 e1 have o1: "o1 = Inl ?E" "s1 = ?S1" by simp_all
  from x2 e2 o1 have o2: "o2 = Inr ?R2" by simp
  from l1 o1 have t1: "t1 = oneFailedTable" by simp
  from r2 o2 have t2: "t2 = oneSuccessTable 1" by simp
  have a: "map_option fst (runSync wallClock memConfigVoid memSyncer ?S)
     = Some (TickCompleted
               \<lparr>totalTables = 2, successTables = 1, failedTables = 1, totalRecords = 1\<rparr>)"
    unfolding run t1 t2
    by (simp add: mergeResults_def oneFailedTable_def oneSuccessTable_def)
  have c: "map_option fst (execute wallClock (memJob ''void'' ''lost'' 10) ?S) = Some (Inl ?E)"
    using e1 by simp
  show ?thesis
    by (rule conjI [OF h(1) conjI [OF h(2) conjI [OF h(3) conjI [OF n(1) conjI [OF n(2)
          conjI [OF n(3) conjI [OF n(4) conjI [OF b conjI [OF c a]]]]]]]]])
qed

end
